(* ===== verification/Prelude.thy ===== *)
theory Prelude
  imports Main "HOL-Library.Word"
begin

text \<open>
  Shared vocabulary of the development.

  \<^item> \<open>u8\<close>, \<open>u16\<close>: the C types \<open>uint8_t\<close> and \<open>uint16_t\<close>; a C \<open>int\<close> used as a status
    code or a descriptor is an \<open>int\<close>.
  \<^item> \<open>fault\<close>: the undefined behaviours the code can run into; \<open>'a outcome\<close>: what a call
    does: it returns, it blocks in the kernel, or it leaves the defined part of C.
  \<^item> \<open>store\<close>, \<open>load\<close>, \<open>copy_from\<close>, \<open>copy_into\<close>: accesses to C arrays, which are lists of
    a fixed length here; an access out of range is a fault, never an arbitrary value.
  \<^item> \<open>cval\<close>: the value of a C function some of whose paths fall off the closing brace.
  \<^item> the locale \<open>step_invariant\<close>: reachability of a step relation and the principle that
    an invariant of the steps holds in every reachable state.
\<close>

unbundle bit_operations_syntax

type_synonym u8 = "8 word"
type_synonym u16 = "16 word"

named_theorems hci_codes \<open>numeric values of the opcodes and limits of the C headers\<close>
named_theorems c_access \<open>characteristic equations of array accesses and outcomes\<close>
named_theorems keeps_wf \<open>operations that keep a well-formedness invariant\<close>


subsection \<open>Faults and outcomes\<close>

datatype fault =
    Overflow nat nat      \<comment> \<open>a write of \<open>n\<close> bytes into an object of \<open>cap\<close> bytes\<close>
  | Index_Range nat int   \<comment> \<open>an access at an index outside an array of the given length\<close>
  | Uninitialised         \<comment> \<open>a read of an object that was never written\<close>
  | Invalid_Free          \<comment> \<open>\<open>free\<close> of memory that was not allocated\<close>
  | Null_Pointer          \<comment> \<open>a library call on a pointer that is NULL\<close>

datatype 'a outcome = Returns 'a | Blocks | Fault fault

primrec outcome_bind :: "'a outcome \<Rightarrow> ('a \<Rightarrow> 'b outcome) \<Rightarrow> 'b outcome" where
  "outcome_bind (Returns x) f = f x"
| "outcome_bind Blocks f = Blocks"
| "outcome_bind (Fault e) f = Fault e"

lemma outcome_bind_assoc [c_access]:
  "outcome_bind (outcome_bind m f) h = outcome_bind m (\<lambda>x. outcome_bind (f x) h)"
  by (cases m) simp_all

lemma outcome_bind_eq_Returns [c_access]:
  "outcome_bind m f = Returns y \<longleftrightarrow> (\<exists>x. m = Returns x \<and> f x = Returns y)"
  by (cases m) simp_all

lemma outcome_bind_eq_Fault [c_access]:
  "outcome_bind m f = Fault e \<longleftrightarrow> m = Fault e \<or> (\<exists>x. m = Returns x \<and> f x = Fault e)"
  by (cases m) simp_all

text \<open>Every normal return satisfies \<open>Q\<close>.\<close>

primrec on_return :: "('a \<Rightarrow> bool) \<Rightarrow> 'a outcome \<Rightarrow> bool" where
  "on_return Q (Returns x) = Q x"
| "on_return Q Blocks = True"
| "on_return Q (Fault e) = True"

lemma on_return_iff: "on_return Q m \<longleftrightarrow> (\<forall>x. m = Returns x \<longrightarrow> Q x)"
  by (cases m) simp_all

lemma on_returnD: "on_return Q m \<Longrightarrow> m = Returns x \<Longrightarrow> Q x"
  by simp

lemma on_return_bind [intro?]:
  "on_return P m \<Longrightarrow> (\<And>x. P x \<Longrightarrow> on_return Q (f x)) \<Longrightarrow> on_return Q (outcome_bind m f)"
  by (cases m) simp_all

text \<open>
  A C function with a path that reaches its closing brace without a \<open>return\<close> has no value
  on that path; using the value is undefined, and compiled code sees whatever the result
  register holds.
\<close>

datatype cval = Value int | No_Value


subsection \<open>Arrays\<close>

definition load :: "'a list \<Rightarrow> nat \<Rightarrow> 'a outcome" where
  "load arr i = (if i < length arr then Returns (arr ! i) else Fault (Index_Range (length arr) (int i)))"

definition store :: "'a list \<Rightarrow> nat \<Rightarrow> 'a \<Rightarrow> 'a list outcome" where
  "store arr i v =
     (if i < length arr then Returns (arr[i := v]) else Fault (Index_Range (length arr) (int i)))"

text \<open>\<open>memcpy\<close> reading \<open>n\<close> bytes of an object, and writing bytes over the start of one.\<close>

definition copy_from :: "'a list \<Rightarrow> nat \<Rightarrow> 'a list outcome" where
  "copy_from src n =
     (if n \<le> length src then Returns (take n src) else Fault (Index_Range (length src) (int n)))"

definition copy_into :: "'a list \<Rightarrow> 'a list \<Rightarrow> 'a list outcome" where
  "copy_into dst bs =
     (if length bs \<le> length dst then Returns (bs @ drop (length bs) dst)
      else Fault (Overflow (length dst) (length bs)))"

lemma load_ok [simp]: "i < length arr \<Longrightarrow> load arr i = Returns (arr ! i)"
  by (simp add: load_def)

lemma store_ok [simp]: "i < length arr \<Longrightarrow> store arr i v = Returns (arr[i := v])"
  by (simp add: store_def)

lemma store_length [c_access]: "store arr i v = Returns arr' \<Longrightarrow> length arr' = length arr"
  by (auto simp: store_def split: if_splits)

lemma copy_from_ok [simp]: "n \<le> length src \<Longrightarrow> copy_from src n = Returns (take n src)"
  by (simp add: copy_from_def)

lemma copy_into_ok [simp]:
  "length bs \<le> length dst \<Longrightarrow> copy_into dst bs = Returns (bs @ drop (length bs) dst)"
  by (simp add: copy_into_def)

lemma copy_into_length [c_access]: "copy_into dst bs = Returns dst' \<Longrightarrow> length dst' = length dst"
  by (auto simp: copy_into_def split: if_splits)

text \<open>The copied bytes come first and the rest of the destination keeps its old contents.\<close>

lemma nth_copy_into:
  "copy_into dst bs = Returns dst' \<Longrightarrow> i < length dst \<Longrightarrow>
   dst' ! i = (if i < length bs then bs ! i else dst ! i)"
  by (auto simp: copy_into_def nth_append split: if_splits)


subsection \<open>Lists\<close>

lemma nth_list_update_numeral [simp]:
  "numeral k < length xs \<Longrightarrow> (xs[i := x]) ! numeral k = (if i = numeral k then x else xs ! numeral k)"
  by (auto simp: nth_list_update)

lemma length_ge_Cons: "Suc n \<le> length xs \<Longrightarrow> \<exists>y ys. xs = y # ys \<and> n \<le> length ys"
  by (cases xs) auto

lemma list_update_all: "list_all P xs \<Longrightarrow> P x \<Longrightarrow> list_all P (xs[i := x])"
  by (induction xs arbitrary: i) (auto split: nat.splits)

lemma update_drop:
  "k < length xs \<Longrightarrow> (drop k xs)[0 := b] = b # drop (Suc k) xs"
  by (simp add: Cons_nth_drop_Suc [symmetric])


lemma update_first3:
  "3 \<le> length pkt \<Longrightarrow> pkt[0 := a, Suc 0 := b, 2 := c] = [a, b, c] @ drop 3 pkt"
  by (cases pkt; cases "tl pkt"; cases "tl (tl pkt)") (auto simp: numeral_2_eq_2 numeral_3_eq_3)


subsection \<open>Reachable states of a step relation\<close>

inductive reaches :: "('s \<Rightarrow> bool) \<Rightarrow> ('s \<Rightarrow> 's \<Rightarrow> bool) \<Rightarrow> 's \<Rightarrow> bool"
  for init :: "'s \<Rightarrow> bool" and step :: "'s \<Rightarrow> 's \<Rightarrow> bool" where
  start: "init s \<Longrightarrow> reaches init step s"
| next_state: "reaches init step s \<Longrightarrow> step s t \<Longrightarrow> reaches init step t"

locale step_invariant =
  fixes init :: "'s \<Rightarrow> bool"
    and step :: "'s \<Rightarrow> 's \<Rightarrow> bool"
    and inv :: "'s \<Rightarrow> bool"
  assumes init_inv: "init s \<Longrightarrow> inv s"
    and step_inv: "step s t \<Longrightarrow> inv s \<Longrightarrow> inv t"
begin

lemma reaches_inv: "reaches init step s \<Longrightarrow> inv s"
  by (induction rule: reaches.induct) (auto intro: init_inv step_inv)

lemma steps_inv: "step\<^sup>*\<^sup>* s t \<Longrightarrow> inv s \<Longrightarrow> inv t"
  by (induction rule: rtranclp_induct) (auto intro: step_inv)

end

end
