(* ===== verification/HCI.thy ===== *)
theory HCI
  imports Prelude
begin

text \<open>
  The byte macros and the opcodes of \<open>BLE_Scanner/src/HCI_Commands.h\<close>, restricted to the
  opcodes some \<open>.c\<close> file names.  The macros work on C \<open>int\<close>s after promotion; every use
  in the code has byte or 16-bit operands and a 16-bit result, which is the width here.
\<close>

subsection \<open>Byte macros\<close>

definition MAKE16OFXY :: "u8 \<Rightarrow> u8 \<Rightarrow> u16" where
  "MAKE16OFXY x y = push_bit 8 (ucast x) OR ucast y"

definition LSBYTEOF16BIT :: "u16 \<Rightarrow> u8" where
  "LSBYTEOF16BIT x = ucast (x AND 0xFF)"

definition MSBYTEOF16BIT :: "u16 \<Rightarrow> u8" where
  "MSBYTEOF16BIT x = ucast (drop_bit 8 x AND 0xFF)"

lemmas byte_macro_defs = MAKE16OFXY_def LSBYTEOF16BIT_def MSBYTEOF16BIT_def

lemma mask_ff: "(0xFF :: u16) = mask 8"
  by (simp add: mask_eq_exp_minus_1)

lemma bit_u8_ge: "\<not> n < 8 \<Longrightarrow> \<not> bit (x :: u8) n"
  using bit_imp_le_length [of x n] by auto

lemmas byte_bits = byte_macro_defs mask_ff bit_u8_ge bit_simps

lemma make16_split: "MAKE16OFXY (MSBYTEOF16BIT w) (LSBYTEOF16BIT w) = w"
  by (rule bit_word_eqI) (auto simp: byte_bits)

lemma lsb_make16 [simp]: "LSBYTEOF16BIT (MAKE16OFXY x y) = y"
  by (rule bit_word_eqI) (auto simp: byte_bits)

lemma msb_make16 [simp]: "MSBYTEOF16BIT (MAKE16OFXY x y) = x"
  by (rule bit_word_eqI) (auto simp: byte_bits)

text \<open>The comparison the dispatcher makes: two received bytes spell a given 16-bit code.\<close>

lemma make16_eq_iff: "MAKE16OFXY x y = w \<longleftrightarrow> x = MSBYTEOF16BIT w \<and> y = LSBYTEOF16BIT w"
  by (metis make16_split lsb_make16 msb_make16)

lemma unat_u8_less: "unat (x :: u8) < 256"
  using unsigned_less [of x, where ?'a = nat] by simp

lemma unat_make16: "unat (MAKE16OFXY x y) = 256 * unat x + unat y"
proof -
  have "MAKE16OFXY x y = push_bit 8 (ucast x) + ucast y"
    unfolding MAKE16OFXY_def
    by (rule disjunctive_add [symmetric]) (auto simp: bit_simps bit_u8_ge)
  then have "MAKE16OFXY x y = 256 * ucast x + ucast y"
    by (simp add: push_bit_eq_mult mult.commute)
  then show ?thesis using unat_u8_less [of x] unat_u8_less [of y]
    by (simp add: unat_word_ariths unsigned_ucast_eq take_bit_eq_mod)
qed


subsection \<open>Packet types and data-length parameters\<close>

definition PKT_COMMAND :: u8 where [hci_codes]: "PKT_COMMAND = 0x01"
definition PKT_EVENT :: u8 where [hci_codes]: "PKT_EVENT = 0x04"
definition APP_TX_PDU_SIZE :: u16 where [hci_codes]: "APP_TX_PDU_SIZE = 54"
definition APP_TX_TIME :: u16 where [hci_codes]: "APP_TX_TIME = 656"
definition APP_RX_PDU_SIZE :: u16 where [hci_codes]: "APP_RX_PDU_SIZE = 54"
definition APP_RX_TIME :: u16 where [hci_codes]: "APP_RX_TIME = 656"


subsection \<open>Command opcodes\<close>

definition BT_RESET :: u16 where [hci_codes]: "BT_RESET = 0x0C03"
definition BT_READ_BD_ADDR :: u16 where [hci_codes]: "BT_READ_BD_ADDR = 0x1009"
definition VS_HCI_EXTENSION_SET_TX_POWER :: u16 where
  [hci_codes]: "VS_HCI_EXTENSION_SET_TX_POWER = 0xFC01"
definition VS_HCI_EXTENSION_SET_LOCAL_SUPPORTED_FEATURES :: u16 where
  [hci_codes]: "VS_HCI_EXTENSION_SET_LOCAL_SUPPORTED_FEATURES = 0xFC06"
definition VS_HCI_EXTENSION_SET_MAX_DATA_LENGTH :: u16 where
  [hci_codes]: "VS_HCI_EXTENSION_SET_MAX_DATA_LENGTH = 0xFC21"
definition VS_ATT_WRITE_RESPONSE :: u16 where [hci_codes]: "VS_ATT_WRITE_RESPONSE = 0xFD13"
definition VS_GAP_DEVICE_INITIALIZATION :: u16 where
  [hci_codes]: "VS_GAP_DEVICE_INITIALIZATION = 0xFE00"
definition VS_GAP_DEVICE_DISCOVERY_REQUEST :: u16 where
  [hci_codes]: "VS_GAP_DEVICE_DISCOVERY_REQUEST = 0xFE04"
definition VS_GAP_DEVICE_DISCOVERY_CANCEL :: u16 where
  [hci_codes]: "VS_GAP_DEVICE_DISCOVERY_CANCEL = 0xFE05"
definition VS_GAP_ESTABLISH_LINK_REQUEST :: u16 where
  [hci_codes]: "VS_GAP_ESTABLISH_LINK_REQUEST = 0xFE09"
definition VS_GAP_SET_PARAMETER :: u16 where [hci_codes]: "VS_GAP_SET_PARAMETER = 0xFE30"
definition GATT_WRITECHARVALUE :: u16 where [hci_codes]: "GATT_WRITECHARVALUE = 0xFD92"
definition GATT_NOTIFICATION :: u16 where [hci_codes]: "GATT_NOTIFICATION = 0xFD9B"
definition GATT_DELSERVICE :: u16 where [hci_codes]: "GATT_DELSERVICE = 0xFDFD"


subsection \<open>Event opcodes\<close>

definition EVENT_VS_ATT_EXCHANGE_MTU_REQUEST :: u16 where
  [hci_codes]: "EVENT_VS_ATT_EXCHANGE_MTU_REQUEST = 0x0502"
definition EVENT_VS_ATT_READ_BY_TYPE_REQUEST :: u16 where
  [hci_codes]: "EVENT_VS_ATT_READ_BY_TYPE_REQUEST = 0x0508"
definition EVENT_VS_ATT_READ_REQUEST :: u16 where [hci_codes]: "EVENT_VS_ATT_READ_REQUEST = 0x050A"
definition EVENT_VS_ATT_READ_BY_GROUP_TYPE_REQUEST :: u16 where
  [hci_codes]: "EVENT_VS_ATT_READ_BY_GROUP_TYPE_REQUEST = 0x0510"
definition EVENT_VS_ATT_WRITE_REQUEST :: u16 where
  [hci_codes]: "EVENT_VS_ATT_WRITE_REQUEST = 0x0512"
definition EVENT_VS_ATT_PREPARE_WRITE_REQUEST :: u16 where
  [hci_codes]: "EVENT_VS_ATT_PREPARE_WRITE_REQUEST = 0x0516"
definition EVENT_VS_ATT_HANDLE_VALUE_NOTIFICATION :: u16 where
  [hci_codes]: "EVENT_VS_ATT_HANDLE_VALUE_NOTIFICATION = 0x051B"
definition VS_GAP_DEVICE_DISCOVERY :: u16 where [hci_codes]: "VS_GAP_DEVICE_DISCOVERY = 0x0601"
definition VS_GAP_ADVERT_DATA_UPDATE_DONE :: u16 where
  [hci_codes]: "VS_GAP_ADVERT_DATA_UPDATE_DONE = 0x0602"
definition VS_GAP_MAKE_DISCOVERABLE_DONE :: u16 where
  [hci_codes]: "VS_GAP_MAKE_DISCOVERABLE_DONE = 0x0603"
definition VS_GAP_LINK_ESTABLISHED :: u16 where [hci_codes]: "VS_GAP_LINK_ESTABLISHED = 0x0605"
definition VS_GAP_LINK_TERMINATED :: u16 where [hci_codes]: "VS_GAP_LINK_TERMINATED = 0x0606"
definition VS_GAP_LINK_PARAMETER_UPDATE :: u16 where
  [hci_codes]: "VS_GAP_LINK_PARAMETER_UPDATE = 0x0607"
definition VS_GAP_DEVICE_INFORMATION :: u16 where [hci_codes]: "VS_GAP_DEVICE_INFORMATION = 0x060D"
definition VS_COMMAND_STATUS :: u16 where [hci_codes]: "VS_COMMAND_STATUS = 0x067F"
definition VS_TI_ATT_READ_BY_TYPE_RESPONSE :: u16 where
  [hci_codes]: "VS_TI_ATT_READ_BY_TYPE_RESPONSE = 0x0509"
definition VS_ATT_WRITE_RESPONSE_EVENT :: u16 where
  [hci_codes]: "VS_ATT_WRITE_RESPONSE_EVENT = 0x0513"


subsection \<open>Well-formed command frames\<close>

text \<open>
  What the BLE controller accepts as a command: packet type 1, the opcode with its low byte
  first, a length byte and exactly that many parameter bytes.  This is the abstract
  contract against which the frames built by the code are checked.
\<close>

definition hci_command :: "u16 \<Rightarrow> u8 list \<Rightarrow> u8 list \<Rightarrow> bool" where
  "hci_command op params bs \<longleftrightarrow>
     length params < 256 \<and>
     bs = [1, LSBYTEOF16BIT op, MSBYTEOF16BIT op, word_of_nat (length params)] @ params"

definition hci_parse :: "u8 list \<Rightarrow> (u16 \<times> u8 list) option" where
  "hci_parse bs =
     (case bs of
        t # lo # hi # n # params \<Rightarrow>
          (if t = 1 \<and> unat n = length params then Some (MAKE16OFXY hi lo, params) else None)
      | _ \<Rightarrow> None)"

lemma unat_of_nat_u8: "n < 256 \<Longrightarrow> unat (word_of_nat n :: u8) = n"
  by (simp add: unat_of_nat)

lemma unat_of_nat_u16: "n < 65536 \<Longrightarrow> unat (word_of_nat n :: u16) = n"
  by (simp add: unat_of_nat)

lemma uint_of_nat_u16: "n < 65536 \<Longrightarrow> uint (word_of_nat n :: u16) = int n"
  by (simp only: uint_nat unat_of_nat_u16)

lemma word_less_4: "(w :: u8) < 4 \<Longrightarrow> w = 0 \<or> w = 1 \<or> w = 2 \<or> w = 3"
proof -
  assume "w < 4"
  then have "unat w < 4" by (simp add: word_less_nat_alt)
  then have "unat w = 0 \<or> unat w = 1 \<or> unat w = 2 \<or> unat w = 3" by linarith
  then have "w = word_of_nat 0 \<or> w = word_of_nat 1 \<or> w = word_of_nat 2 \<or> w = word_of_nat 3"
    by (metis of_nat_unat ucast_id)
  then show ?thesis by simp
qed

text \<open>A well-formed command is exactly what the framing of the transport recovers.\<close>

lemma hci_parse_command: "hci_parse bs = Some (op, params) \<longleftrightarrow> hci_command op params bs"
proof
  assume "hci_command op params bs"
  then show "hci_parse bs = Some (op, params)"
    by (simp add: hci_command_def hci_parse_def unat_of_nat_u8 make16_split)
next
  assume parsed: "hci_parse bs = Some (op, params)"
  then obtain n lo hi where bs: "bs = 1 # lo # hi # n # params" and n: "unat n = length params"
    and op: "op = MAKE16OFXY hi lo"
    by (auto simp: hci_parse_def split: list.splits if_splits)
  have "length params < 256"
    using unat_u8_less [of n] n by simp
  moreover have "n = word_of_nat (length params)"
    unfolding n [symmetric] by simp
  ultimately show "hci_command op params bs"
    by (simp add: hci_command_def bs op)
qed

end
