(* ===== verification/Msg_Queue.thy ===== *)
theory Msg_Queue
  imports Prelude
begin

text \<open>
  The System V message queues the threads talk through, and the wrappers of
  \<open>BLE_Scanner/Drivers/Msg_Def.c\<close> (the copy under \<open>mosquitto_client/\<close> differs in the size
  of \<open>mtext\<close> only, which is the argument \<open>cap\<close>).  The kernel side (\<open>msgget\<close>, \<open>msgctl\<close>,
  \<open>msgsnd\<close>, \<open>msgrcv\<close>) follows its documented behaviour: calls with no flags block when the
  queue is full or empty, a dead queue id yields \<open>-1\<close>, a message larger than the receiver's
  buffer stays in the queue and the call yields \<open>-1\<close>.
\<close>

subsection \<open>Layout constants\<close>

definition MTEXT_SIZE :: nat where "MTEXT_SIZE = 100"

definition CLIENT_MTEXT_SIZE :: nat where "CLIENT_MTEXT_SIZE = 35"

text \<open>
  \<open>sizeof(message_buf_t) - sizeof(long)\<close> on the LP64 target: an 8-byte \<open>mtype\<close>, a 2-byte
  \<open>length\<close>, \<open>cap\<close> bytes of text, padded to a multiple of 8.
\<close>

definition MQBUFSIZE :: "nat \<Rightarrow> nat" where
  "MQBUFSIZE cap = 8 * ((8 + 2 + cap + 7) div 8) - 8"

definition COMMANDRESP_THREAD_QUEUE_KEY :: int where "COMMANDRESP_THREAD_QUEUE_KEY = 1995"
definition WRITE_RSP_KEY :: int where "WRITE_RSP_KEY = 1998"
definition PING_PKT_KEY :: int where "PING_PKT_KEY = 1999"
definition CONN_PIPE_0_KEY :: int where "CONN_PIPE_0_KEY = 2000"
definition MESSAGE_SEND_TO_PEER_DEVICE_KEY :: int where "MESSAGE_SEND_TO_PEER_DEVICE_KEY = 2004"


subsection \<open>Kernel state\<close>

record message =
  m_type :: int
  m_size :: nat          \<comment> \<open>the size argument of \<open>msgsnd\<close>\<close>
  m_length :: u16        \<comment> \<open>the \<open>length\<close> member\<close>
  m_text :: "u8 list"    \<comment> \<open>the bytes of \<open>mtext\<close> that were written\<close>

record kernel =
  mq_key :: "int \<Rightarrow> int option"            \<comment> \<open>key to queue id\<close>
  mq_msgs :: "int \<Rightarrow> message list option"  \<comment> \<open>queue id to waiting messages\<close>
  mq_next :: nat                            \<comment> \<open>next queue id to hand out\<close>
  mq_limit :: nat                           \<comment> \<open>number of queues the system allows\<close>
  mq_qbytes :: nat                          \<comment> \<open>bytes a queue holds\<close>

definition msgget :: "kernel \<Rightarrow> int \<Rightarrow> bool \<Rightarrow> int \<times> kernel" where
  "msgget k key creat =
     (case mq_key k key of
        Some qid \<Rightarrow> (qid, k)
      | None \<Rightarrow>
          if creat \<and> mq_next k < mq_limit k then
            (let qid = int (mq_next k) in
             (qid, k\<lparr>mq_key := (mq_key k)(key \<mapsto> qid),
                     mq_msgs := (mq_msgs k)(qid \<mapsto> []),
                     mq_next := Suc (mq_next k)\<rparr>))
          else (-1, k))"

definition msgctl_rmid :: "kernel \<Rightarrow> int \<Rightarrow> kernel" where
  "msgctl_rmid k qid =
     (if mq_msgs k qid = None then k
      else k\<lparr>mq_key := (\<lambda>key. if mq_key k key = Some qid then None else mq_key k key),
             mq_msgs := (mq_msgs k)(qid := None)\<rparr>)"

definition queued_bytes :: "message list \<Rightarrow> nat" where
  "queued_bytes ms = sum_list (map m_size ms)"

definition msgsnd :: "kernel \<Rightarrow> int \<Rightarrow> message \<Rightarrow> (int \<times> kernel) outcome" where
  "msgsnd k qid m =
     (case mq_msgs k qid of
        None \<Rightarrow> Returns (-1, k)
      | Some ms \<Rightarrow>
          if queued_bytes ms + m_size m \<le> mq_qbytes k
          then Returns (0, k\<lparr>mq_msgs := (mq_msgs k)(qid \<mapsto> ms @ [m])\<rparr>)
          else Blocks)"

definition msgrcv :: "kernel \<Rightarrow> int \<Rightarrow> nat \<Rightarrow> int \<Rightarrow> (message option \<times> kernel) outcome" where
  "msgrcv k qid bufsize mtype =
     (case mq_msgs k qid of
        None \<Rightarrow> Returns (None, k)
      | Some ms \<Rightarrow>
          (case List.find (\<lambda>m. m_type m = mtype) ms of
             None \<Rightarrow> Blocks
           | Some m \<Rightarrow>
               if m_size m \<le> bufsize
               then Returns (Some m, k\<lparr>mq_msgs := (mq_msgs k)(qid \<mapsto> remove1 m ms)\<rparr>)
               else Returns (None, k)))"


subsection \<open>The wrappers of \<open>Msg_Def.c\<close>\<close>

definition sys_mq_init :: "kernel \<Rightarrow> int \<Rightarrow> int \<times> kernel" where
  "sys_mq_init k msgKey =
     (let (qid, k1) = msgget k msgKey False in
      if qid < 0 then msgget k1 msgKey True else (qid, k1))"

definition sys_mq_kill :: "kernel \<Rightarrow> int \<Rightarrow> int \<times> kernel" where
  "sys_mq_kill k qid = (0, msgctl_rmid k qid)"

definition sys_mq_reset :: "kernel \<Rightarrow> int \<Rightarrow> cval \<times> kernel" where
  "sys_mq_reset k msgKey =
     (let (qid, k1) = msgget k msgKey False in
      if qid < 0 then (No_Value, msgctl_rmid k1 qid) else (No_Value, k1))"

definition sys_mq_send :: "nat \<Rightarrow> kernel \<Rightarrow> int \<Rightarrow> u8 list \<Rightarrow> u16 \<Rightarrow> (int \<times> kernel) outcome" where
  "sys_mq_send cap k mqId buf len =
     (if unat len > cap then Fault (Overflow cap (unat len))
      else outcome_bind (copy_from buf (unat len)) (\<lambda>bytes.
        msgsnd k mqId \<lparr>m_type = 1, m_size = MQBUFSIZE cap, m_length = len, m_text = bytes\<rparr>))"

definition sys_mq_recv ::
  "nat \<Rightarrow> kernel \<Rightarrow> int \<Rightarrow> u8 list \<Rightarrow> u16 \<Rightarrow> (int \<times> u8 list \<times> u16 \<times> kernel) outcome" where
  "sys_mq_recv cap k mqId buf len =
     outcome_bind (msgrcv k mqId (MQBUFSIZE cap) 1) (\<lambda>(got, k1).
       (case got of
          None \<Rightarrow> Returns (-1, buf, len, k1)
        | Some m \<Rightarrow>
            outcome_bind (copy_from (m_text m) (unat (m_length m))) (\<lambda>bytes.
              outcome_bind (copy_into buf bytes) (\<lambda>buf'.
                Returns (0, buf', m_length m, k1)))))"


subsection \<open>Well-formed queues\<close>

text \<open>
  What every message put in a queue by the wrappers looks like: type 1, the fixed transfer
  size, at most \<open>cap\<close> bytes of text and a \<open>length\<close> member that tells how many.
\<close>

definition message_ok :: "nat \<Rightarrow> message \<Rightarrow> bool" where
  "message_ok cap m \<longleftrightarrow>
     m_type m = 1 \<and> m_size m = MQBUFSIZE cap \<and> unat (m_length m) = length (m_text m) \<and>
     length (m_text m) \<le> cap"

definition kernel_ok :: "nat \<Rightarrow> kernel \<Rightarrow> bool" where
  "kernel_ok cap k \<longleftrightarrow>
     (\<forall>key qid. mq_key k key = Some qid \<longrightarrow> 0 \<le> qid \<and> qid < int (mq_next k) \<and> mq_msgs k qid \<noteq> None) \<and>
     (\<forall>key1 key2 qid. mq_key k key1 = Some qid \<longrightarrow> mq_key k key2 = Some qid \<longrightarrow> key1 = key2) \<and>
     (\<forall>qid ms. mq_msgs k qid = Some ms \<longrightarrow> qid < int (mq_next k) \<and> list_all (message_ok cap) ms)"

text \<open>The byte strings waiting in a queue, in order, and room for \<open>n\<close> more of them.\<close>

definition contents :: "kernel \<Rightarrow> int \<Rightarrow> u8 list list option" where
  "contents k qid = map_option (map m_text) (mq_msgs k qid)"

definition room :: "nat \<Rightarrow> kernel \<Rightarrow> int \<Rightarrow> nat \<Rightarrow> bool" where
  "room cap k qid n \<longleftrightarrow>
     (case mq_msgs k qid of
        None \<Rightarrow> False
      | Some ms \<Rightarrow> queued_bytes ms + n * MQBUFSIZE cap \<le> mq_qbytes k)"

text \<open>A system without queues, and one with a single empty queue for a key.\<close>

definition empty_kernel :: kernel where
  "empty_kernel = \<lparr>mq_key = Map.empty, mq_msgs = Map.empty, mq_next = 0, mq_limit = 32, mq_qbytes = 16384\<rparr>"

definition one_queue :: "int \<Rightarrow> kernel" where
  "one_queue key = snd (sys_mq_init empty_kernel key)"

lemma empty_kernel_ok: "kernel_ok cap empty_kernel"
  by (simp add: empty_kernel_def kernel_ok_def)

lemmas mq_defs = msgget_def msgctl_rmid_def msgsnd_def msgrcv_def

lemma find_message_ok:
  "list_all (message_ok cap) ms \<Longrightarrow>
   List.find (\<lambda>m. m_type m = 1) ms = (case ms of [] \<Rightarrow> None | m # _ \<Rightarrow> Some m)"
  by (cases ms) (auto simp: message_ok_def)

lemma queued_bytes_append [simp]: "queued_bytes (ms @ [m]) = queued_bytes ms + m_size m"
  by (simp add: queued_bytes_def)

lemma queued_bytes_Cons [simp]: "queued_bytes (m # ms) = m_size m + queued_bytes ms"
  by (simp add: queued_bytes_def)

lemma kernel_ok_keyD:
  "kernel_ok cap k \<Longrightarrow> mq_key k key = Some qid \<Longrightarrow>
   0 \<le> qid \<and> qid < int (mq_next k) \<and> (\<exists>ms. mq_msgs k qid = Some ms)"
  unfolding kernel_ok_def by blast

lemma kernel_ok_injD:
  "kernel_ok cap k \<Longrightarrow> mq_key k key1 = Some qid \<Longrightarrow> mq_key k key2 = Some qid \<Longrightarrow> key1 = key2"
  unfolding kernel_ok_def by blast

lemma kernel_ok_msgsD:
  "kernel_ok cap k \<Longrightarrow> mq_msgs k qid = Some ms \<Longrightarrow>
   qid < int (mq_next k) \<and> list_all (message_ok cap) ms"
  unfolding kernel_ok_def by blast

lemmas kernel_okD = kernel_ok_keyD kernel_ok_injD kernel_ok_msgsD

text \<open>Replacing the messages of an existing queue by well-formed ones.\<close>

lemma kernel_ok_upd [keeps_wf]:
  assumes "kernel_ok cap k" and "mq_msgs k qid = Some ms" and "list_all (message_ok cap) ms'"
  shows "kernel_ok cap (k\<lparr>mq_msgs := (mq_msgs k)(qid \<mapsto> ms')\<rparr>)"
  using assms kernel_ok_msgsD [OF assms(1,2)]
  unfolding kernel_ok_def by auto

lemma msgget_ok [keeps_wf]: "kernel_ok cap k \<Longrightarrow> kernel_ok cap (snd (msgget k key creat))"
proof (cases "mq_key k key = None \<and> creat \<and> mq_next k < mq_limit k")
  case True
  assume ok: "kernel_ok cap k"
  have old: "qid < int (mq_next k)" if "mq_key k key' = Some qid" for key' qid
    using kernel_ok_keyD [OF ok that] by blast
  have old': "qid < int (mq_next k)" if "mq_msgs k qid = Some ms" for qid ms
    using kernel_ok_msgsD [OF ok that] by blast
  from True show ?thesis
    using ok unfolding kernel_ok_def msgget_def
    by (auto simp: Let_def dest: old old' intro: less_trans [OF old] less_trans [OF old'])
qed (auto simp: msgget_def split: option.splits)

lemma msgctl_rmid_ok [keeps_wf]: "kernel_ok cap k \<Longrightarrow> kernel_ok cap (msgctl_rmid k qid)"
  unfolding kernel_ok_def msgctl_rmid_def by auto

lemma sys_mq_init_ok [keeps_wf]: "kernel_ok cap k \<Longrightarrow> kernel_ok cap (snd (sys_mq_init k key))"
  using msgget_ok [of cap k key False] msgget_ok [of cap "snd (msgget k key False)" key True]
  by (auto simp: sys_mq_init_def split: prod.splits)

lemma sys_mq_kill_ok [keeps_wf]: "kernel_ok cap k \<Longrightarrow> kernel_ok cap (snd (sys_mq_kill k qid))"
  by (simp add: sys_mq_kill_def msgctl_rmid_ok)

lemma sys_mq_send_ok [keeps_wf]:
  "kernel_ok cap k \<Longrightarrow> on_return (\<lambda>(r, k'). kernel_ok cap k') (sys_mq_send cap k qid buf n)"
  by (auto simp: sys_mq_send_def copy_from_def msgsnd_def message_ok_def list_all_append
      split: option.splits intro!: kernel_ok_upd dest: kernel_ok_msgsD)

lemma list_all_remove1: "list_all P xs \<Longrightarrow> list_all P (remove1 x xs)"
  by (induction xs) auto

lemma sys_mq_recv_ok [keeps_wf]:
  "kernel_ok cap k \<Longrightarrow> on_return (\<lambda>(r, buf', n', k'). kernel_ok cap k') (sys_mq_recv cap k qid buf n)"
  by (auto simp: sys_mq_recv_def copy_from_def copy_into_def msgrcv_def
      split: option.splits intro!: kernel_ok_upd list_all_remove1 dest: kernel_ok_msgsD)

lemma sys_mq_recv_length:
  "sys_mq_recv cap k qid buf n = Returns (r, buf', n', k') \<Longrightarrow> length buf' = length buf"
  by (auto simp: sys_mq_recv_def outcome_bind_eq_Returns split: option.splits dest: copy_into_length)

text \<open>
  A receive into a buffer that holds the largest message never leaves it: the length member
  of a queued message is bounded.
\<close>

lemma sys_mq_recv_no_fault:
  "kernel_ok cap k \<Longrightarrow> cap \<le> length buf \<Longrightarrow> sys_mq_recv cap k qid buf n \<noteq> Fault e"
  using find_message_ok [of cap] kernel_ok_msgsD [of cap k qid]
  by (fastforce simp: sys_mq_recv_def msgrcv_def message_ok_def copy_from_def copy_into_def
      split: option.splits list.splits)

text \<open>Keys keep their queues under sends and receives.\<close>

lemma sys_mq_send_key:
  "sys_mq_send cap k qid buf n = Returns (r, k') \<Longrightarrow> mq_key k' = mq_key k"
  by (auto simp: sys_mq_send_def outcome_bind_eq_Returns msgsnd_def split: if_splits option.splits)

lemma sys_mq_recv_key:
  "sys_mq_recv cap k qid buf n = Returns (r, buf', n', k') \<Longrightarrow> mq_key k' = mq_key k"
  by (auto simp: sys_mq_recv_def outcome_bind_eq_Returns msgrcv_def split: if_splits option.splits)

lemma sys_mq_init_known:
  "kernel_ok cap k \<Longrightarrow> mq_key k key = Some qid \<Longrightarrow> sys_mq_init k key = (qid, k)"
  by (auto simp: sys_mq_init_def msgget_def dest: kernel_ok_keyD)

lemma sys_mq_init_result:
  assumes "kernel_ok cap k" and "sys_mq_init k key = (qid, k')"
  shows "mq_key k' key = Some qid \<and> 0 \<le> qid \<or> qid = -1 \<and> k' = k"
  using assms kernel_ok_keyD [OF assms(1), of key]
  by (auto simp: sys_mq_init_def msgget_def Let_def split: option.splits if_splits)

lemma sys_mq_init_keeps_key:
  "mq_key k key' = Some qid' \<Longrightarrow> kernel_ok cap k \<Longrightarrow> mq_key (snd (sys_mq_init k key)) key' = Some qid'"
  using kernel_ok_keyD [of cap k key]
  by (auto simp: sys_mq_init_def msgget_def Let_def split: option.splits if_splits)

lemma one_queue_eq:
  "one_queue key = \<lparr>mq_key = [key \<mapsto> 0], mq_msgs = [0 \<mapsto> []], mq_next = 1, mq_limit = 32, mq_qbytes = 16384\<rparr>"
  by (simp add: one_queue_def sys_mq_init_def msgget_def empty_kernel_def)

lemma one_queue_ok: "kernel_ok cap (one_queue key)"
  by (simp add: one_queue_def sys_mq_init_ok empty_kernel_ok)

text \<open>The id a thread holds for a key: the queue the kernel has for it, or -1.\<close>

definition known :: "kernel \<Rightarrow> int \<Rightarrow> int \<Rightarrow> bool" where
  "known k key qid \<longleftrightarrow> mq_key k key = Some qid \<or> qid = -1"

lemma sys_mq_init_known_id:
  "kernel_ok cap k \<Longrightarrow> sys_mq_init k key = (qid, k') \<Longrightarrow> known k' key qid"
  using sys_mq_init_result [of cap k key qid k'] by (auto simp: known_def)

lemma known_sys_mq_init:
  "kernel_ok cap k \<Longrightarrow> known k key' qid' \<Longrightarrow> known (snd (sys_mq_init k key)) key' qid'"
  by (auto simp: known_def sys_mq_init_keeps_key)

lemma known_same: "known k key q1 \<Longrightarrow> known k key q2 \<Longrightarrow> q1 = q2 \<or> q1 = -1 \<or> q2 = -1"
  by (auto simp: known_def)


subsection \<open>Functional behaviour of the wrappers\<close>

lemma contents_upd:
  "contents (k\<lparr>mq_msgs := (mq_msgs k)(qid \<mapsto> ms)\<rparr>) = (contents k)(qid \<mapsto> map m_text ms)"
  by (auto simp: contents_def)

lemma send_appends:
  assumes "contents k qid = Some ms" and "unat n \<le> cap" and "unat n \<le> length buf"
    and "room cap k qid (Suc j)"
  shows "\<exists>k'. sys_mq_send cap k qid buf n = Returns (0, k') \<and>
           contents k' = (contents k)(qid \<mapsto> ms @ [take (unat n) buf]) \<and> room cap k' qid j"
  using assms
  by (auto simp: sys_mq_send_def msgsnd_def contents_def room_def split: option.splits)

lemma recv_takes:
  assumes ok: "kernel_ok cap k" and cont: "contents k qid = Some (m # ms)" and len: "length m \<le> length buf"
  shows "\<exists>k'. sys_mq_recv cap k qid buf n =
             Returns (0, m @ drop (length m) buf, word_of_nat (length m), k') \<and>
           contents k' = (contents k)(qid \<mapsto> ms)"
proof -
  from cont obtain x xs where x: "mq_msgs k qid = Some (x # xs)" "m_text x = m" "map m_text xs = ms"
    by (auto simp: contents_def)
  with kernel_ok_msgsD [OF ok x(1)] have "message_ok cap x" and "list_all (message_ok cap) (x # xs)"
    by auto
  then have "m_type x = 1" "m_size x = MQBUFSIZE cap" and n: "unat (m_length x) = length m"
    using x by (auto simp: message_ok_def)
  moreover from n have "m_length x = word_of_nat (length m)"
    by (simp flip: n)
  ultimately show ?thesis
    using x len by (simp add: sys_mq_recv_def msgrcv_def contents_upd n)
qed

text \<open>A receive from one queue leaves the room in the others.\<close>

lemma sys_mq_recv_others:
  assumes "sys_mq_recv cap k qid buf n = Returns (r, buf', n', k')" and "q \<noteq> qid"
  shows "mq_msgs k' q = mq_msgs k q \<and> mq_qbytes k' = mq_qbytes k"
proof -
  from assms(1) obtain got where "msgrcv k qid (MQBUFSIZE cap) 1 = Returns (got, k')"
    by (auto simp: sys_mq_recv_def outcome_bind_eq_Returns split: option.splits)
  with assms(2) show ?thesis
    by (auto simp: msgrcv_def split: option.splits if_splits)
qed

lemma recv_room:
  "sys_mq_recv cap k qid buf n = Returns (r, buf', n', k') \<Longrightarrow> q \<noteq> qid \<Longrightarrow>
   room cap k' q j = room cap k q j"
  by (drule (1) sys_mq_recv_others) (simp add: room_def split: option.split)

lemma recv_overflow:
  assumes ok: "kernel_ok cap k" and cont: "contents k qid = Some (m # ms)" and len: "length buf < length m"
  shows "sys_mq_recv cap k qid buf n = Fault (Overflow (length buf) (length m))"
proof -
  from cont obtain x xs where x: "mq_msgs k qid = Some (x # xs)" "m_text x = m"
    by (auto simp: contents_def)
  with kernel_ok_msgsD [OF ok x(1)] have "message_ok cap x" by auto
  then show ?thesis
    using x len by (simp add: sys_mq_recv_def msgrcv_def message_ok_def copy_into_def)
qed

lemma recv_blocks: "contents k qid = Some [] \<Longrightarrow> sys_mq_recv cap k qid buf n = Blocks"
  by (simp add: sys_mq_recv_def msgrcv_def contents_def)

lemma recv_dead: "contents k qid = None \<Longrightarrow> sys_mq_recv cap k qid buf n = Returns (-1, buf, n, k)"
  by (simp add: sys_mq_recv_def msgrcv_def contents_def)

lemma send_dead:
  "contents k qid = None \<Longrightarrow> unat n \<le> cap \<Longrightarrow> unat n \<le> length buf \<Longrightarrow>
   sys_mq_send cap k qid buf n = Returns (-1, k)"
  by (simp add: sys_mq_send_def msgsnd_def contents_def)

lemma send_fault_iff:
  "(\<exists>e. sys_mq_send cap k qid buf n = Fault e) \<longleftrightarrow> cap < unat n \<or> length buf < unat n"
  by (auto simp: sys_mq_send_def copy_from_def msgsnd_def split: option.splits)


subsection \<open>The queues as a first-in first-out channel\<close>

text \<open>
  The contract the threads rely on: a send appends to one queue and leaves the others alone,
  a receive takes the oldest message of its queue.  The clients' consequences are proved in
  the locale and used through its interpretation on the wrappers.
\<close>

primrec put_all :: "('k \<Rightarrow> int \<Rightarrow> 'm \<Rightarrow> 'k outcome) \<Rightarrow> 'k \<Rightarrow> int \<Rightarrow> 'm list \<Rightarrow> 'k outcome" where
  "put_all put k q [] = Returns k"
| "put_all put k q (m # ms) = outcome_bind (put k q m) (\<lambda>k'. put_all put k' q ms)"

primrec get_all :: "('k \<Rightarrow> int \<Rightarrow> ('m \<times> 'k) outcome) \<Rightarrow> 'k \<Rightarrow> int \<Rightarrow> nat \<Rightarrow> ('m list \<times> 'k) outcome" where
  "get_all get k q 0 = Returns ([], k)"
| "get_all get k q (Suc n) =
     outcome_bind (get k q) (\<lambda>(m, k'). outcome_bind (get_all get k' q n) (\<lambda>(ms, k''). Returns (m # ms, k'')))"

locale fifo_channel =
  fixes invar :: "'k \<Rightarrow> bool"
    and waiting :: "'k \<Rightarrow> int \<Rightarrow> 'm list option"
    and space :: "'k \<Rightarrow> int \<Rightarrow> nat \<Rightarrow> bool"
    and fits :: "'m \<Rightarrow> bool"
    and put :: "'k \<Rightarrow> int \<Rightarrow> 'm \<Rightarrow> 'k outcome"
    and get :: "'k \<Rightarrow> int \<Rightarrow> ('m \<times> 'k) outcome"
  assumes put_appends: "invar k \<Longrightarrow> waiting k q = Some ms \<Longrightarrow> fits m \<Longrightarrow> space k q (Suc j) \<Longrightarrow>
      \<exists>k'. put k q m = Returns k' \<and> invar k' \<and> waiting k' = (waiting k)(q \<mapsto> ms @ [m]) \<and> space k' q j"
    and get_takes: "invar k \<Longrightarrow> waiting k q = Some (m # ms) \<Longrightarrow>
      \<exists>k'. get k q = Returns (m, k') \<and> invar k' \<and> waiting k' = (waiting k)(q \<mapsto> ms)"
    and get_waits: "invar k \<Longrightarrow> waiting k q = Some [] \<Longrightarrow> get k q = Blocks"
begin

lemma put_all_appends:
  "invar k \<Longrightarrow> waiting k q = Some xs \<Longrightarrow> list_all fits ms \<Longrightarrow> space k q (length ms) \<Longrightarrow>
   \<exists>k'. put_all put k q ms = Returns k' \<and> invar k' \<and> waiting k' = (waiting k)(q \<mapsto> xs @ ms)"
proof (induction ms arbitrary: k xs)
  case Nil
  then show ?case by (auto simp: fun_upd_idem)
next
  case (Cons m ms)
  from Cons.prems obtain k1 where k1: "put k q m = Returns k1" "invar k1"
    "waiting k1 = (waiting k)(q \<mapsto> xs @ [m])" "space k1 q (length ms)"
    using put_appends [of k q xs m "length ms"] by auto
  then have "waiting k1 q = Some (xs @ [m])" by simp
  with Cons.IH [of k1 "xs @ [m]"] Cons.prems(3) k1 obtain k2 where
    "put_all put k1 q ms = Returns k2" "invar k2" "waiting k2 = (waiting k1)(q \<mapsto> (xs @ [m]) @ ms)"
    by (auto simp del: fun_upd_apply)
  with k1 show ?case by (simp add: fun_upd_upd del: fun_upd_apply)
qed

lemma get_all_takes:
  "invar k \<Longrightarrow> waiting k q = Some (ms @ xs) \<Longrightarrow>
   \<exists>k'. get_all get k q (length ms) = Returns (ms, k') \<and> invar k' \<and> waiting k' = (waiting k)(q \<mapsto> xs)"
proof (induction ms arbitrary: k)
  case Nil
  then show ?case by (auto simp: fun_upd_idem)
next
  case (Cons m ms)
  from Cons.prems obtain k1 where k1: "get k q = Returns (m, k1)" "invar k1"
    "waiting k1 = (waiting k)(q \<mapsto> ms @ xs)"
    using get_takes [of k q m "ms @ xs"] by auto
  then have "waiting k1 q = Some (ms @ xs)" by simp
  with Cons.IH [of k1] k1 obtain k2 where
    "get_all get k1 q (length ms) = Returns (ms, k2)" "invar k2" "waiting k2 = (waiting k1)(q \<mapsto> xs)"
    by (auto simp del: fun_upd_apply)
  with k1 show ?case by (simp add: fun_upd_upd del: fun_upd_apply)
qed

text \<open>Everything put into an empty queue comes out in the same order, and nothing else does.\<close>

lemma fifo_order:
  assumes "invar k" and "waiting k q = Some []" and "list_all fits ms" and "space k q (length ms)"
  shows "\<exists>k1 k2. put_all put k q ms = Returns k1 \<and> get_all get k1 q (length ms) = Returns (ms, k2) \<and>
           waiting k2 = waiting k \<and> get k2 q = Blocks"
proof -
  obtain k1 where k1: "put_all put k q ms = Returns k1" "invar k1" "waiting k1 = (waiting k)(q \<mapsto> ms)"
    using put_all_appends [OF assms] by auto
  obtain k2 where k2: "get_all get k1 q (length ms) = Returns (ms, k2)" "invar k2"
    "waiting k2 = (waiting k1)(q \<mapsto> [])"
    using get_all_takes [of k1 q ms "[]"] k1 by auto
  have "waiting k2 = waiting k"
    using k1(3) k2(3) assms(2) by (auto simp: fun_upd_idem)
  moreover have "get k2 q = Blocks"
    using k2 by (intro get_waits) simp_all
  ultimately show ?thesis using k1(1) k2(1) by blast
qed

end


text \<open>
  The wrappers, as the threads call them: a send of a whole byte string and a receive into a
  buffer of 256 bytes.  They are such a channel for every size of \<open>mtext\<close> up to 256: for the
  scanner's, and for the copy in the MQTT clients.
\<close>

definition wrapped_put :: "nat \<Rightarrow> kernel \<Rightarrow> int \<Rightarrow> u8 list \<Rightarrow> kernel outcome" where
  "wrapped_put cap k qid bytes =
     outcome_bind (sys_mq_send cap k qid bytes (word_of_nat (length bytes))) (\<lambda>(r, k'). Returns k')"

definition wrapped_get :: "nat \<Rightarrow> kernel \<Rightarrow> int \<Rightarrow> (u8 list \<times> kernel) outcome" where
  "wrapped_get cap k qid =
     outcome_bind (sys_mq_recv cap k qid (replicate 256 0) 0)
       (\<lambda>(r, buf, n, k'). Returns (take (unat n) buf, k'))"

definition wrapped_fits :: "nat \<Rightarrow> u8 list \<Rightarrow> bool" where
  "wrapped_fits cap bytes \<longleftrightarrow> length bytes \<le> cap"

lemma contents_fits:
  "kernel_ok cap k \<Longrightarrow> contents k q = Some ms \<Longrightarrow> list_all (\<lambda>m. length m \<le> cap) ms"
  using kernel_ok_msgsD by (fastforce simp: contents_def list_all_iff message_ok_def)

lemma wrappers_fifo:
  assumes cap: "cap \<le> 256"
  shows "fifo_channel (kernel_ok cap) contents (room cap) (wrapped_fits cap) (wrapped_put cap) (wrapped_get cap)"
proof unfold_locales
  fix k q ms m j
  assume ok: "kernel_ok cap k" and c: "contents k q = Some ms" and f: "wrapped_fits cap m"
    and r: "room cap k q (Suc j)"
  have n: "unat (word_of_nat (length m) :: u16) = length m"
    using f cap by (simp add: wrapped_fits_def unat_of_nat)
  from send_appends [OF c _ _ r, of "word_of_nat (length m)" m] f
  obtain k' where k': "sys_mq_send cap k q m (word_of_nat (length m)) = Returns (0, k')"
    "contents k' = (contents k)(q \<mapsto> ms @ [m])" "room cap k' q j"
    by (auto simp: n wrapped_fits_def)
  moreover have "kernel_ok cap k'"
    using sys_mq_send_ok [OF ok, of q m "word_of_nat (length m)"] k'(1) by simp
  ultimately show "\<exists>k'. wrapped_put cap k q m = Returns k' \<and> kernel_ok cap k' \<and>
      contents k' = (contents k)(q \<mapsto> ms @ [m]) \<and> room cap k' q j"
    by (auto simp: wrapped_put_def)
next
  fix k q m ms
  assume ok: "kernel_ok cap k" and c: "contents k q = Some (m # ms)"
  have len: "length m \<le> 256"
    using contents_fits [OF ok c] cap by simp
  from recv_takes [OF ok c, of "replicate 256 0" 0] len
  obtain k' where k': "sys_mq_recv cap k q (replicate 256 0) 0 =
      Returns (0, m @ drop (length m) (replicate 256 0), word_of_nat (length m), k')"
    "contents k' = (contents k)(q \<mapsto> ms)"
    by (auto)
  moreover have "kernel_ok cap k'"
    using sys_mq_recv_ok [OF ok, of q "replicate 256 0" 0] k'(1) by simp
  ultimately show "\<exists>k'. wrapped_get cap k q = Returns (m, k') \<and> kernel_ok cap k' \<and>
      contents k' = (contents k)(q \<mapsto> ms)"
    using len by (auto simp: wrapped_get_def unat_of_nat)
next
  fix k q
  assume "contents k q = Some []"
  then show "wrapped_get cap k q = Blocks"
    by (simp add: wrapped_get_def recv_blocks)
qed

interpretation scanner_queue: fifo_channel "kernel_ok MTEXT_SIZE" contents "room MTEXT_SIZE"
  "wrapped_fits MTEXT_SIZE" "wrapped_put MTEXT_SIZE" "wrapped_get MTEXT_SIZE"
  by (rule wrappers_fifo) (simp add: MTEXT_SIZE_def)

interpretation client_queue: fifo_channel "kernel_ok CLIENT_MTEXT_SIZE" contents "room CLIENT_MTEXT_SIZE"
  "wrapped_fits CLIENT_MTEXT_SIZE" "wrapped_put CLIENT_MTEXT_SIZE" "wrapped_get CLIENT_MTEXT_SIZE"
  by (rule wrappers_fifo) (simp add: CLIENT_MTEXT_SIZE_def)

subsection \<open>Properties of the queues\<close>

text \<open>C13: The queues deliver in order, in the scanner and in the MQTT clients: messages of at most
  100 or 35 bytes sent to an empty queue that has room for them are received in the order they
  were sent, unchanged, every other queue is left alone, and after the last one a receive blocks.\<close>

theorem queue_fifo:
  assumes "cap = MTEXT_SIZE \<or> cap = CLIENT_MTEXT_SIZE"
    and "kernel_ok cap k" and "contents k q = Some []" and "list_all (wrapped_fits cap) ms"
    and "room cap k q (length ms)"
  shows "\<exists>k1 k2. put_all (wrapped_put cap) k q ms = Returns k1 \<and>
     get_all (wrapped_get cap) k1 q (length ms) = Returns (ms, k2) \<and>
     contents k2 = contents k \<and> wrapped_get cap k2 q = Blocks"
  using assms(1)
proof
  assume "cap = MTEXT_SIZE"
  then show ?thesis using assms(2-5) scanner_queue.fifo_order by simp
next
  assume "cap = CLIENT_MTEXT_SIZE"
  then show ?thesis using assms(2-5) client_queue.fifo_order by simp
qed

theorem queue_fifo_witness:
  "\<exists>k1 k2. put_all (wrapped_put CLIENT_MTEXT_SIZE) (one_queue 1995) 0 [[1, 2, 3], [], [4]] = Returns k1 \<and>
     get_all (wrapped_get CLIENT_MTEXT_SIZE) k1 0 (length [[1, 2, 3], [], [4 :: u8]]) =
       Returns ([[1, 2, 3], [], [4]], k2) \<and>
     contents k2 = contents (one_queue 1995) \<and> wrapped_get CLIENT_MTEXT_SIZE k2 0 = Blocks"
  by (rule queue_fifo [OF disjI2 [OF refl] one_queue_ok])
    (simp_all add: one_queue_eq contents_def wrapped_fits_def CLIENT_MTEXT_SIZE_def room_def
      queued_bytes_def MQBUFSIZE_def)

text \<open>Threads that initialise a queue with the same key get the same queue, in whichever order
  and whatever happens in between on other keys: the second initialisation finds the queue the
  first one made, as long as the first one succeeded.\<close>

lemma same_key_same_queue:
  assumes "kernel_ok cap k" and "sys_mq_init k key = (qid, k1)" and "0 \<le> qid"
  shows "sys_mq_init k1 key = (qid, k1) \<and> sys_mq_init (snd (sys_mq_init k1 other)) key = (qid, snd (sys_mq_init k1 other))"
proof -
  have ok1: "kernel_ok cap k1" using sys_mq_init_ok [OF assms(1), of key] assms(2) by simp
  have key: "mq_key k1 key = Some qid"
    using sys_mq_init_result [OF assms(1,2)] assms(3) by auto
  have "mq_key (snd (sys_mq_init k1 other)) key = Some qid"
    by (rule sys_mq_init_keeps_key [OF key ok1])
  with sys_mq_init_known [OF ok1 key] sys_mq_init_known [OF sys_mq_init_ok [OF ok1, of other]] show ?thesis
    by simp
qed

lemma same_key_same_queue_witness:
  "sys_mq_init (one_queue 1995) 1995 = (0, one_queue 1995) \<and>
   sys_mq_init (snd (sys_mq_init (one_queue 1995) 1998)) 1995 = (0, snd (sys_mq_init (one_queue 1995) 1998))"
  by (rule same_key_same_queue [OF empty_kernel_ok [of 100]])
    (simp_all add: one_queue_def sys_mq_init_def msgget_def empty_kernel_def)

text \<open>\<open>sys_mq_reset\<close> never removes a queue: it calls the removal only for an identifier below
  0, which names no queue, so the kernel state is unchanged for every key.\<close>

lemma sys_mq_reset_keeps_queues:
  assumes "kernel_ok cap k" and "mq_msgs k (-1) = None"
  shows "sys_mq_reset k key = (No_Value, k)"
  using assms kernel_ok_keyD [OF assms(1), of key]
  by (auto simp: sys_mq_reset_def msgget_def msgctl_rmid_def split: option.splits)

lemma sys_mq_reset_keeps_queues_witness:
  "sys_mq_reset (one_queue 1995) 1995 = (No_Value, one_queue 1995)"
  by (rule sys_mq_reset_keeps_queues [OF one_queue_ok [of 100]]) (simp add: one_queue_eq)

text \<open>Sending is safe exactly for lengths that fit both buffers: \<open>sys_mq_send\<close> stays inside the
  source buffer and the \<open>cap\<close>-byte text of the message if and only if the length is at most
  both sizes; nothing in the function checks it.\<close>

lemma sys_mq_send_safe_iff:
  "(\<exists>e. sys_mq_send cap k qid buf n = Fault e) \<longleftrightarrow> \<not> (unat n \<le> cap \<and> unat n \<le> length buf)"
  using send_fault_iff [of cap k qid buf n] by auto

end
