(* ===== verification/Globals.thy ===== *)
theory Globals
  imports HCI Msg_Queue
begin

text \<open>
  The process-wide state of the scanner: the globals of \<open>CentralModeThread.c\<close> and
  \<open>HCI_Commands.h\<close>, the message queues and the UART, and the output routine of
  \<open>Drivers/UARTDriver.c\<close>.

  Two parts of the state are the environment's choices, fixed in advance and arbitrary:
  \<open>env_write i n\<close> is what the kernel answers to the \<open>i\<close>-th \<open>write\<close> of \<open>n\<close> bytes, and
  \<open>env_junk i\<close> is what the \<open>i\<close>-th use of an indeterminate C value sees.  A statement that
  holds for every state holds for every such choice.
\<close>

subsection \<open>State\<close>

record conn_dev =
  cd_mac :: "u8 list"
  cd_Conn_Handle :: u16
  cd_Handle_id :: u16
  cd_status :: u8
  cd_Central_ID :: "u8 list"
  cd_Device_State :: "string option"

record globals =
  kern :: kernel
  tx_log :: "(u8 list \<times> int) list"       \<comment> \<open>UART writes made so far, with the kernel's answers\<close>
  env_write :: "nat \<Rightarrow> nat \<Rightarrow> int"
  env_junk :: "nat \<Rightarrow> int"
  junk_used :: nat
  Conn_Device_List :: "conn_dev list"
  Slave_Count :: u8                      \<comment> \<open>the member of \<open>BLE_Mode_Change\<close> the code uses\<close>
  buffer :: "u8 list"
  buf_size :: u16                        \<comment> \<open>the global \<open>size\<close>\<close>
  Scanned_MAC_Buff :: "u8 list"
  Conn_Handle :: u16
  Handle_ID_Main :: u16
  Master_ID_1 :: "u8 list"
  tCommandRespQId :: int
  WRITE_RSP_ID :: int

definition MAX_NUM_PERIPHERALS :: nat where [hci_codes]: "MAX_NUM_PERIPHERALS = 5"

text \<open>The sizes of the C arrays, kept by every operation.\<close>

definition conn_dev_ok :: "conn_dev \<Rightarrow> bool" where
  "conn_dev_ok d \<longleftrightarrow> length (cd_mac d) = 7 \<and> length (cd_Central_ID d) = 4"

definition globals_ok :: "globals \<Rightarrow> bool" where
  "globals_ok g \<longleftrightarrow>
     kernel_ok MTEXT_SIZE (kern g) \<and>
     length (Conn_Device_List g) = 6 \<and> list_all conn_dev_ok (Conn_Device_List g) \<and>
     length (buffer g) = 256 \<and> length (Scanned_MAC_Buff g) = 7 \<and> length (Master_ID_1 g) = 7"

text \<open>
  The globals as the loader leaves them: static storage is zeroed; the kernel's queues and the
  environment's choices are given.
\<close>

definition zero_dev :: conn_dev where
  "zero_dev = \<lparr>cd_mac = replicate 7 0, cd_Conn_Handle = 0, cd_Handle_id = 0, cd_status = 0,
               cd_Central_ID = replicate 4 0, cd_Device_State = None\<rparr>"

definition initial_globals :: "kernel \<Rightarrow> (nat \<Rightarrow> nat \<Rightarrow> int) \<Rightarrow> (nat \<Rightarrow> int) \<Rightarrow> globals" where
  "initial_globals k w j =
     \<lparr>kern = k, tx_log = [], env_write = w, env_junk = j, junk_used = 0,
      Conn_Device_List = replicate 6 zero_dev, Slave_Count = 0, buffer = replicate 256 0, buf_size = 0,
      Scanned_MAC_Buff = replicate 7 0, Conn_Handle = 0, Handle_ID_Main = 0,
      Master_ID_1 = replicate 7 0, tCommandRespQId = 0, WRITE_RSP_ID = 0\<rparr>"

lemma initial_globals_ok: "kernel_ok MTEXT_SIZE k \<Longrightarrow> globals_ok (initial_globals k w j)"
  by (simp add: initial_globals_def globals_ok_def zero_dev_def conn_dev_ok_def list_all_iff)

lemma initial_globals_simps [simp]:
  "kern (initial_globals k w j) = k" "tx_log (initial_globals k w j) = []"
  "env_write (initial_globals k w j) = w" "env_junk (initial_globals k w j) = j"
  "junk_used (initial_globals k w j) = 0" "Slave_Count (initial_globals k w j) = 0"
  "Conn_Device_List (initial_globals k w j) = replicate 6 zero_dev"
  "buffer (initial_globals k w j) = replicate 256 0"
  "Scanned_MAC_Buff (initial_globals k w j) = replicate 7 0"
  "tCommandRespQId (initial_globals k w j) = 0" "Conn_Handle (initial_globals k w j) = 0"
  by (simp_all add: initial_globals_def)

text \<open>The initial state with given messages waiting in the response queue.\<close>

definition central_demo :: "u8 list list \<Rightarrow> globals" where
  "central_demo ms =
     initial_globals (\<lparr>mq_key = [COMMANDRESP_THREAD_QUEUE_KEY \<mapsto> 0],
         mq_msgs = [0 \<mapsto> map (\<lambda>m. \<lparr>m_type = 1, m_size = MQBUFSIZE MTEXT_SIZE,
                                  m_length = word_of_nat (length m), m_text = m\<rparr>) ms],
         mq_next = 1, mq_limit = 32, mq_qbytes = 16384\<rparr>) (\<lambda>i n. int n) (\<lambda>i. 0)"

lemma central_demo_ok: "list_all (\<lambda>m. length m \<le> MTEXT_SIZE) ms \<Longrightarrow> globals_ok (central_demo ms)"
  unfolding central_demo_def
  by (rule initial_globals_ok)
    (auto simp: kernel_ok_def message_ok_def list_all_iff MTEXT_SIZE_def unat_of_nat split: if_splits)

lemma central_demo_contents: "contents (kern (central_demo ms)) (tCommandRespQId (central_demo ms)) = Some ms"
  by (simp add: central_demo_def contents_def comp_def)

text \<open>The answers a kernel can give: at most as many bytes as were asked for.\<close>

definition writes_bounded :: "globals \<Rightarrow> bool" where
  "writes_bounded g \<longleftrightarrow> (\<forall>i n. env_write g i n \<le> int n)"

text \<open>Reading an indeterminate \<open>int\<close>, and using the value of a call that may not have one.\<close>

definition use_junk :: "globals \<Rightarrow> int \<times> globals" where
  "use_junk g = (env_junk g (junk_used g), g\<lparr>junk_used := Suc (junk_used g)\<rparr>)"

primrec use_value :: "cval \<Rightarrow> globals \<Rightarrow> int \<times> globals" where
  "use_value (Value v) g = (v, g)"
| "use_value No_Value g = use_junk g"


subsection \<open>Writing to the UART\<close>

definition BLECOMWrite :: "u8 list \<Rightarrow> nat \<Rightarrow> globals \<Rightarrow> (int \<times> globals) outcome" where
  "BLECOMWrite wBytes iLen g =
     outcome_bind (copy_from wBytes iLen) (\<lambda>bytes.
       let iWritten = env_write g (length (tx_log g)) iLen in
       Returns (iWritten, g\<lparr>tx_log := tx_log g @ [(bytes, iWritten)]\<rparr>))"

text \<open>
  The pattern of every command routine: a zeroed array \<open>pac\<close> of \<open>cap\<close> bytes is filled with
  \<open>pac[idx++] = b\<close> for each byte, and written with \<open>BLECOMWrite(pac, idx)\<close>; the status is 0
  when the whole packet was accepted and -1 otherwise.
\<close>

definition fill_pac :: "nat \<Rightarrow> u8 list \<Rightarrow> u8 list outcome" where
  "fill_pac cap bs = copy_into (replicate cap 0) bs"

definition send_pac :: "nat \<Rightarrow> u8 list \<Rightarrow> globals \<Rightarrow> (int \<times> globals) outcome" where
  "send_pac cap bs g =
     outcome_bind (fill_pac cap bs) (\<lambda>pac.
       outcome_bind (BLECOMWrite pac (length bs) g) (\<lambda>(w, g').
         Returns (if w = int (length bs) then 0 else -1, g')))"

abbreviation logged :: "u8 list \<Rightarrow> globals \<Rightarrow> globals" where
  "logged bs g \<equiv>
     g\<lparr>tx_log := tx_log g @ [(bs, env_write g (length (tx_log g)) (length bs))]\<rparr>"

lemma send_pac_eq:
  "send_pac cap bs g =
     (if length bs \<le> cap
      then Returns (if env_write g (length (tx_log g)) (length bs) = int (length bs) then 0 else -1,
                    logged bs g)
      else Fault (Overflow cap (length bs)))"
  by (simp add: send_pac_def fill_pac_def copy_into_def BLECOMWrite_def Let_def)

lemma globals_ok_tx_log [simp]: "globals_ok (g\<lparr>tx_log := l\<rparr>) = globals_ok g"
  by (simp add: globals_ok_def)

lemma globals_ok_junk [simp]: "globals_ok (g\<lparr>junk_used := n\<rparr>) = globals_ok g"
  by (simp add: globals_ok_def)

lemma globals_ok_use_value [simp]: "globals_ok (snd (use_value v g)) = globals_ok g"
  by (cases v) (simp_all add: use_junk_def)

lemma send_pac_ok [keeps_wf]: "globals_ok g \<Longrightarrow> on_return (\<lambda>(r, g'). globals_ok g') (send_pac cap bs g)"
  by (simp add: send_pac_eq)


text \<open>Everything a command routine may change: the log of UART writes and the junk it consumed.\<close>

definition uart_only :: "globals \<Rightarrow> globals \<Rightarrow> bool" where
  "uart_only g g' \<longleftrightarrow>
     g' = g\<lparr>tx_log := tx_log g', junk_used := junk_used g'\<rparr> \<and>
     (\<exists>more. tx_log g' = tx_log g @ more)"

named_theorems uart_routine \<open>routines that only write to the UART\<close>

lemma uart_only_refl [simp]: "uart_only g g"
  by (simp add: uart_only_def)

lemma uart_only_trans: "uart_only g g1 \<Longrightarrow> uart_only g1 g2 \<Longrightarrow> uart_only g g2"
  unfolding uart_only_def by (cases g; cases g1; cases g2) auto

lemma uart_only_ok: "uart_only g g' \<Longrightarrow> globals_ok g' = globals_ok g"
  unfolding uart_only_def by (cases g; cases g') (simp add: globals_ok_def)

lemma uart_only_fields:
  assumes "uart_only g g'"
  shows "kern g' = kern g" "Conn_Device_List g' = Conn_Device_List g" "Slave_Count g' = Slave_Count g"
    "buffer g' = buffer g" "Scanned_MAC_Buff g' = Scanned_MAC_Buff g"
    "tCommandRespQId g' = tCommandRespQId g" "Conn_Handle g' = Conn_Handle g"
  using assms unfolding uart_only_def by (cases g; cases g'; simp)+

lemma uart_only_use_value [simp]: "uart_only g (snd (use_value v g))"
  by (cases v) (simp_all add: use_junk_def uart_only_def)

lemma send_pac_uart [uart_routine]: "on_return (\<lambda>(r, g'). uart_only g g') (send_pac cap bs g)"
  by (simp add: send_pac_eq uart_only_def)

lemma BLECOMWrite_uart [uart_routine]: "on_return (\<lambda>(r, g'). uart_only g g') (BLECOMWrite bs n g)"
  by (simp add: BLECOMWrite_def copy_from_def Let_def uart_only_def)

text \<open>Sequencing of routines that only write to the UART.\<close>

lemma uart_bind:
  "on_return (uart_only g) m \<Longrightarrow> (\<And>g1. uart_only g g1 \<Longrightarrow> on_return (uart_only g1) (f g1)) \<Longrightarrow>
   on_return (uart_only g) (outcome_bind m f)"
  by (cases m) (auto simp: on_return_iff outcome_bind_eq_Returns intro: uart_only_trans)

lemma uart_bind_value:
  "on_return (\<lambda>(r, g'). uart_only g g') m \<Longrightarrow>
   (\<And>r g1. uart_only g g1 \<Longrightarrow> on_return (uart_only g1) (f (r, g1))) \<Longrightarrow>
   on_return (uart_only g) (outcome_bind m f)"
  by (cases m) (auto simp: on_return_iff intro: uart_only_trans)

end
