(* ===== verification/Commands.thy ===== *)
theory Commands
  imports Globals
begin

text \<open>
  The HCI command routines of \<open>CentralModeThread.c\<close>: for each routine the bytes it puts in
  \<open>pac\<close> (\<open><name>_pac\<close>) and the routine itself, which sends them through \<open>send_pac\<close> with the
  declared size of its array.  A routine declared \<open>int\<close> that reaches its closing brace
  without a \<open>return\<close> yields \<open>No_Value\<close>.
\<close>

subsection \<open>Start-up commands\<close>

definition HCI_Reset_pac :: "u8 list" where
  "HCI_Reset_pac = [PKT_COMMAND, LSBYTEOF16BIT BT_RESET, MSBYTEOF16BIT BT_RESET, 0x00]"

definition HCI_Reset :: "globals \<Rightarrow> (cval \<times> globals) outcome" where
  "HCI_Reset g = outcome_bind (send_pac 10 HCI_Reset_pac g) (\<lambda>(status, g'). Returns (No_Value, g'))"

definition HCI_Init_pac :: "u8 list" where
  "HCI_Init_pac =
     [PKT_COMMAND, LSBYTEOF16BIT VS_GAP_DEVICE_INITIALIZATION,
      MSBYTEOF16BIT VS_GAP_DEVICE_INITIALIZATION, 0x26, 0x08, 0x14]
     @ replicate 16 0x00 @ replicate 16 0x00 @ replicate 3 0x00 @ [0x01]"

definition HCI_Init :: "globals \<Rightarrow> (cval \<times> globals) outcome" where
  "HCI_Init g = outcome_bind (send_pac 50 HCI_Init_pac g) (\<lambda>(status, g'). Returns (No_Value, g'))"

definition SET_PARAM_pac :: "u8 \<Rightarrow> u16 \<Rightarrow> u8 list" where
  "SET_PARAM_pac PARAM_ID INTERVALS =
     [PKT_COMMAND, LSBYTEOF16BIT VS_GAP_SET_PARAMETER, MSBYTEOF16BIT VS_GAP_SET_PARAMETER,
      0x03, PARAM_ID, LSBYTEOF16BIT INTERVALS, MSBYTEOF16BIT INTERVALS]"

definition SET_PARAM :: "u8 \<Rightarrow> u16 \<Rightarrow> globals \<Rightarrow> globals outcome" where
  "SET_PARAM PARAM_ID INTERVALS g =
     outcome_bind (send_pac 10 (SET_PARAM_pac PARAM_ID INTERVALS) g) (\<lambda>(status, g'). Returns g')"

primrec SET_PARAM_seq :: "(u8 \<times> u16) list \<Rightarrow> globals \<Rightarrow> globals outcome" where
  "SET_PARAM_seq [] g = Returns g"
| "SET_PARAM_seq (p # ps) g = outcome_bind (SET_PARAM (fst p) (snd p) g) (SET_PARAM_seq ps)"

definition PARAM_UPDATE_list :: "(u8 \<times> u16) list" where
  "PARAM_UPDATE_list =
     [(0x0C, 0x1F40), (0x0D, 0x1F40), (0x0E, 0x1F40), (0x0F, 0x1F40), (0x10, 0x1F40),
      (0x11, 0x1F40), (0x12, 0x1F40), (0x13, 0x1F40), (0x17, 0x1F40), (0x18, 0x1F40),
      (0x02, 0x1388), (0x03, 0x1388)]"

definition PARAM_UPDATE :: "globals \<Rightarrow> globals outcome" where
  "PARAM_UPDATE g = SET_PARAM_seq PARAM_UPDATE_list g"


subsection \<open>Controller settings\<close>

definition Set_Data_Length_pac :: "globals \<Rightarrow> u8 list" where
  "Set_Data_Length_pac g =
     [PKT_COMMAND, LSBYTEOF16BIT 0x2022, MSBYTEOF16BIT 0x2022, 0x00 + 6,
      LSBYTEOF16BIT (Handle_ID_Main g + 5), MSBYTEOF16BIT (Handle_ID_Main g + 5),
      0x36, 0x00, 0x48, 0x08]"

definition Set_Data_Length :: "globals \<Rightarrow> (int \<times> globals) outcome" where
  "Set_Data_Length g = send_pac 100 (Set_Data_Length_pac g) g"

definition HCIExt_SetMaxDataLength_pac :: "u8 list" where
  "HCIExt_SetMaxDataLength_pac =
     [PKT_COMMAND, LSBYTEOF16BIT VS_HCI_EXTENSION_SET_MAX_DATA_LENGTH,
      MSBYTEOF16BIT VS_HCI_EXTENSION_SET_MAX_DATA_LENGTH, 0x08,
      LSBYTEOF16BIT APP_TX_PDU_SIZE, MSBYTEOF16BIT APP_TX_PDU_SIZE,
      LSBYTEOF16BIT APP_TX_TIME, MSBYTEOF16BIT APP_TX_TIME,
      LSBYTEOF16BIT APP_RX_PDU_SIZE, MSBYTEOF16BIT APP_RX_PDU_SIZE,
      LSBYTEOF16BIT APP_RX_TIME, MSBYTEOF16BIT APP_RX_TIME]"

definition HCIExt_SetMaxDataLength :: "globals \<Rightarrow> (int \<times> globals) outcome" where
  "HCIExt_SetMaxDataLength g = send_pac 16 HCIExt_SetMaxDataLength_pac g"

text \<open>
  This routine writes 12 bytes of its array but compares the count with \<open>idx\<close>, which is 4.
\<close>

definition HCIExt_SetlocalSupportedFeatures_pac :: "u8 list" where
  "HCIExt_SetlocalSupportedFeatures_pac =
     [PKT_COMMAND, LSBYTEOF16BIT VS_HCI_EXTENSION_SET_LOCAL_SUPPORTED_FEATURES,
      MSBYTEOF16BIT VS_HCI_EXTENSION_SET_LOCAL_SUPPORTED_FEATURES, 0x08]"

definition HCIExt_SetlocalSupportedFeatures :: "globals \<Rightarrow> (int \<times> globals) outcome" where
  "HCIExt_SetlocalSupportedFeatures g =
     outcome_bind (fill_pac 16 HCIExt_SetlocalSupportedFeatures_pac) (\<lambda>pac.
       outcome_bind (BLECOMWrite pac 12 g) (\<lambda>(w, g').
         Returns (if w = int (length HCIExt_SetlocalSupportedFeatures_pac) then 0 else -1, g')))"

definition HCI_SetTxPower_pac :: "u8 list" where
  "HCI_SetTxPower_pac =
     [PKT_COMMAND, LSBYTEOF16BIT VS_HCI_EXTENSION_SET_TX_POWER,
      MSBYTEOF16BIT VS_HCI_EXTENSION_SET_TX_POWER, 0x01, 0x0C]"

definition HCI_SetTxPower :: "globals \<Rightarrow> (int \<times> globals) outcome" where
  "HCI_SetTxPower g = send_pac 10 HCI_SetTxPower_pac g"

definition GET_MAC_pac :: "u8 list" where
  "GET_MAC_pac =
     [PKT_COMMAND, LSBYTEOF16BIT BT_READ_BD_ADDR, MSBYTEOF16BIT BT_READ_BD_ADDR, 0x00]"

definition GET_MAC :: "globals \<Rightarrow> (int \<times> globals) outcome" where
  "GET_MAC g = send_pac 10 GET_MAC_pac g"


subsection \<open>Scanning and linking\<close>

definition Device_Scan_Req_pac :: "u8 list" where
  "Device_Scan_Req_pac =
     [PKT_COMMAND, LSBYTEOF16BIT VS_GAP_DEVICE_DISCOVERY_REQUEST,
      MSBYTEOF16BIT VS_GAP_DEVICE_DISCOVERY_REQUEST, 0x03, 0x03, 0x01, 0x00]"

definition Device_Scan_Cancel_Req_pac :: "u8 list" where
  "Device_Scan_Cancel_Req_pac =
     [PKT_COMMAND, LSBYTEOF16BIT VS_GAP_DEVICE_DISCOVERY_CANCEL,
      MSBYTEOF16BIT VS_GAP_DEVICE_DISCOVERY_CANCEL, 0x00]"

definition Device_Scan_Cancel_Req :: "globals \<Rightarrow> (int \<times> globals) outcome" where
  "Device_Scan_Cancel_Req g = send_pac 10 Device_Scan_Cancel_Req_pac g"

definition Device_Establish_Link_Req_pac :: "u8 list \<Rightarrow> u8 list" where
  "Device_Establish_Link_Req_pac mac =
     [PKT_COMMAND, LSBYTEOF16BIT VS_GAP_ESTABLISH_LINK_REQUEST,
      MSBYTEOF16BIT VS_GAP_ESTABLISH_LINK_REQUEST, 0x09, 0x00, 0x00, 0x01,
      mac ! 5, mac ! 4, mac ! 3, mac ! 2, mac ! 1, mac ! 0]"

definition Device_Establish_Link_Req :: "globals \<Rightarrow> (int \<times> globals) outcome" where
  "Device_Establish_Link_Req g =
     send_pac 10 (Device_Establish_Link_Req_pac (Scanned_MAC_Buff g)) g"

definition Enable_Notification_pac :: "globals \<Rightarrow> u8 list" where
  "Enable_Notification_pac g =
     [PKT_COMMAND, LSBYTEOF16BIT GATT_WRITECHARVALUE, MSBYTEOF16BIT GATT_WRITECHARVALUE, 0x06,
      LSBYTEOF16BIT (Conn_Handle g), MSBYTEOF16BIT (Conn_Handle g),
      LSBYTEOF16BIT 0x00, LSBYTEOF16BIT 0x01, 0x01, 0x00]"

definition Enable_Notification :: "globals \<Rightarrow> (int \<times> globals) outcome" where
  "Enable_Notification g = send_pac 10 (Enable_Notification_pac g) g"

definition Notify_Ack_pac :: "u16 \<Rightarrow> u8 list" where
  "Notify_Ack_pac handle = [0x01, 0x13, 0xFD, 0x02, LSBYTEOF16BIT handle, MSBYTEOF16BIT handle]"

definition Notify_Ack :: "globals \<Rightarrow> (int \<times> globals) outcome" where
  "Notify_Ack g = send_pac 10 (Notify_Ack_pac (Conn_Handle g)) g"

text \<open>\<open>data_ack\<close> of \<open>UartCmdRxThread.c\<close>: the same packet for a handle given as an \<open>int\<close>.\<close>

definition data_ack :: "int \<Rightarrow> globals \<Rightarrow> (cval \<times> globals) outcome" where
  "data_ack idz g =
     outcome_bind (send_pac 10 (Notify_Ack_pac (word_of_int (0x0000 + idz))) g)
       (\<lambda>(status1, g'). Returns (No_Value, g'))"


subsection \<open>Bonding\<close>

definition bond_data :: "u8 list" where
  "bond_data =
   [0x01, 0x0B, 0xFE, 0xA0, 0x00, 0x00, 0x04, 0x00, 0x00, 0x00, 0x00, 0x00, 0x00, 0x00, 0x00, 0x00,
    0x00, 0x00, 0x00, 0x00, 0x00, 0x00, 0x00, 0x00, 0x00, 0x00, 0x00, 0x00, 0x00, 0x00, 0x00, 0x00,
    0x00, 0x00, 0x00, 0x00, 0x00, 0x00, 0x00, 0x00, 0x00, 0x00, 0x00, 0x00, 0x00, 0x00, 0x00, 0x00,
    0x00, 0x00, 0x00, 0x00, 0x00, 0x00, 0x00, 0x00, 0x00, 0x00, 0x00, 0xBD, 0x1A, 0x3C, 0xCD, 0xA6,
    0xB8, 0x99, 0x58, 0x99, 0xB7, 0x40, 0xEB, 0x7B, 0x60, 0xFF, 0x4A, 0x50, 0x3F, 0x10, 0xD2, 0xE3,
    0xB3, 0xC9, 0x74, 0x38, 0x5F, 0xC5, 0xA3, 0xD4, 0xF6, 0x49, 0x3F, 0xE6, 0x9D, 0x35, 0x0E, 0x48,
    0x01, 0x03, 0xCC, 0xDB, 0xFD, 0xF4, 0xAC, 0x11, 0x91, 0xF4, 0xEF, 0xB9, 0xA5, 0xF9, 0xE9, 0xA7,
    0x83, 0x2C, 0x5E, 0x2C, 0xBE, 0x97, 0xF2, 0xD2, 0x03, 0xB0, 0x20, 0x8B, 0xD2, 0x89, 0x15, 0xD0,
    0x8E, 0x1C, 0x74, 0x24, 0x30, 0xED, 0x8F, 0xC2, 0x45, 0x63, 0x76, 0x5C, 0x15, 0x52, 0x5A, 0xBF,
    0x9A, 0x32, 0x63, 0x6D, 0xEB, 0x2A, 0x65, 0x49, 0x9C, 0x80, 0xDC, 0x01, 0x10, 0x77, 0x00, 0x03,
    0x00, 0x01, 0x10, 0x77]"

definition passkey_data :: "u8 list" where
  "passkey_data = [0x01, 0x0C, 0xFE, 0x08, 0x00, 0x00, 0x36, 0x35, 0x34, 0x33, 0x32, 0x31]"

definition notify_data :: "u8 list" where
  "notify_data = [0x01, 0x92, 0xFD, 0x06, 0x00, 0x00, 0x0C, 0x00, 0x01, 0x00]"

definition data_led_data :: "u8 list" where
  "data_led_data = [0x01, 0x92, 0xFD, 0x09, 0x00, 0x00, 0x0E, 0x00, 0x3C, 0x30, 0x41, 0x30, 0x3E]"

definition passkey :: "globals \<Rightarrow> globals outcome" where
  "passkey g = outcome_bind (send_pac 50 passkey_data g) (\<lambda>(w, g'). Returns g')"

definition notify :: "globals \<Rightarrow> globals outcome" where
  "notify g = outcome_bind (send_pac 50 notify_data g) (\<lambda>(w, g'). Returns g')"

text \<open>
  \<open>data_led\<close> declares \<open>idx\<close> without an initial value, so its packet starts wherever the
  indeterminate \<open>idx\<close> says, and \<open>BLECOMWrite\<close> is given \<open>idx + 13\<close> bytes.
\<close>

definition data_led_from :: "int \<Rightarrow> globals \<Rightarrow> globals outcome" where
  "data_led_from idx g =
     (if idx < 0 \<or> 50 < idx + int (length data_led_data) then Fault (Index_Range 50 idx)
      else
        (let pac = replicate (nat idx) 0 @ data_led_data @
                   replicate (50 - (nat idx + length data_led_data)) 0 in
         outcome_bind (BLECOMWrite pac (nat idx + length data_led_data) g) (\<lambda>(w, g'). Returns g')))"

definition data_led :: "globals \<Rightarrow> globals outcome" where
  "data_led g = (let (idx, g') = use_junk g in data_led_from idx g')"

text \<open>
  \<open>bond\<close> sends its four packets and then spins in \<open>while(1)\<close>; the model returns the state in
  which it spins.
\<close>

definition bond :: "globals \<Rightarrow> globals outcome" where
  "bond g =
     outcome_bind (send_pac 550 (take 164 bond_data) g) (\<lambda>(w, g1).
     outcome_bind (passkey g1) (\<lambda>g2.
     outcome_bind (notify g2) data_led))"



subsection \<open>What the routines change\<close>

lemma SET_PARAM_uart [uart_routine]: "on_return (uart_only g) (SET_PARAM p v g)"
  unfolding SET_PARAM_def by (rule uart_bind_value [OF send_pac_uart]) simp

lemma SET_PARAM_seq_uart [uart_routine]: "on_return (uart_only g) (SET_PARAM_seq ps g)"
  by (induction ps arbitrary: g) (auto intro: uart_bind [OF SET_PARAM_uart])

lemma PARAM_UPDATE_uart [uart_routine]: "on_return (uart_only g) (PARAM_UPDATE g)"
  by (simp add: PARAM_UPDATE_def SET_PARAM_seq_uart)

lemma HCI_Reset_uart [uart_routine]: "on_return (\<lambda>(r, g'). uart_only g g') (HCI_Reset g)"
  by (simp add: HCI_Reset_def send_pac_eq uart_only_def)

lemma HCI_Init_uart [uart_routine]: "on_return (\<lambda>(r, g'). uart_only g g') (HCI_Init g)"
  by (simp add: HCI_Init_def send_pac_eq uart_only_def)

lemma data_ack_uart [uart_routine]: "on_return (\<lambda>(r, g'). uart_only g g') (data_ack idz g)"
  by (simp add: data_ack_def send_pac_eq uart_only_def)

lemma passkey_uart [uart_routine]: "on_return (uart_only g) (passkey g)"
  unfolding passkey_def by (rule uart_bind_value [OF send_pac_uart]) simp

lemma notify_uart [uart_routine]: "on_return (uart_only g) (notify g)"
  unfolding notify_def by (rule uart_bind_value [OF send_pac_uart]) simp

lemma data_led_from_uart [uart_routine]: "on_return (uart_only g) (data_led_from idx g)"
  unfolding data_led_from_def Let_def by (auto intro: uart_bind_value [OF BLECOMWrite_uart])

lemma data_led_uart [uart_routine]: "on_return (uart_only g) (data_led g)"
  using data_led_from_uart [of "snd (use_junk g)" "fst (use_junk g)"]
    uart_only_use_value [of g No_Value]
  by (auto simp: data_led_def on_return_iff split: prod.splits intro: uart_only_trans)

lemma bond_uart [uart_routine]: "on_return (uart_only g) (bond g)"
  unfolding bond_def
  by (intro uart_bind_value [OF send_pac_uart])
    (auto intro!: uart_bind [OF passkey_uart] uart_bind [OF notify_uart] simp: data_led_uart)

subsection \<open>Properties of the command packets\<close>

text \<open>The bytes each routine of \<open>CentralModeThread.c\<close> writes, with the opcode they are meant to carry;
  without \<open>data_led\<close>, whose packet depends on an uninitialised index (theory Command_Frames has
  what the routines send).\<close>

definition command_packets :: "globals \<Rightarrow> u8 \<Rightarrow> u16 \<Rightarrow> (u16 \<times> u8 list) list" where
  "command_packets g param value =
     [(BT_RESET, HCI_Reset_pac),
      (VS_GAP_DEVICE_INITIALIZATION, HCI_Init_pac),
      (VS_GAP_SET_PARAMETER, SET_PARAM_pac param value),
      (0x2022, Set_Data_Length_pac g),
      (VS_HCI_EXTENSION_SET_MAX_DATA_LENGTH, HCIExt_SetMaxDataLength_pac),
      (VS_HCI_EXTENSION_SET_TX_POWER, HCI_SetTxPower_pac),
      (BT_READ_BD_ADDR, GET_MAC_pac),
      (VS_GAP_DEVICE_DISCOVERY_REQUEST, Device_Scan_Req_pac),
      (VS_GAP_DEVICE_DISCOVERY_CANCEL, Device_Scan_Cancel_Req_pac),
      (VS_GAP_ESTABLISH_LINK_REQUEST, Device_Establish_Link_Req_pac (Scanned_MAC_Buff g)),
      (GATT_WRITECHARVALUE, Enable_Notification_pac g),
      (0xFD13, Notify_Ack_pac (Conn_Handle g)),
      (0xFE0B, bond_data),
      (0xFE0C, passkey_data),
      (GATT_WRITECHARVALUE, notify_data),
      (VS_HCI_EXTENSION_SET_LOCAL_SUPPORTED_FEATURES, HCIExt_SetlocalSupportedFeatures_pac @ replicate 8 0)]"

definition frames_op :: "u16 \<times> u8 list \<Rightarrow> bool" where
  "frames_op c \<longleftrightarrow> (case hci_parse (snd c) of None \<Rightarrow> False | Some (op, params) \<Rightarrow> op = fst c)"

lemma make16_const: "MAKE16OFXY (MSBYTEOF16BIT w) (LSBYTEOF16BIT w) = w"
  by (rule make16_split)

lemma command_packets_framed: "list_all frames_op (command_packets g param value)"
  unfolding command_packets_def list.pred_inject
  by (intro conjI TrueI)
    (simp_all add: frames_op_def hci_parse_def make16_split
      HCI_Reset_pac_def HCI_Init_pac_def SET_PARAM_pac_def Set_Data_Length_pac_def
      HCIExt_SetMaxDataLength_pac_def HCI_SetTxPower_pac_def GET_MAC_pac_def Device_Scan_Req_pac_def
      Device_Scan_Cancel_Req_pac_def Device_Establish_Link_Req_pac_def Enable_Notification_pac_def
      Notify_Ack_pac_def bond_data_def passkey_data_def notify_data_def HCIExt_SetlocalSupportedFeatures_pac_def
      PKT_COMMAND_def make16_eq_iff byte_macro_defs hci_codes)

text \<open>Of the routines that fill a local array, only the link request overruns it: it puts 13
  bytes into 10, in every state, while the scan, scan-cancel, notification and acknowledgement
  routines fit and always return.\<close>

lemma only_link_request_overruns:
  "Device_Establish_Link_Req g = Fault (Overflow 10 13) \<and>
   (\<exists>r. Device_Scan_Cancel_Req g = Returns (r, logged Device_Scan_Cancel_Req_pac g)) \<and>
   (\<exists>r. Enable_Notification g = Returns (r, logged (Enable_Notification_pac g) g)) \<and>
   (\<exists>r. Notify_Ack g = Returns (r, logged (Notify_Ack_pac (Conn_Handle g)) g)) \<and>
   (\<exists>r. HCIExt_SetMaxDataLength g = Returns (r, logged HCIExt_SetMaxDataLength_pac g)) \<and>
   (\<exists>r. GET_MAC g = Returns (r, logged GET_MAC_pac g))"
  by (simp add: Device_Establish_Link_Req_def Device_Establish_Link_Req_pac_def send_pac_eq
      Device_Scan_Cancel_Req_def Device_Scan_Cancel_Req_pac_def Enable_Notification_def
      Enable_Notification_pac_def Notify_Ack_def Notify_Ack_pac_def HCIExt_SetMaxDataLength_def
      HCIExt_SetMaxDataLength_pac_def GET_MAC_def GET_MAC_pac_def)

text \<open>\<open>HCIExt_SetlocalSupportedFeatures\<close> reports failure exactly when the UART accepts its
  packet: it writes 12 bytes and compares the count with 4.\<close>

lemma local_features_status:
  "HCIExt_SetlocalSupportedFeatures g =
     (let bs = HCIExt_SetlocalSupportedFeatures_pac @ replicate 8 0; w = env_write g (length (tx_log g)) 12 in
      Returns (if w = 4 then 0 else -1, g\<lparr>tx_log := tx_log g @ [(bs, w)]\<rparr>))"
  by (simp add: HCIExt_SetlocalSupportedFeatures_def fill_pac_def copy_into_def BLECOMWrite_def Let_def
      HCIExt_SetlocalSupportedFeatures_pac_def)

end
