(* ===== verification/Conn_Table.thy ===== *)
theory Conn_Table
  imports Globals
begin

text \<open>
  The connection table \<open>Conn_Device_List\<close> (\<open>HCI_Commands.h\<close>) and the routines on it:
  \<open>Device_conn_count\<close> and \<open>Update_Conn_Status\<close> of \<open>CentralModeThread.c\<close>,
  \<open>Upadate_Disconnection\<close> of \<open>UartCmdRxThread.c\<close>, and the assignment that marks a slot as
  disconnected.
\<close>

subsection \<open>Counting\<close>

text \<open>The loop \<open>for (i = 0; i < n; i++) if (list[i].status == 1) count++\<close>.\<close>

primrec count_connected :: "conn_dev list \<Rightarrow> nat \<Rightarrow> nat" where
  "count_connected l 0 = 0"
| "count_connected l (Suc n) = count_connected l n + (if cd_status (l ! n) = 1 then 1 else 0)"

definition Device_conn_count :: "globals \<Rightarrow> nat" where
  "Device_conn_count g = count_connected (Conn_Device_List g) 4"

text \<open>The handle argument of \<open>Upadate_Disconnection\<close> is not used by its body.\<close>

definition Upadate_Disconnection :: "u16 \<Rightarrow> globals \<Rightarrow> globals" where
  "Upadate_Disconnection handle g =
     (let Device_Conn_Count = count_connected (Conn_Device_List g) MAX_NUM_PERIPHERALS;
          g1 = (if Device_Conn_Count = 0 then g\<lparr>Slave_Count := 0\<rparr> else g)
      in g1\<lparr>Slave_Count := word_of_nat Device_Conn_Count\<rparr>)"


subsection \<open>Updating a slot\<close>

text \<open>\<open>Conn_Device_List[h].status = 0\<close> for a 16-bit handle.\<close>

definition clear_status :: "u16 \<Rightarrow> globals \<Rightarrow> globals outcome" where
  "clear_status h g =
     outcome_bind (load (Conn_Device_List g) (unat h)) (\<lambda>d.
     outcome_bind (store (Conn_Device_List g) (unat h) (d\<lparr>cd_status := 0\<rparr>)) (\<lambda>l.
       Returns (g\<lparr>Conn_Device_List := l\<rparr>)))"

text \<open>The loop \<open>for (i = 0; i < n; i++) dst[i] = src[i]\<close> on C arrays.\<close>

primrec store_upto :: "'a list \<Rightarrow> 'a list \<Rightarrow> nat \<Rightarrow> 'a list outcome" where
  "store_upto dst src 0 = Returns dst"
| "store_upto dst src (Suc n) =
     outcome_bind (store_upto dst src n) (\<lambda>dst'.
     outcome_bind (load src n) (\<lambda>v. store dst' n v))"

definition Update_Conn_Status :: "string option \<Rightarrow> globals \<Rightarrow> (int \<times> globals) outcome" where
  "Update_Conn_Status State g =
     (let h = unat (Conn_Handle g) in
      outcome_bind (load (Conn_Device_List g) h) (\<lambda>d.
      outcome_bind (store_upto (cd_mac d) (Scanned_MAC_Buff g) 6) (\<lambda>mac.
      outcome_bind (store_upto (cd_Central_ID d) (Master_ID_1 g) 6) (\<lambda>cid.
      outcome_bind (store (Conn_Device_List g) h
          (d\<lparr>cd_mac := mac, cd_Central_ID := cid, cd_Conn_Handle := Conn_Handle g,
             cd_Handle_id := Handle_ID_Main g, cd_status := 1, cd_Device_State := State\<rparr>)) (\<lambda>l.
        Returns (0, g\<lparr>Conn_Device_List := l\<rparr>))))))"


subsection \<open>Facts\<close>

lemma count_connected_le: "count_connected l n \<le> n"
  by (induction n) auto

lemma count_connected_mono: "m \<le> n \<Longrightarrow> count_connected l m \<le> count_connected l n"
  by (induction n) (auto simp: le_Suc_eq)

lemma count_connected_filter:
  "n \<le> length l \<Longrightarrow> count_connected l n = length (filter (\<lambda>d. cd_status d = 1) (take n l))"
  by (induction n) (auto simp: take_Suc_conv_app_nth)

lemma count_connected_0_iff: "count_connected l n = 0 \<longleftrightarrow> (\<forall>i<n. cd_status (l ! i) \<noteq> 1)"
  by (induction n) (auto simp: less_Suc_eq)

lemma Slave_Count_Upadate_Disconnection [simp]:
  "Slave_Count (Upadate_Disconnection h g) = word_of_nat (count_connected (Conn_Device_List g) 5)"
  by (simp add: Upadate_Disconnection_def MAX_NUM_PERIPHERALS_def Let_def)

lemma Upadate_Disconnection_eq:
  "Upadate_Disconnection h g =
     g\<lparr>Slave_Count := word_of_nat (count_connected (Conn_Device_List g) MAX_NUM_PERIPHERALS)\<rparr>"
  by (simp add: Upadate_Disconnection_def Let_def)

lemma Upadate_Disconnection_ok [keeps_wf]: "globals_ok g \<Longrightarrow> globals_ok (Upadate_Disconnection h g)"
  by (simp add: Upadate_Disconnection_eq globals_ok_def)

lemma clear_status_eq:
  "clear_status h g =
     (if unat h < length (Conn_Device_List g)
      then Returns (g\<lparr>Conn_Device_List :=
             (Conn_Device_List g)[unat h := (Conn_Device_List g ! unat h)\<lparr>cd_status := 0\<rparr>]\<rparr>)
      else Fault (Index_Range (length (Conn_Device_List g)) (int (unat h))))"
  by (simp add: clear_status_def load_def store_def)

lemma clear_status_ok [keeps_wf]:
  "globals_ok g \<Longrightarrow> on_return globals_ok (clear_status h g)"
  by (auto simp: clear_status_eq globals_ok_def list_all_length conn_dev_ok_def
      nth_list_update)

lemma store_upto_ok:
  "n \<le> length dst \<Longrightarrow> n \<le> length src \<Longrightarrow> store_upto dst src n = Returns (take n src @ drop n dst)"
  by (induction n) (auto simp: take_Suc_conv_app_nth list_update_append drop_update_swap
      Cons_nth_drop_Suc [symmetric])

lemma store_upto_fault:
  "length dst < n \<Longrightarrow> n \<le> length src \<Longrightarrow>
   store_upto dst src n = Fault (Index_Range (length dst) (int (length dst)))"
proof (induction n)
  case (Suc n)
  show ?case
  proof (cases "length dst < n")
    case False
    with Suc.prems store_upto_ok [of n dst src] show ?thesis by (simp add: store_def)
  qed (use Suc in simp)
qed simp

subsection \<open>Properties of the connection table\<close>

text \<open>Recording a connection always leaves the slot's \<open>Central_ID\<close>: the routine copies 6 bytes
  into that 4-byte member, for every handle inside the table; for a handle outside it the first
  access already leaves the table.\<close>

lemma Update_Conn_Status_overruns:
  assumes "globals_ok g"
  shows "Update_Conn_Status st g =
     Fault (if unat (Conn_Handle g) < 6 then Index_Range 4 4 else Index_Range 6 (int (unat (Conn_Handle g))))"
proof (cases "unat (Conn_Handle g) < 6")
  case True
  let ?d = "Conn_Device_List g ! unat (Conn_Handle g)"
  from assms True have len: "length (Conn_Device_List g) = 6" "length (cd_mac ?d) = 7" "length (cd_Central_ID ?d) = 4"
    "length (Scanned_MAC_Buff g) = 7" "length (Master_ID_1 g) = 7"
    by (auto simp: globals_ok_def list_all_length conn_dev_ok_def)
  have "store_upto (cd_mac ?d) (Scanned_MAC_Buff g) 6 =
      Returns (take 6 (Scanned_MAC_Buff g) @ drop 6 (cd_mac ?d))"
    using len by (intro store_upto_ok) simp_all
  moreover have "store_upto (cd_Central_ID ?d) (Master_ID_1 g) 6 = Fault (Index_Range 4 4)"
    using store_upto_fault [of "cd_Central_ID ?d" 6 "Master_ID_1 g"] len by simp
  ultimately show ?thesis
    using True len by (simp add: Update_Conn_Status_def Let_def)
next
  case False
  with assms show ?thesis
    by (simp add: Update_Conn_Status_def load_def Let_def globals_ok_def)
qed

lemma Update_Conn_Status_overruns_witness:
  "Update_Conn_Status (Some ''SLAVE'') (initial_globals empty_kernel (\<lambda>i n. 0) (\<lambda>i. 0)) =
     Fault (if unat (Conn_Handle (initial_globals empty_kernel (\<lambda>i n. 0) (\<lambda>i. 0))) < 6 then Index_Range 4 4
            else Index_Range 6 (int (unat (Conn_Handle (initial_globals empty_kernel (\<lambda>i n. 0) (\<lambda>i. 0))))))"
  by (rule Update_Conn_Status_overruns [OF initial_globals_ok [OF empty_kernel_ok]])

text \<open>The two counters disagree by design of their bounds: \<open>Upadate_Disconnection\<close> stores the
  number of connected slots among the first five, \<open>Device_conn_count\<close> looks at the first four,
  so the stored count exceeds it by one exactly when slot 4 is connected.\<close>

lemma counters_compared:
  assumes "length (Conn_Device_List g) = 6"
  shows "unat (Slave_Count (Upadate_Disconnection h g)) =
     length (filter (\<lambda>d. cd_status d = 1) (take 5 (Conn_Device_List g))) \<and>
     unat (Slave_Count (Upadate_Disconnection h g)) =
       Device_conn_count g + (if cd_status (Conn_Device_List g ! 4) = 1 then 1 else 0)"
proof -
  let ?n = "count_connected (Conn_Device_List g) 5"
  have "unat (Slave_Count (Upadate_Disconnection h g)) = ?n"
    using count_connected_le [of "Conn_Device_List g" 5] by (simp add: unat_of_nat)
  moreover have "?n = length (filter (\<lambda>d. cd_status d = 1) (take 5 (Conn_Device_List g)))"
    using count_connected_filter [of 5 "Conn_Device_List g"] assms by simp
  moreover have "?n = Device_conn_count g + (if cd_status (Conn_Device_List g ! 4) = 1 then 1 else 0)"
    by (simp add: Device_conn_count_def eval_nat_numeral)
  ultimately show ?thesis by simp
qed

lemma counters_compared_witness:
  "unat (Slave_Count (Upadate_Disconnection 0 (initial_globals empty_kernel (\<lambda>i n. 0) (\<lambda>i. 0)))) =
     length (filter (\<lambda>d. cd_status d = 1) (take 5 (Conn_Device_List (initial_globals empty_kernel (\<lambda>i n. 0) (\<lambda>i. 0))))) \<and>
   unat (Slave_Count (Upadate_Disconnection 0 (initial_globals empty_kernel (\<lambda>i n. 0) (\<lambda>i. 0)))) =
     Device_conn_count (initial_globals empty_kernel (\<lambda>i n. 0) (\<lambda>i. 0)) +
       (if cd_status (Conn_Device_List (initial_globals empty_kernel (\<lambda>i n. 0) (\<lambda>i. 0)) ! 4) = 1 then 1 else 0)"
  by (rule counters_compared) simp

end
