(* ===== verification/Central.thy ===== *)
theory Central
  imports Commands Conn_Table
begin

text \<open>
  The central thread of \<open>CentralModeThread.c\<close>: the response routines, which wait for a
  message in the global \<open>buffer\<close> and classify it, and the state machine of
  \<open>CentralModeThread\<close>.  The return value of \<open>sys_mq_recv\<close> is ignored by every routine, as in
  the code, so after a failed receive the old contents of \<open>buffer\<close> are classified again.
\<close>

subsection \<open>Response routines\<close>

text \<open>\<open>sys_mq_recv(qid, buffer, &size)\<close>, the result unused.\<close>

definition recv_buffer :: "int \<Rightarrow> globals \<Rightarrow> globals outcome" where
  "recv_buffer qid g =
     outcome_bind (sys_mq_recv MTEXT_SIZE (kern g) qid (buffer g) (buf_size g)) (\<lambda>(r, buf, n, k).
       Returns (g\<lparr>kern := k, buffer := buf, buf_size := n\<rparr>))"

definition vendor_msg :: "u8 list \<Rightarrow> bool" where
  "vendor_msg b \<longleftrightarrow> b ! 0 = 0x04 \<and> b ! 1 = 0xFF"

abbreviation msg_code :: "u8 list \<Rightarrow> u16" where "msg_code b \<equiv> MAKE16OFXY (b ! 4) (b ! 3)"
abbreviation msg_opcode :: "u8 list \<Rightarrow> u16" where "msg_opcode b \<equiv> MAKE16OFXY (b ! 7) (b ! 6)"

text \<open>The loop \<open>for (i = 0; i < n; i++) dst[i] = src[j - i]\<close>.\<close>

primrec store_rev :: "'a list \<Rightarrow> 'a list \<Rightarrow> nat \<Rightarrow> nat \<Rightarrow> 'a list outcome" where
  "store_rev dst src j 0 = Returns dst"
| "store_rev dst src j (Suc n) =
     outcome_bind (store_rev dst src j n) (\<lambda>dst'.
     outcome_bind (load src (j - n)) (\<lambda>v. store dst' n v))"

text \<open>
  \<open>Device_Scan_Rsp\<close> computes \<open>status\<close> and reaches its closing brace without returning it.
\<close>

definition Device_Scan_Rsp_status :: "u8 list \<Rightarrow> int" where
  "Device_Scan_Rsp_status b =
     (if vendor_msg b \<and> msg_code b = VS_COMMAND_STATUS \<and>
         msg_opcode b = VS_GAP_DEVICE_DISCOVERY_REQUEST \<and> b ! 5 = 0x00
      then 0 else -1)"

definition Device_Scan_Rsp :: "globals \<Rightarrow> (cval \<times> globals) outcome" where
  "Device_Scan_Rsp g =
     outcome_bind (recv_buffer (tCommandRespQId g) g) (\<lambda>g1.
       let status = Device_Scan_Rsp_status (buffer g1) in Returns (No_Value, g1))"

text \<open>
  \<open>Device_Scan_Req\<close> up to the call of \<open>Device_Scan_Rsp\<close>: either it goes on to wait for the
  response, or it is finished with the given value.
\<close>

datatype scan_req = Wait_Rsp | Finished cval

definition Device_Scan_Req_send :: "globals \<Rightarrow> (scan_req \<times> globals) outcome" where
  "Device_Scan_Req_send g =
     (if Device_conn_count g < 4 then
        outcome_bind (send_pac 10 Device_Scan_Req_pac g) (\<lambda>(written, g1).
          Returns (if written = 0 then Wait_Rsp else Finished (Value (-1)), g1))
      else Returns (Finished No_Value, g))"

definition Device_Scan_Req_wait :: "globals \<Rightarrow> (int \<times> globals) outcome" where
  "Device_Scan_Req_wait g =
     outcome_bind (Device_Scan_Rsp g) (\<lambda>(v, g1). Returns (use_value v g1))"

definition Device_Scan_Req :: "globals \<Rightarrow> (cval \<times> globals) outcome" where
  "Device_Scan_Req g =
     outcome_bind (Device_Scan_Req_send g) (\<lambda>(r, g1).
       (case r of
          Wait_Rsp \<Rightarrow> outcome_bind (Device_Scan_Req_wait g1) (\<lambda>(status, g2). Returns (Value status, g2))
        | Finished v \<Rightarrow> Returns (v, g1)))"

definition uuid_match :: "u8 list \<Rightarrow> bool" where
  "uuid_match b \<longleftrightarrow>
     MAKE16OFXY (b ! 16) (b ! 17) = 0x0201 \<and> MAKE16OFXY (b ! 21) (b ! 22) = 0x9eca \<and>
     MAKE16OFXY (b ! 23) (b ! 24) = 0xdc24"

definition Device_Scan_Data :: "globals \<Rightarrow> (cval \<times> globals) outcome" where
  "Device_Scan_Data g =
     outcome_bind (recv_buffer (tCommandRespQId g) g) (\<lambda>g1.
       let b = buffer g1 in
       if vendor_msg b then
         if msg_code b = VS_GAP_DEVICE_INFORMATION then
           if uuid_match b then
             outcome_bind (store_rev (Scanned_MAC_Buff g1) b 13 6) (\<lambda>mac.
               Returns (Value 2, g1\<lparr>Scanned_MAC_Buff := mac\<rparr>))
           else Returns (No_Value, g1)
         else if msg_code b = VS_GAP_DEVICE_DISCOVERY then
           (let status = (1 :: int) in Returns (No_Value, g1))
         else (let status = (-1 :: int) in Returns (No_Value, g1))
       else Returns (No_Value, g1))"

definition Device_Scan_Cancel_Rsp :: "globals \<Rightarrow> (int \<times> globals) outcome" where
  "Device_Scan_Cancel_Rsp g =
     outcome_bind (recv_buffer (tCommandRespQId g) g) (\<lambda>g1.
       let b = buffer g1 in
       if vendor_msg b then
         if msg_code b = VS_GAP_DEVICE_DISCOVERY then
           (if b ! 5 = 0x30 then Returns (0, g1) else Returns (-1, g1))
         else Returns (-1, g1)
       else Returns (-1, g1))"

definition Device_Establish_Link_Rsp :: "globals \<Rightarrow> (cval \<times> globals) outcome" where
  "Device_Establish_Link_Rsp g =
     outcome_bind (recv_buffer (tCommandRespQId g) g) (\<lambda>g1.
       let b = buffer g1 in
       if vendor_msg b then
         if msg_code b = VS_GAP_LINK_ESTABLISHED then
           outcome_bind (store_rev (Scanned_MAC_Buff g1) b 12 6) (\<lambda>mac.
             Returns (Value 0, g1\<lparr>Scanned_MAC_Buff := mac,
                                 Conn_Handle := MAKE16OFXY (b ! 14) (b ! 13)\<rparr>))
         else if msg_code b = 0x0606 then
           (if b ! 8 = 0x3E then Returns (Value 2, g1) else Returns (No_Value, g1))
         else if msg_opcode b = 0xFE08 then Returns (Value 3, g1)
         else Returns (No_Value, g1)
       else Returns (Value 5, g1))"

primrec Enable_Notification_Rsp_loop :: "nat \<Rightarrow> int \<Rightarrow> globals \<Rightarrow> (int \<times> globals) outcome" where
  "Enable_Notification_Rsp_loop 0 status g = Returns (status, g)"
| "Enable_Notification_Rsp_loop (Suc n) status g =
     outcome_bind (recv_buffer (WRITE_RSP_ID g) g) (\<lambda>g1.
       let b = buffer g1 in
       if vendor_msg b then
         if msg_code b = VS_COMMAND_STATUS then
           if msg_opcode b = 0xFD92 \<and> b ! 5 = 0x00 then Returns (0, g1)
           else Enable_Notification_Rsp_loop n status g1
         else Enable_Notification_Rsp_loop n (-1) g1
       else Returns (5, g1))"

definition Enable_Notification_Rsp :: "globals \<Rightarrow> (int \<times> globals) outcome" where
  "Enable_Notification_Rsp g = Enable_Notification_Rsp_loop 4 (-1) g"


subsection \<open>The state machine\<close>

datatype CentralState_new_t =
    STATE_CENTRAL_INIT
  | STATE_CENTRAL_DEVICE_SCAN_REQ
  | STATE_CENTRAL_DEVICE_SCAN_RSP
  | STATE_CENTRAL_DEVICE_SCAN_DATA
  | STATE_CENTRAL_DEVICE_SCAN_CANCEL
  | STATE_CENTRAL_DEVICE_SCAN_CANCEL_RSP
  | STATE_CENTRAL_DEVICE_ESTABLISH_LINK_REQ
  | STATE_CENTRAL_DEVICE_ESTABLISH_LINK_RSP
  | STATE_CENTRAL_DEVICE_DISCOVER_CHAR_USING_UUID
  | STATE_CENTRAL_DEVICE_DISCOVER_CHAR_USING_UUID_RSP
  | STATE_CENTRAL_ENABLE_NOTIFICATION
  | STATE_CENTRAL_ENABLE_NOTIFICATION_RSP
  | STATE_CENTRAL_DEVICE_WRITE_MASTER_ID
  | STATE_CENTRAL_DEVICE_WRITE_MASTER_ID_RSP
  | STATE_CENTRAL_UPDATE_CONN_DEVICE

text \<open>
  Where the thread is: before its start-up sequence, at the head of the loop, waiting inside
  \<open>Device_Scan_Rsp\<close>, or in the empty \<open>while(1)\<close> at the end of \<open>bond\<close>.
\<close>

datatype central_pc = Start | Top CentralState_new_t | In_Scan_Rsp | Spinning

definition central_startup :: "globals \<Rightarrow> globals outcome" where
  "central_startup g =
     outcome_bind (HCI_Reset g) (\<lambda>(v1, g1).
     outcome_bind (HCI_Init g1) (\<lambda>(v2, g2).
     outcome_bind (PARAM_UPDATE g2) (\<lambda>g3.
       let (qid, k) = sys_mq_init (kern g3) COMMANDRESP_THREAD_QUEUE_KEY in
       Returns (g3\<lparr>kern := k, tCommandRespQId := qid\<rparr>))))"

text \<open>
  The successor state as a function of \<open>ble_status\<close>, a \<open>uint8_t\<close> compared with \<open>int\<close>
  constants, for the two states with several successors.
\<close>

definition scan_req_next :: "u8 \<Rightarrow> CentralState_new_t" where
  "scan_req_next ble_status =
     (if uint ble_status = 0 then STATE_CENTRAL_DEVICE_SCAN_DATA else STATE_CENTRAL_INIT)"

definition scan_data_next :: "u8 \<Rightarrow> CentralState_new_t" where
  "scan_data_next ble_status =
     (if uint ble_status = 0 then STATE_CENTRAL_DEVICE_SCAN_DATA
      else if uint ble_status = 1 then STATE_CENTRAL_DEVICE_SCAN_REQ
      else if uint ble_status = 2 then STATE_CENTRAL_DEVICE_SCAN_CANCEL
      else if uint ble_status = -1 then STATE_CENTRAL_DEVICE_SCAN_REQ
      else STATE_CENTRAL_DEVICE_SCAN_DATA)"

definition as_status :: "int \<Rightarrow> u8" where
  "as_status v = word_of_int v"

text \<open>One iteration of the loop; the wait inside \<open>Device_Scan_Req\<close> is a point of its own.\<close>

definition central_state_step :: "CentralState_new_t \<Rightarrow> globals \<Rightarrow> (central_pc \<times> globals) outcome" where
  "central_state_step s g =
     (case s of
        STATE_CENTRAL_INIT \<Rightarrow> Returns (Top STATE_CENTRAL_DEVICE_SCAN_REQ, g)
      | STATE_CENTRAL_DEVICE_SCAN_REQ \<Rightarrow>
          outcome_bind (Device_Scan_Req_send g) (\<lambda>(r, g1).
            (case r of
               Wait_Rsp \<Rightarrow> Returns (In_Scan_Rsp, g1)
             | Finished v \<Rightarrow>
                 (let (status, g2) = use_value v g1 in
                  Returns (Top (scan_req_next (as_status status)), g2))))
      | STATE_CENTRAL_DEVICE_SCAN_DATA \<Rightarrow>
          outcome_bind (Device_Scan_Data g) (\<lambda>(v, g1).
            let (status, g2) = use_value v g1 in
            Returns (Top (scan_data_next (as_status status)), g2))
      | STATE_CENTRAL_DEVICE_SCAN_CANCEL \<Rightarrow>
          outcome_bind (Device_Scan_Cancel_Req g) (\<lambda>(status, g1).
            Returns (if as_status status = 0 then Top STATE_CENTRAL_DEVICE_SCAN_CANCEL_RSP else Top s, g1))
      | STATE_CENTRAL_DEVICE_SCAN_CANCEL_RSP \<Rightarrow>
          outcome_bind (Device_Scan_Cancel_Rsp g) (\<lambda>(status, g1).
            Returns (if as_status status = 0 then Top STATE_CENTRAL_DEVICE_ESTABLISH_LINK_REQ else Top s, g1))
      | STATE_CENTRAL_DEVICE_ESTABLISH_LINK_REQ \<Rightarrow>
          outcome_bind (Device_Establish_Link_Req g) (\<lambda>(status, g1).
            Returns (if as_status status = 0 then Top STATE_CENTRAL_DEVICE_ESTABLISH_LINK_RSP else Top s, g1))
      | STATE_CENTRAL_DEVICE_ESTABLISH_LINK_RSP \<Rightarrow>
          outcome_bind (Device_Establish_Link_Rsp g) (\<lambda>(v, g1).
            let (status, g2) = use_value v g1 in
            if as_status status = 0
            then outcome_bind (bond g2) (\<lambda>g3. Returns (Spinning, g3))
            else Returns (Top s, g2))
      | STATE_CENTRAL_ENABLE_NOTIFICATION \<Rightarrow>
          outcome_bind (Enable_Notification g) (\<lambda>(status, g1). Returns (Top s, g1))
      | _ \<Rightarrow> Returns (Top s, g))"

primrec central_step :: "central_pc \<Rightarrow> globals \<Rightarrow> (central_pc \<times> globals) outcome" where
  "central_step Start g =
     outcome_bind (central_startup g) (\<lambda>g1. Returns (Top STATE_CENTRAL_INIT, g1))"
| "central_step (Top s) g = central_state_step s g"
| "central_step In_Scan_Rsp g =
     outcome_bind (Device_Scan_Req_wait g) (\<lambda>(status, g1).
       Returns (Top (scan_req_next (as_status status)), g1))"
| "central_step Spinning g = Returns (Spinning, g)"


subsection \<open>Receiving into the global buffer\<close>

lemma recv_buffer_frame:
  "recv_buffer qid g = Returns g' \<Longrightarrow>
   g' = g\<lparr>kern := kern g', buffer := buffer g', buf_size := buf_size g'\<rparr>"
  by (auto simp: recv_buffer_def outcome_bind_eq_Returns)

lemma recv_buffer_ok [keeps_wf]: "globals_ok g \<Longrightarrow> on_return globals_ok (recv_buffer qid g)"
  using sys_mq_recv_ok [of MTEXT_SIZE "kern g" qid "buffer g" "buf_size g"]
  by (auto simp: on_return_iff recv_buffer_def outcome_bind_eq_Returns globals_ok_def
      dest: sys_mq_recv_length)

lemma recv_buffer_takes:
  assumes ok: "globals_ok g" and c: "contents (kern g) qid = Some (m # ms)"
  shows "\<exists>k'. recv_buffer qid g =
             Returns (g\<lparr>kern := k', buffer := m @ drop (length m) (buffer g),
                        buf_size := word_of_nat (length m)\<rparr>) \<and>
           contents k' = (contents (kern g))(qid \<mapsto> ms) \<and> length m \<le> MTEXT_SIZE"
proof -
  from ok have k: "kernel_ok MTEXT_SIZE (kern g)" and b: "length (buffer g) = 256"
    by (simp_all add: globals_ok_def)
  have "length m \<le> MTEXT_SIZE" using contents_fits [OF k c] by simp
  with recv_takes [OF k c, of "buffer g" "buf_size g"] b show ?thesis
    by (auto simp: recv_buffer_def MTEXT_SIZE_def)
qed

lemma recv_buffer_blocks: "contents (kern g) qid = Some [] \<Longrightarrow> recv_buffer qid g = Blocks"
  by (simp add: recv_buffer_def recv_blocks)

lemma store_rev_6:
  assumes "length dst = 7" and "length src = 256" and "5 \<le> j" and "j < 256"
  shows "store_rev dst src j 6 =
    Returns ([src ! j, src ! (j - 1), src ! (j - 2), src ! (j - 3), src ! (j - 4), src ! (j - 5), dst ! 6])"
proof -
  obtain a b c d e f g where "dst = [a, b, c, d, e, f, g]"
    using assms(1) by (auto simp: length_Suc_conv numeral_eq_Suc)
  with assms show ?thesis by (simp add: eval_nat_numeral)
qed

lemma store_rev_length: "store_rev dst src j n = Returns dst' \<Longrightarrow> length dst' = length dst"
  by (induction n arbitrary: dst') (auto simp: outcome_bind_eq_Returns dest: store_length)

lemma use_value_fields [simp]:
  "Scanned_MAC_Buff (snd (use_value v g)) = Scanned_MAC_Buff g"
  "kern (snd (use_value v g)) = kern g"
  "Conn_Device_List (snd (use_value v g)) = Conn_Device_List g"
  "Slave_Count (snd (use_value v g)) = Slave_Count g"
  "tCommandRespQId (snd (use_value v g)) = tCommandRespQId g"
  by (cases v; simp add: use_junk_def)+

subsection \<open>Start-up\<close>

text \<open>A packet that fits its array is sent whatever the kernel answers.\<close>

lemma send_pac_log:
  "length bs \<le> cap \<Longrightarrow>
   \<exists>r. send_pac cap bs g = Returns (r, logged bs g)"
  by (simp add: send_pac_eq)

lemma SET_PARAM_seq_log:
  "\<exists>g'. SET_PARAM_seq ps g = Returns g' \<and> uart_only g g' \<and>
        map fst (tx_log g') = map fst (tx_log g) @ map (\<lambda>(p, v). SET_PARAM_pac p v) ps"
proof (induction ps arbitrary: g)
  case (Cons p ps)
  let ?g1 = "logged (SET_PARAM_pac (fst p) (snd p)) g"
  have step: "SET_PARAM (fst p) (snd p) g = Returns ?g1"
    by (simp add: SET_PARAM_def send_pac_eq SET_PARAM_pac_def)
  have "uart_only g ?g1" by (simp add: uart_only_def)
  with Cons.IH [of ?g1] step show ?case
    by (auto split: prod.splits intro: uart_only_trans)
qed simp

definition startup_packets :: "u8 list list" where
  "startup_packets =
     HCI_Reset_pac # HCI_Init_pac # map (\<lambda>(p, v). SET_PARAM_pac p v) PARAM_UPDATE_list"

lemma central_startup_log:
  "\<exists>g' qid k. central_startup g = Returns (g'\<lparr>kern := k, tCommandRespQId := qid\<rparr>) \<and>
     uart_only g g' \<and> sys_mq_init (kern g) COMMANDRESP_THREAD_QUEUE_KEY = (qid, k) \<and>
     map fst (tx_log g') = map fst (tx_log g) @ startup_packets"
proof -
  let ?g1 = "logged HCI_Reset_pac g"
  let ?g2 = "logged HCI_Init_pac ?g1"
  have 1: "HCI_Reset g = Returns (No_Value, ?g1)"
    by (simp add: HCI_Reset_def send_pac_eq HCI_Reset_pac_def)
  have 2: "HCI_Init ?g1 = Returns (No_Value, ?g2)"
    by (simp add: HCI_Init_def send_pac_eq HCI_Init_pac_def)
  obtain g' where 3: "PARAM_UPDATE ?g2 = Returns g'" "uart_only ?g2 g'"
    "map fst (tx_log g') = map fst (tx_log ?g2) @ map (\<lambda>(p, v). SET_PARAM_pac p v) PARAM_UPDATE_list"
    using SET_PARAM_seq_log [of PARAM_UPDATE_list ?g2] by (auto simp: PARAM_UPDATE_def)
  have u: "uart_only g g'"
    by (rule uart_only_trans [OF _ 3(2)]) (simp add: uart_only_def)
  obtain qid k where q: "sys_mq_init (kern g) COMMANDRESP_THREAD_QUEUE_KEY = (qid, k)"
    by (cases "sys_mq_init (kern g) COMMANDRESP_THREAD_QUEUE_KEY")
  have "central_startup g = Returns (g'\<lparr>kern := k, tCommandRespQId := qid\<rparr>)"
    using 1 2 3(1) q uart_only_fields(1) [OF u] by (simp add: central_startup_def)
  with u q 3(3) show ?thesis by (auto simp: startup_packets_def)
qed

lemma central_startup_ok [keeps_wf]: "globals_ok g \<Longrightarrow> on_return globals_ok (central_startup g)"
proof -
  assume ok: "globals_ok g"
  obtain g' qid k where s: "central_startup g = Returns (g'\<lparr>kern := k, tCommandRespQId := qid\<rparr>)"
    and u: "uart_only g g'" and q: "sys_mq_init (kern g) COMMANDRESP_THREAD_QUEUE_KEY = (qid, k)"
    using central_startup_log by blast
  have "kernel_ok MTEXT_SIZE k"
    using sys_mq_init_ok [of MTEXT_SIZE "kern g" COMMANDRESP_THREAD_QUEUE_KEY] ok q
    by (simp add: globals_ok_def)
  then show ?thesis using s uart_only_ok [OF u] ok by (simp add: globals_ok_def)
qed


subsection \<open>Steps keep the shared state well-formed\<close>

lemma uart_ok: "on_return (\<lambda>(r, g'). uart_only g g') m \<Longrightarrow> globals_ok g \<Longrightarrow>
  on_return (\<lambda>(r, g'). globals_ok g') m"
  using uart_only_ok by (auto simp: on_return_iff)

lemma Device_Scan_Rsp_ok [keeps_wf]:
  "globals_ok g \<Longrightarrow> on_return (\<lambda>(v, g'). globals_ok g') (Device_Scan_Rsp g)"
  unfolding Device_Scan_Rsp_def Let_def
  by (rule on_return_bind [OF recv_buffer_ok]) simp_all

lemma Device_Scan_Data_ok [keeps_wf]:
  "globals_ok g \<Longrightarrow> on_return (\<lambda>(v, g'). globals_ok g') (Device_Scan_Data g)"
  unfolding Device_Scan_Data_def Let_def
  by (rule on_return_bind [OF recv_buffer_ok])
    (auto simp: on_return_iff outcome_bind_eq_Returns globals_ok_def store_rev_length)

lemma Device_Scan_Cancel_Rsp_ok [keeps_wf]:
  "globals_ok g \<Longrightarrow> on_return (\<lambda>(v, g'). globals_ok g') (Device_Scan_Cancel_Rsp g)"
  unfolding Device_Scan_Cancel_Rsp_def Let_def
  by (rule on_return_bind [OF recv_buffer_ok]) simp_all

lemma Device_Establish_Link_Rsp_ok [keeps_wf]:
  "globals_ok g \<Longrightarrow> on_return (\<lambda>(v, g'). globals_ok g') (Device_Establish_Link_Rsp g)"
  unfolding Device_Establish_Link_Rsp_def Let_def
  by (rule on_return_bind [OF recv_buffer_ok])
    (auto simp: on_return_iff outcome_bind_eq_Returns globals_ok_def store_rev_length)

text \<open>The routines never touch the connection table; only the receive thread writes it.\<close>

definition same_table :: "globals \<Rightarrow> globals \<Rightarrow> bool" where
  "same_table g g' \<longleftrightarrow>
     Conn_Device_List g' = Conn_Device_List g \<and> Slave_Count g' = Slave_Count g \<and>
     mq_key (kern g') = mq_key (kern g)"

lemma same_table_refl [simp]: "same_table g g"
  by (simp add: same_table_def)

lemma same_table_trans: "same_table g g1 \<Longrightarrow> same_table g1 g2 \<Longrightarrow> same_table g g2"
  by (simp add: same_table_def)

lemma uart_same_table: "uart_only g g' \<Longrightarrow> same_table g g'"
  by (simp add: same_table_def uart_only_fields)

lemma recv_buffer_table: "on_return (same_table g) (recv_buffer qid g)"
  by (auto simp: on_return_iff recv_buffer_def outcome_bind_eq_Returns same_table_def
      dest: sys_mq_recv_key)

lemma Device_Scan_Rsp_table: "on_return (\<lambda>(v, g'). same_table g g') (Device_Scan_Rsp g)"
  unfolding Device_Scan_Rsp_def Let_def by (rule on_return_bind [OF recv_buffer_table]) simp

lemma Device_Scan_Data_table: "on_return (\<lambda>(v, g'). same_table g g') (Device_Scan_Data g)"
  unfolding Device_Scan_Data_def Let_def
  by (rule on_return_bind [OF recv_buffer_table])
    (auto simp: on_return_iff outcome_bind_eq_Returns same_table_def)

lemma Device_Scan_Cancel_Rsp_table: "on_return (\<lambda>(v, g'). same_table g g') (Device_Scan_Cancel_Rsp g)"
  unfolding Device_Scan_Cancel_Rsp_def Let_def
  by (rule on_return_bind [OF recv_buffer_table]) simp

lemma Device_Establish_Link_Rsp_table:
  "on_return (\<lambda>(v, g'). same_table g g') (Device_Establish_Link_Rsp g)"
  unfolding Device_Establish_Link_Rsp_def Let_def
  by (rule on_return_bind [OF recv_buffer_table])
    (auto simp: on_return_iff outcome_bind_eq_Returns same_table_def)


subsection \<open>The transition graph\<close>

text \<open>All pairs of program points that one step can join.\<close>

definition central_edges :: "(central_pc \<times> central_pc) list" where
  "central_edges =
     [(Start, Top STATE_CENTRAL_INIT),
      (Top STATE_CENTRAL_INIT, Top STATE_CENTRAL_DEVICE_SCAN_REQ),
      (Top STATE_CENTRAL_DEVICE_SCAN_REQ, In_Scan_Rsp),
      (Top STATE_CENTRAL_DEVICE_SCAN_REQ, Top STATE_CENTRAL_INIT),
      (Top STATE_CENTRAL_DEVICE_SCAN_REQ, Top STATE_CENTRAL_DEVICE_SCAN_DATA),
      (In_Scan_Rsp, Top STATE_CENTRAL_DEVICE_SCAN_DATA),
      (In_Scan_Rsp, Top STATE_CENTRAL_INIT),
      (Top STATE_CENTRAL_DEVICE_SCAN_DATA, Top STATE_CENTRAL_DEVICE_SCAN_DATA),
      (Top STATE_CENTRAL_DEVICE_SCAN_DATA, Top STATE_CENTRAL_DEVICE_SCAN_REQ),
      (Top STATE_CENTRAL_DEVICE_SCAN_DATA, Top STATE_CENTRAL_DEVICE_SCAN_CANCEL),
      (Top STATE_CENTRAL_DEVICE_SCAN_CANCEL, Top STATE_CENTRAL_DEVICE_SCAN_CANCEL),
      (Top STATE_CENTRAL_DEVICE_SCAN_CANCEL, Top STATE_CENTRAL_DEVICE_SCAN_CANCEL_RSP),
      (Top STATE_CENTRAL_DEVICE_SCAN_CANCEL_RSP, Top STATE_CENTRAL_DEVICE_SCAN_CANCEL_RSP),
      (Top STATE_CENTRAL_DEVICE_SCAN_CANCEL_RSP, Top STATE_CENTRAL_DEVICE_ESTABLISH_LINK_REQ)]"

definition central_points :: "central_pc list" where
  "central_points = [Start, In_Scan_Rsp, Top STATE_CENTRAL_INIT, Top STATE_CENTRAL_DEVICE_SCAN_REQ,
     Top STATE_CENTRAL_DEVICE_SCAN_DATA, Top STATE_CENTRAL_DEVICE_SCAN_CANCEL,
     Top STATE_CENTRAL_DEVICE_SCAN_CANCEL_RSP, Top STATE_CENTRAL_DEVICE_ESTABLISH_LINK_REQ]"

lemma Establish_Link_Req_faults: "Device_Establish_Link_Req g = Fault (Overflow 10 13)"
  by (simp add: Device_Establish_Link_Req_def send_pac_eq Device_Establish_Link_Req_pac_def)

lemma Device_Scan_Req_send_cases:
  "\<exists>r. Device_Scan_Req_send g = Returns (r, if Device_conn_count g < 4 then logged Device_Scan_Req_pac g else g)"
  by (simp add: Device_Scan_Req_send_def send_pac_eq Device_Scan_Req_pac_def)

lemma scan_req_next_cases:
  "scan_req_next b = STATE_CENTRAL_DEVICE_SCAN_DATA \<or> scan_req_next b = STATE_CENTRAL_INIT"
  by (simp add: scan_req_next_def)

lemma scan_data_next_cases:
  "scan_data_next b \<in> {STATE_CENTRAL_DEVICE_SCAN_DATA, STATE_CENTRAL_DEVICE_SCAN_REQ,
                       STATE_CENTRAL_DEVICE_SCAN_CANCEL}"
  by (simp add: scan_data_next_def)

lemmas central_step_simps = central_state_step_def outcome_bind_eq_Returns split_beta Let_def

lemma scan_req_step:
  "central_step (Top STATE_CENTRAL_DEVICE_SCAN_REQ) g = Returns (pc', g') \<Longrightarrow>
   pc' \<in> {In_Scan_Rsp, Top STATE_CENTRAL_DEVICE_SCAN_DATA, Top STATE_CENTRAL_INIT}"
proof -
  assume step: "central_step (Top STATE_CENTRAL_DEVICE_SCAN_REQ) g = Returns (pc', g')"
  obtain r g1 where "Device_Scan_Req_send g = Returns (r, g1)"
    using Device_Scan_Req_send_cases by blast
  with step show ?thesis
    using scan_req_next_cases by (cases r) (auto simp: central_step_simps)
qed

lemma in_scan_rsp_step:
  "central_step In_Scan_Rsp g = Returns (pc', g') \<Longrightarrow>
   pc' \<in> {Top STATE_CENTRAL_DEVICE_SCAN_DATA, Top STATE_CENTRAL_INIT}"
  using scan_req_next_cases by (auto simp: central_step_simps)

lemma scan_data_step:
  "central_step (Top STATE_CENTRAL_DEVICE_SCAN_DATA) g = Returns (pc', g') \<Longrightarrow>
   pc' \<in> {Top STATE_CENTRAL_DEVICE_SCAN_DATA, Top STATE_CENTRAL_DEVICE_SCAN_REQ,
          Top STATE_CENTRAL_DEVICE_SCAN_CANCEL}"
  using scan_data_next_cases by (auto simp: central_step_simps)

lemma scan_cancel_step:
  "central_step (Top STATE_CENTRAL_DEVICE_SCAN_CANCEL) g = Returns (pc', g') \<Longrightarrow>
   pc' \<in> {Top STATE_CENTRAL_DEVICE_SCAN_CANCEL, Top STATE_CENTRAL_DEVICE_SCAN_CANCEL_RSP}"
  by (auto simp: central_step_simps)

lemma scan_cancel_rsp_step:
  "central_step (Top STATE_CENTRAL_DEVICE_SCAN_CANCEL_RSP) g = Returns (pc', g') \<Longrightarrow>
   pc' \<in> {Top STATE_CENTRAL_DEVICE_SCAN_CANCEL_RSP, Top STATE_CENTRAL_DEVICE_ESTABLISH_LINK_REQ}"
  by (auto simp: central_step_simps)

lemma establish_link_step:
  "central_step (Top STATE_CENTRAL_DEVICE_ESTABLISH_LINK_REQ) g = Fault (Overflow 10 13)"
  by (simp add: central_state_step_def Establish_Link_Req_faults)

lemma start_step: "central_step Start g = Returns (pc', g') \<Longrightarrow> pc' = Top STATE_CENTRAL_INIT"
  by (auto simp: outcome_bind_eq_Returns)

lemma init_step: "central_step (Top STATE_CENTRAL_INIT) g = Returns (Top STATE_CENTRAL_DEVICE_SCAN_REQ, g)"
  by (simp add: central_state_step_def)

lemmas central_successors = start_step scan_req_step in_scan_rsp_step scan_data_step
  scan_cancel_step scan_cancel_rsp_step

lemma central_step_edge:
  assumes "central_step pc g = Returns (pc', g')" and "pc \<in> set central_points"
  shows "(pc, pc') \<in> set central_edges"
proof -
  from assms(2) have "pc = Start \<or> pc = In_Scan_Rsp \<or> pc = Top STATE_CENTRAL_INIT \<or>
      pc = Top STATE_CENTRAL_DEVICE_SCAN_REQ \<or> pc = Top STATE_CENTRAL_DEVICE_SCAN_DATA \<or>
      pc = Top STATE_CENTRAL_DEVICE_SCAN_CANCEL \<or> pc = Top STATE_CENTRAL_DEVICE_SCAN_CANCEL_RSP \<or>
      pc = Top STATE_CENTRAL_DEVICE_ESTABLISH_LINK_REQ"
    by (auto simp: central_points_def)
  then show ?thesis
    using assms(1)
    by (elim disjE) (auto simp: central_edges_def init_step establish_link_step
        simp del: central_step.simps dest: central_successors)
qed

lemma central_step_point:
  assumes "central_step pc g = Returns (pc', g')" and "pc \<in> set central_points"
  shows "pc' \<in> set central_points"
  using central_step_edge [OF assms] by (auto simp: central_edges_def central_points_def)

subsection \<open>Invariance of a step\<close>

lemma Device_Scan_Req_send_uart: "on_return (\<lambda>(r, g'). uart_only g g') (Device_Scan_Req_send g)"
  by (auto simp: Device_Scan_Req_send_def send_pac_eq uart_only_def)

lemma use_value_uart: "use_value v g = (status, g') \<Longrightarrow> uart_only g g'"
  using uart_only_use_value [of g v] by simp

lemma use_value_ok: "use_value v g = (status, g') \<Longrightarrow> globals_ok g' = globals_ok g"
  using uart_only_ok use_value_uart by blast

text \<open>
  What holds for a state and survives UART output and the use of junk also survives a step of
  the machine, when the receiving routines keep it.
\<close>

lemma central_step_keeps:
  assumes uart: "\<And>g g'. P g \<Longrightarrow> uart_only g g' \<Longrightarrow> P g'"
    and startup: "\<And>g. P g \<Longrightarrow> pc = Start \<Longrightarrow> on_return P (central_startup g)"
    and recv: "\<And>g. P g \<Longrightarrow> on_return (\<lambda>(v, g'). P g') (Device_Scan_Rsp g)"
      "\<And>g. P g \<Longrightarrow> on_return (\<lambda>(v, g'). P g') (Device_Scan_Data g)"
      "\<And>g. P g \<Longrightarrow> on_return (\<lambda>(v, g'). P g') (Device_Scan_Cancel_Rsp g)"
      "\<And>g. P g \<Longrightarrow> on_return (\<lambda>(v, g'). P g') (Device_Establish_Link_Rsp g)"
    and P: "P g"
  shows "on_return (\<lambda>(pc', g'). P g') (central_step pc g)"
proof -
  have send: "on_return (\<lambda>(r, g'). P g') m" if "on_return (\<lambda>(r, g'). uart_only g g') m" for m :: "('a \<times> globals) outcome"
    using that uart [OF P] by (auto simp: on_return_iff)
  have val: "P (snd (use_value v g1))" if "P g1" for v g1
    using uart [OF that uart_only_use_value] .
  have bond: "on_return P (bond g1)" if "P g1" for g1
    using bond_uart [of g1] uart [OF that] by (auto simp: on_return_iff)
  show ?thesis
  proof (cases pc)
    case Start
    then show ?thesis using startup [OF P Start] by (auto simp: on_return_iff outcome_bind_eq_Returns)
  next
    case In_Scan_Rsp
    then show ?thesis using recv(1) [OF P] val
      by (cases "Device_Scan_Rsp g") (auto simp: Device_Scan_Req_wait_def split_beta)
  next
    case Spinning
    then show ?thesis using P by simp
  next
    case (Top s)
    show ?thesis
    proof (cases s)
      case STATE_CENTRAL_DEVICE_SCAN_REQ
      obtain r g1 where r: "Device_Scan_Req_send g = Returns (r, g1)"
        using Device_Scan_Req_send_cases by blast
      have "P g1" using Device_Scan_Req_send_uart [of g] r uart [OF P] by simp
      then show ?thesis using Top STATE_CENTRAL_DEVICE_SCAN_REQ r
        by (cases r) (simp_all add: central_state_step_def split_beta val)
    next
      case STATE_CENTRAL_DEVICE_SCAN_DATA
      then show ?thesis using Top recv(2) [OF P] val
        by (auto simp: on_return_iff central_step_simps)
    next
      case STATE_CENTRAL_DEVICE_SCAN_CANCEL
      then show ?thesis using Top send [OF send_pac_uart]
        by (auto simp: on_return_iff central_step_simps Device_Scan_Cancel_Req_def)
    next
      case STATE_CENTRAL_DEVICE_SCAN_CANCEL_RSP
      then show ?thesis using Top recv(3) [OF P]
        by (auto simp: on_return_iff central_step_simps)
    next
      case STATE_CENTRAL_DEVICE_ESTABLISH_LINK_RSP
      then show ?thesis using Top recv(4) [OF P] val bond
        by (fastforce simp: on_return_iff central_step_simps)
    next
      case STATE_CENTRAL_ENABLE_NOTIFICATION
      then show ?thesis using Top send [OF send_pac_uart]
        by (auto simp: on_return_iff central_step_simps Enable_Notification_def)
    qed (simp_all add: Top P central_state_step_def Establish_Link_Req_faults)
  qed
qed

lemma central_step_ok: "globals_ok g \<Longrightarrow> on_return (\<lambda>(pc', g'). globals_ok g') (central_step pc g)"
  by (rule central_step_keeps)
    (auto simp: uart_only_ok central_startup_ok Device_Scan_Rsp_ok Device_Scan_Data_ok
      Device_Scan_Cancel_Rsp_ok Device_Establish_Link_Rsp_ok)

text \<open>A receiving routine keeps the shared state well-formed and every key with its queue.\<close>

definition keeps_key :: "int \<Rightarrow> int \<Rightarrow> globals \<Rightarrow> bool" where
  "keeps_key key qid g \<longleftrightarrow> globals_ok g \<and> mq_key (kern g) key = Some qid"

lemma keeps_keyI:
  "on_return (\<lambda>(v, g'). globals_ok g') m \<Longrightarrow> on_return (\<lambda>(v, g'). same_table g g') m \<Longrightarrow>
   keeps_key key qid g \<Longrightarrow> on_return (\<lambda>(v, g'). keeps_key key qid g') m"
  by (cases m) (auto simp: same_table_def keeps_key_def)

lemma keeps_key_uart: "keeps_key key qid g \<Longrightarrow> uart_only g g' \<Longrightarrow> keeps_key key qid g'"
  by (simp add: keeps_key_def uart_only_ok uart_only_fields)

lemma central_step_devices:
  "on_return (\<lambda>(pc', g'). Conn_Device_List g' = Conn_Device_List g \<and> Slave_Count g' = Slave_Count g)
     (central_step pc g)"
proof (rule central_step_keeps)
  fix g1 :: globals assume P: "Conn_Device_List g1 = Conn_Device_List g \<and> Slave_Count g1 = Slave_Count g"
  { fix g2 assume "uart_only g1 g2"
    then show "Conn_Device_List g2 = Conn_Device_List g \<and> Slave_Count g2 = Slave_Count g"
      using P uart_only_fields by metis }
  show "on_return (\<lambda>g'. Conn_Device_List g' = Conn_Device_List g \<and> Slave_Count g' = Slave_Count g)
      (central_startup g1)"
    using central_startup_log [of g1] P uart_only_fields(2,3) by fastforce
qed (use Device_Scan_Rsp_table Device_Scan_Data_table Device_Scan_Cancel_Rsp_table
       Device_Establish_Link_Rsp_table in \<open>fastforce simp: on_return_iff same_table_def\<close>)+

lemma keeps_key_startup: "keeps_key key qid g \<Longrightarrow> on_return (keeps_key key qid) (central_startup g)"
proof -
  assume P: "keeps_key key qid g"
  obtain g2 q k where s: "central_startup g = Returns (g2\<lparr>kern := k, tCommandRespQId := q\<rparr>)"
    and q: "sys_mq_init (kern g) COMMANDRESP_THREAD_QUEUE_KEY = (q, k)"
    using central_startup_log [of g] by blast
  from q P have "mq_key k key = Some qid"
    using sys_mq_init_keeps_key [of "kern g" key qid MTEXT_SIZE COMMANDRESP_THREAD_QUEUE_KEY]
    by (simp add: globals_ok_def keeps_key_def)
  with s show ?thesis
    using central_startup_ok [of g] P by (simp add: keeps_key_def)
qed

lemma central_step_keys:
  "keeps_key key qid g \<Longrightarrow> on_return (\<lambda>(pc', g'). keeps_key key qid g') (central_step pc g)"
proof (rule central_step_keeps)
  fix g assume "keeps_key key qid g"
  moreover from this have "globals_ok g" by (simp add: keeps_key_def)
  ultimately show "on_return (\<lambda>(v, g'). keeps_key key qid g') (Device_Scan_Rsp g)"
    and "on_return (\<lambda>(v, g'). keeps_key key qid g') (Device_Scan_Data g)"
    and "on_return (\<lambda>(v, g'). keeps_key key qid g') (Device_Scan_Cancel_Rsp g)"
    and "on_return (\<lambda>(v, g'). keeps_key key qid g') (Device_Establish_Link_Rsp g)"
    by (blast intro: keeps_keyI Device_Scan_Rsp_ok Device_Scan_Rsp_table Device_Scan_Data_ok
        Device_Scan_Data_table Device_Scan_Cancel_Rsp_ok Device_Scan_Cancel_Rsp_table
        Device_Establish_Link_Rsp_ok Device_Establish_Link_Rsp_table)+
qed (auto intro: keeps_key_uart keeps_key_startup)


subsection \<open>What the classification of a message does\<close>

lemma scan_data_any:
  assumes ok: "globals_ok g" and c: "contents (kern g) (tCommandRespQId g) = Some (m # ms)"
    and b: "b = m @ drop (length m) (buffer g)"
  shows "\<exists>v g'. Device_Scan_Data g = Returns (v, g') \<and>
     contents (kern g') = (contents (kern g))(tCommandRespQId g \<mapsto> ms) \<and> buffer g' = b \<and>
     (if vendor_msg b \<and> msg_code b = VS_GAP_DEVICE_INFORMATION \<and> uuid_match b
      then v = Value 2 \<and>
           Scanned_MAC_Buff g' = [b ! 13, b ! 12, b ! 11, b ! 10, b ! 9, b ! 8, Scanned_MAC_Buff g ! 6]
      else v = No_Value \<and> Scanned_MAC_Buff g' = Scanned_MAC_Buff g)"
proof -
  obtain k where k: "recv_buffer (tCommandRespQId g) g =
      Returns (g\<lparr>kern := k, buffer := b, buf_size := word_of_nat (length m)\<rparr>)"
      (is "_ = Returns ?g1")
    and cont: "contents k = (contents (kern g))(tCommandRespQId g \<mapsto> ms)" and m: "length m \<le> MTEXT_SIZE"
    using recv_buffer_takes [OF ok c] unfolding b by blast
  have "length (Scanned_MAC_Buff ?g1) = 7" "length (buffer ?g1) = 256"
    using ok m by (simp_all add: b globals_ok_def MTEXT_SIZE_def)
  then have "store_rev (Scanned_MAC_Buff ?g1) (buffer ?g1) 13 6 =
      Returns [b ! 13, b ! 12, b ! 11, b ! 10, b ! 9, b ! 8, Scanned_MAC_Buff g ! 6]"
    using store_rev_6 [of "Scanned_MAC_Buff ?g1" "buffer ?g1" 13] by simp
  then show ?thesis
    unfolding Device_Scan_Data_def k outcome_bind.simps Let_def using cont by simp
qed

text \<open>A message of at least 25 bytes has all the bytes that are looked at.\<close>

lemma scan_data_message:
  assumes ok: "globals_ok g" and c: "contents (kern g) (tCommandRespQId g) = Some (m # ms)"
    and len: "25 \<le> length m"
  shows "\<exists>v g'. Device_Scan_Data g = Returns (v, g') \<and>
     contents (kern g') = (contents (kern g))(tCommandRespQId g \<mapsto> ms) \<and>
     (if vendor_msg m \<and> msg_code m = VS_GAP_DEVICE_INFORMATION \<and> uuid_match m
      then v = Value 2 \<and>
           Scanned_MAC_Buff g' = [m ! 13, m ! 12, m ! 11, m ! 10, m ! 9, m ! 8, Scanned_MAC_Buff g ! 6]
      else v = No_Value \<and> Scanned_MAC_Buff g' = Scanned_MAC_Buff g)"
proof -
  let ?b = "m @ drop (length m) (buffer g)"
  have nth: "?b ! i = m ! i" if "i < 25" for i
    using that len by (simp add: nth_append)
  have vm: "vendor_msg ?b = vendor_msg m" "uuid_match ?b = uuid_match m" "msg_code ?b = msg_code m"
    unfolding vendor_msg_def uuid_match_def by (simp_all only: nth)
  have n: "?b ! 13 = m ! 13" "?b ! 12 = m ! 12" "?b ! 11 = m ! 11" "?b ! 10 = m ! 10" "?b ! 9 = m ! 9" "?b ! 8 = m ! 8"
    by (simp_all only: nth)
  from scan_data_any [OF ok c refl] show ?thesis unfolding vm n by blast
qed

subsection \<open>Faults of the central thread\<close>

lemma recv_buffer_no_fault: "globals_ok g \<Longrightarrow> recv_buffer qid g \<noteq> Fault e"
  using sys_mq_recv_no_fault [of MTEXT_SIZE "kern g" "buffer g" qid "buf_size g"]
  by (auto simp: recv_buffer_def outcome_bind_eq_Fault globals_ok_def MTEXT_SIZE_def)

lemma Device_Scan_Rsp_no_fault: "globals_ok g \<Longrightarrow> Device_Scan_Rsp g \<noteq> Fault e"
  by (auto simp: Device_Scan_Rsp_def outcome_bind_eq_Fault recv_buffer_no_fault)

lemma store_rev_no_fault:
  "globals_ok g \<Longrightarrow> j \<in> {12, 13} \<Longrightarrow> store_rev (Scanned_MAC_Buff g) (buffer g) j 6 \<noteq> Fault e"
  by (auto simp: store_rev_6 globals_ok_def)

lemma Device_Scan_Data_no_fault:
  assumes ok: "globals_ok g"
  shows "Device_Scan_Data g \<noteq> Fault e"
proof
  assume fault: "Device_Scan_Data g = Fault e"
  then obtain g1 where "recv_buffer (tCommandRespQId g) g = Returns g1"
    using recv_buffer_no_fault [OF ok]
    by (cases "recv_buffer (tCommandRespQId g) g") (auto simp: Device_Scan_Data_def)
  with fault recv_buffer_ok [OF ok, of "tCommandRespQId g"] show False
    using store_rev_no_fault [of g1 13 e]
    by (auto simp: Device_Scan_Data_def outcome_bind_eq_Fault Let_def split: if_splits)
qed

lemma Device_Scan_Cancel_Rsp_no_fault: "globals_ok g \<Longrightarrow> Device_Scan_Cancel_Rsp g \<noteq> Fault e"
  by (auto simp: Device_Scan_Cancel_Rsp_def outcome_bind_eq_Fault recv_buffer_no_fault Let_def
      split: if_splits)

lemma central_step_fault:
  assumes ok: "globals_ok g" and pc: "pc \<in> set central_points" and f: "central_step pc g = Fault e"
  shows "pc = Top STATE_CENTRAL_DEVICE_ESTABLISH_LINK_REQ \<and> e = Overflow 10 13"
proof -
  have start: "central_startup g \<noteq> Fault e"
    using central_startup_log [of g] by auto
  have cancel: "Device_Scan_Cancel_Req g \<noteq> Fault e"
    by (simp add: Device_Scan_Cancel_Req_def send_pac_eq Device_Scan_Cancel_Req_pac_def)
  obtain r where req: "Device_Scan_Req_send g =
      Returns (r, if Device_conn_count g < 4 then logged Device_Scan_Req_pac g else g)"
    using Device_Scan_Req_send_cases by blast
  show ?thesis
    using pc f start cancel req Device_Scan_Rsp_no_fault [OF ok] Device_Scan_Data_no_fault [OF ok]
      Device_Scan_Cancel_Rsp_no_fault [OF ok]
    by (cases r) (auto simp: central_points_def central_state_step_def outcome_bind_eq_Fault
        Establish_Link_Req_faults Device_Scan_Req_wait_def split_beta)
qed

subsection \<open>Properties of the central thread\<close>

text \<open>Start-up sends exactly fourteen packets in this order, whatever the kernel answers to the
  writes: reset, device initialisation, and the twelve parameter settings; then the thread
  holds the queue the kernel has for the response key, or -1.\<close>

lemma startup_sequence:
  assumes "globals_ok g"
  shows "\<exists>g'. central_step Start g = Returns (Top STATE_CENTRAL_INIT, g') \<and>
     map fst (tx_log g') = map fst (tx_log g) @ [HCI_Reset_pac, HCI_Init_pac] @
       map (\<lambda>(p, v). SET_PARAM_pac p v) PARAM_UPDATE_list \<and>
     known (kern g') COMMANDRESP_THREAD_QUEUE_KEY (tCommandRespQId g')"
proof -
  obtain g1 qid k where s: "central_startup g = Returns (g1\<lparr>kern := k, tCommandRespQId := qid\<rparr>)"
    and q: "sys_mq_init (kern g) COMMANDRESP_THREAD_QUEUE_KEY = (qid, k)"
    and l: "map fst (tx_log g1) = map fst (tx_log g) @ startup_packets"
    using central_startup_log by blast
  have "known k COMMANDRESP_THREAD_QUEUE_KEY qid"
    using sys_mq_init_known_id [of MTEXT_SIZE, OF _ q] assms by (simp add: globals_ok_def)
  with s l show ?thesis by (simp add: startup_packets_def)
qed

lemma startup_sequence_witness:
  "\<exists>g'. central_step Start (central_demo []) = Returns (Top STATE_CENTRAL_INIT, g') \<and>
     map fst (tx_log g') = map fst (tx_log (central_demo [])) @ [HCI_Reset_pac, HCI_Init_pac] @
       map (\<lambda>(p, v). SET_PARAM_pac p v) PARAM_UPDATE_list \<and>
     known (kern g') COMMANDRESP_THREAD_QUEUE_KEY (tCommandRespQId g')"
  by (rule startup_sequence) (simp add: central_demo_ok)

text \<open>The response to the scan request does not matter: whatever message is first in the queue,
  a success, an error or an unrelated event, the next state is chosen by the indeterminate
  value of a function that returned nothing; only 0 leads on to the scan data.\<close>

lemma scan_response_ignored:
  assumes "globals_ok g" and "contents (kern g) (tCommandRespQId g) = Some (m # ms)"
  shows "\<exists>g'. central_step In_Scan_Rsp g =
       Returns (Top (scan_req_next (as_status (env_junk g (junk_used g)))), g') \<and>
     contents (kern g') = (contents (kern g))(tCommandRespQId g \<mapsto> ms)"
proof -
  obtain k where "recv_buffer (tCommandRespQId g) g =
      Returns (g\<lparr>kern := k, buffer := m @ drop (length m) (buffer g), buf_size := word_of_nat (length m)\<rparr>)"
    and "contents k = (contents (kern g))(tCommandRespQId g \<mapsto> ms)"
    using recv_buffer_takes [OF assms] by blast
  then show ?thesis
    by (simp add: Device_Scan_Req_wait_def Device_Scan_Rsp_def use_junk_def Let_def)
qed

lemma scan_response_ignored_witness:
  "\<exists>g'. central_step In_Scan_Rsp (central_demo [[4, 0xFF, 6, 0x7F, 0x06, 0x11, 0x04, 0xFE, 0]]) =
       Returns (Top (scan_req_next (as_status
         (env_junk (central_demo [[4, 0xFF, 6, 0x7F, 0x06, 0x11, 0x04, 0xFE, 0]])
           (junk_used (central_demo [[4, 0xFF, 6, 0x7F, 0x06, 0x11, 0x04, 0xFE, 0]]))))), g') \<and>
     contents (kern g') = (contents (kern (central_demo [[4, 0xFF, 6, 0x7F, 0x06, 0x11, 0x04, 0xFE, 0]])))
       (tCommandRespQId (central_demo [[4, 0xFF, 6, 0x7F, 0x06, 0x11, 0x04, 0xFE, 0]]) \<mapsto> [])"
  by (rule scan_response_ignored [OF central_demo_ok central_demo_contents]) (simp add: MTEXT_SIZE_def)

lemma Device_Scan_Data_junk:
  "Device_Scan_Data g = Returns (v, g') \<Longrightarrow> env_junk g' = env_junk g \<and> junk_used g' = junk_used g"
proof -
  assume d: "Device_Scan_Data g = Returns (v, g')"
  have "on_return (\<lambda>g'. env_junk g' = env_junk g \<and> junk_used g' = junk_used g) (recv_buffer (tCommandRespQId g) g)"
    by (auto simp: on_return_iff recv_buffer_def outcome_bind_eq_Returns)
  then have "on_return (\<lambda>(v, g'). env_junk g' = env_junk g \<and> junk_used g' = junk_used g) (Device_Scan_Data g)"
    unfolding Device_Scan_Data_def Let_def
    by (rule on_return_bind) (auto simp: on_return_iff outcome_bind_eq_Returns)
  with d show ?thesis by simp
qed

text \<open>C12: Scan data, for every message: it is copied over the front of the buffer \<open>b\<close> and what it does is
  read from \<open>b\<close>, so a message of fewer than 25 bytes is completed by what earlier ones left there.
  If \<open>b\<close> is an advertisement with the expected flags and service identifier, the machine goes
  on to cancel the scan and the address in bytes 8 to 13 is stored in reverse.  Every other
  message, the end-of-scan event included, leaves the stored address, and the value left over in
  the result register chooses the next state: its low byte 1 asks for a scan again, 2 cancels
  the scan, any other goes on scanning.\<close>

theorem scan_data_effect:
  assumes "globals_ok g" and "contents (kern g) (tCommandRespQId g) = Some (m # ms)"
    and "b = m @ drop (length m) (buffer g)"
  shows "\<exists>g'. central_step (Top STATE_CENTRAL_DEVICE_SCAN_DATA) g =
       Returns (Top (if vendor_msg b \<and> msg_code b = VS_GAP_DEVICE_INFORMATION \<and> uuid_match b
                     then STATE_CENTRAL_DEVICE_SCAN_CANCEL
                     else if env_junk g (junk_used g) mod 256 = 1 then STATE_CENTRAL_DEVICE_SCAN_REQ
                     else if env_junk g (junk_used g) mod 256 = 2 then STATE_CENTRAL_DEVICE_SCAN_CANCEL
                     else STATE_CENTRAL_DEVICE_SCAN_DATA), g') \<and>
     Scanned_MAC_Buff g' =
       (if vendor_msg b \<and> msg_code b = VS_GAP_DEVICE_INFORMATION \<and> uuid_match b
        then [b ! 13, b ! 12, b ! 11, b ! 10, b ! 9, b ! 8, Scanned_MAC_Buff g ! 6]
        else Scanned_MAC_Buff g) \<and>
     buffer g' = b \<and> contents (kern g') = (contents (kern g))(tCommandRespQId g \<mapsto> ms)"
proof -
  obtain v g1 where d: "Device_Scan_Data g = Returns (v, g1)" and b: "buffer g1 = b"
    and c: "contents (kern g1) = (contents (kern g))(tCommandRespQId g \<mapsto> ms)"
    and v: "if vendor_msg b \<and> msg_code b = VS_GAP_DEVICE_INFORMATION \<and> uuid_match b
      then v = Value 2 \<and>
           Scanned_MAC_Buff g1 = [b ! 13, b ! 12, b ! 11, b ! 10, b ! 9, b ! 8, Scanned_MAC_Buff g ! 6]
      else v = No_Value \<and> Scanned_MAC_Buff g1 = Scanned_MAC_Buff g"
    using scan_data_any [OF assms] by blast
  have next_state: "Top (scan_data_next (as_status x)) =
      Top (if x mod 256 = 1 then STATE_CENTRAL_DEVICE_SCAN_REQ
           else if x mod 256 = 2 then STATE_CENTRAL_DEVICE_SCAN_CANCEL else STATE_CENTRAL_DEVICE_SCAN_DATA)" for x
    by (simp add: scan_data_next_def as_status_def uint_word_of_int)
  have "env_junk g1 = env_junk g" "junk_used g1 = junk_used g"
    using Device_Scan_Data_junk [OF d] by simp_all
  with d b c v show ?thesis
    by (auto simp: central_state_step_def use_junk_def next_state)
qed

definition advert_msg :: "u8 list" where
  "advert_msg = [4, 0xFF, 27, 0x0D, 0x06, 0, 0, 0, 0x66, 0x55, 0x44, 0x33, 0x22, 0x11, 0xC5, 14,
                 0x02, 0x01, 0x06, 0x11, 0x07, 0x9E, 0xCA, 0xDC, 0x24, 0x0E, 0xE5, 0xA9, 0xE0, 0x93]"

definition scan_done_msg :: "u8 list" where
  "scan_done_msg = [4, 0xFF, 3, 0x01, 0x06, 0x30]"

text \<open>An advertisement, and an end-of-scan event of six bytes.\<close>

theorem scan_data_effect_witness:
  "(\<exists>g'. central_step (Top STATE_CENTRAL_DEVICE_SCAN_DATA) (central_demo [advert_msg]) =
       Returns (Top STATE_CENTRAL_DEVICE_SCAN_CANCEL, g') \<and>
     Scanned_MAC_Buff g' = [0x11, 0x22, 0x33, 0x44, 0x55, 0x66, Scanned_MAC_Buff (central_demo [advert_msg]) ! 6]) \<and>
   (\<exists>g'. central_step (Top STATE_CENTRAL_DEVICE_SCAN_DATA) (central_demo [scan_done_msg]) =
       Returns (Top STATE_CENTRAL_DEVICE_SCAN_DATA, g') \<and>
     Scanned_MAC_Buff g' = Scanned_MAC_Buff (central_demo [scan_done_msg]))"
proof
  have "vendor_msg (advert_msg @ b)" "msg_code (advert_msg @ b) = VS_GAP_DEVICE_INFORMATION" "uuid_match (advert_msg @ b)" for b
    by (simp_all add: advert_msg_def vendor_msg_def uuid_match_def make16_eq_iff VS_GAP_DEVICE_INFORMATION_def
        byte_macro_defs)
  then show "\<exists>g'. central_step (Top STATE_CENTRAL_DEVICE_SCAN_DATA) (central_demo [advert_msg]) =
       Returns (Top STATE_CENTRAL_DEVICE_SCAN_CANCEL, g') \<and>
     Scanned_MAC_Buff g' = [0x11, 0x22, 0x33, 0x44, 0x55, 0x66, Scanned_MAC_Buff (central_demo [advert_msg]) ! 6]"
    using scan_data_effect [OF central_demo_ok central_demo_contents refl, of advert_msg "[]"]
    by (auto simp: MTEXT_SIZE_def advert_msg_def simp del: central_step.simps)
  have "msg_code (scan_done_msg @ b) \<noteq> VS_GAP_DEVICE_INFORMATION" for b
    by (simp add: scan_done_msg_def make16_eq_iff VS_GAP_DEVICE_INFORMATION_def byte_macro_defs)
  then show "\<exists>g'. central_step (Top STATE_CENTRAL_DEVICE_SCAN_DATA) (central_demo [scan_done_msg]) =
       Returns (Top STATE_CENTRAL_DEVICE_SCAN_DATA, g') \<and>
     Scanned_MAC_Buff g' = Scanned_MAC_Buff (central_demo [scan_done_msg])"
    using scan_data_effect [OF central_demo_ok central_demo_contents refl, of scan_done_msg "[]"]
    by (auto simp: MTEXT_SIZE_def scan_done_msg_def central_demo_def initial_globals_def simp del: central_step.simps)
qed

text \<open>The scan-cancel response: only a discovery-done event whose status byte is 0x30 takes the
  machine on to the link request; any other message is consumed and the machine waits again.\<close>

lemma scan_cancel_effect:
  assumes "globals_ok g" and "contents (kern g) (tCommandRespQId g) = Some (m # ms)" and "6 \<le> length m"
  shows "\<exists>g'. central_step (Top STATE_CENTRAL_DEVICE_SCAN_CANCEL_RSP) g =
       Returns (Top (if vendor_msg m \<and> msg_code m = VS_GAP_DEVICE_DISCOVERY \<and> m ! 5 = 0x30
                     then STATE_CENTRAL_DEVICE_ESTABLISH_LINK_REQ
                     else STATE_CENTRAL_DEVICE_SCAN_CANCEL_RSP), g') \<and>
     contents (kern g') = (contents (kern g))(tCommandRespQId g \<mapsto> ms)"
proof -
  obtain k where r: "recv_buffer (tCommandRespQId g) g =
      Returns (g\<lparr>kern := k, buffer := m @ drop (length m) (buffer g), buf_size := word_of_nat (length m)\<rparr>)"
      (is "_ = Returns ?g1")
    and c: "contents k = (contents (kern g))(tCommandRespQId g \<mapsto> ms)"
    using recv_buffer_takes [OF assms(1,2)] by blast
  have nth: "buffer ?g1 ! i = m ! i" if "i < 6" for i
    using that assms(3) by (simp add: nth_append)
  have same: "vendor_msg (buffer ?g1) = vendor_msg m" "msg_code (buffer ?g1) = msg_code m" "buffer ?g1 ! 5 = m ! 5"
    unfolding vendor_msg_def by (simp_all only: nth)
  show ?thesis
    unfolding central_step.simps central_state_step_def Device_Scan_Cancel_Rsp_def r outcome_bind.simps Let_def same
    using c by (simp add: as_status_def)
qed

lemma scan_cancel_effect_witness:
  "\<exists>g'. central_step (Top STATE_CENTRAL_DEVICE_SCAN_CANCEL_RSP) (central_demo [scan_done_msg]) =
       Returns (Top (if vendor_msg scan_done_msg \<and> msg_code scan_done_msg = VS_GAP_DEVICE_DISCOVERY \<and>
                        scan_done_msg ! 5 = 0x30
                     then STATE_CENTRAL_DEVICE_ESTABLISH_LINK_REQ
                     else STATE_CENTRAL_DEVICE_SCAN_CANCEL_RSP), g') \<and>
     contents (kern g') = (contents (kern (central_demo [scan_done_msg])))
       (tCommandRespQId (central_demo [scan_done_msg]) \<mapsto> [])"
  by (rule scan_cancel_effect [OF central_demo_ok central_demo_contents])
    (simp_all add: MTEXT_SIZE_def scan_done_msg_def)

end
