(* ===== verification/Rx_Parser.thy ===== *)
theory Rx_Parser
  imports HCI
begin

text \<open>
  The receive side of \<open>UartCmdRxThread\<close> in \<open>UartCmdRxThread.c\<close>: the byte-level state
  machine that collects one packet in \<open>rx_packet\<close>.  The local variables keep their C types:
  \<open>index\<close> is a \<open>uint8_t\<close> (it wraps at 256), \<open>count\<close> an \<open>int\<close>, \<open>rx_packet\<close> an array of 2048
  bytes.  \<open>rx_byte\<close> is one iteration of the loop after \<open>read\<close> delivered a byte; its first
  result is the packet handed to the dispatcher, with the value of \<open>index\<close>, when the
  iteration completes one.
\<close>

subsection \<open>State\<close>

definition EventQueue :: u8 where "EventQueue = 1"
definition DataQueue :: u8 where "DataQueue = 2"
definition BLE_ASD_PKT :: u8 where [hci_codes]: "BLE_ASD_PKT = 0x02"
definition BLE_EVT_PKT :: u8 where [hci_codes]: "BLE_EVT_PKT = 0x04"

datatype State_t =
    STATE_IDLE
  | STATE_INIT
  | STATE_EVENT_RESPONSE
  | STATE_EVENT_LENGTH
  | STATE_PACKET_WAIT
  | STATE_ERROR

text \<open>The enumerators in the order of the C \<open>enum\<close>, \<open>STATE_IDLE = 0\<close>.\<close>

primrec state_code :: "State_t \<Rightarrow> nat" where
  "state_code STATE_IDLE = 0"
| "state_code STATE_INIT = 1"
| "state_code STATE_EVENT_RESPONSE = 2"
| "state_code STATE_EVENT_LENGTH = 3"
| "state_code STATE_PACKET_WAIT = 4"
| "state_code STATE_ERROR = 5"

lemma state_code_inj: "state_code s = state_code t \<longleftrightarrow> s = t"
  by (cases s; cases t) simp_all

instantiation State_t :: linorder
begin

definition less_eq_State_t :: "State_t \<Rightarrow> State_t \<Rightarrow> bool" where
  "s \<le> t \<longleftrightarrow> state_code s \<le> state_code t"

definition less_State_t :: "State_t \<Rightarrow> State_t \<Rightarrow> bool" where
  "s < t \<longleftrightarrow> state_code s < state_code t"

instance
  by standard (auto simp: less_eq_State_t_def less_State_t_def state_code_inj)

end

record rx =
  current_state :: State_t
  selectQ :: u8
  rx_index :: u8
  rx_count :: int
  rx_packet :: "u8 list"

definition rx_init :: "int \<Rightarrow> u8 list \<Rightarrow> rx" where
  "rx_init junk_count junk_packet =
     \<lparr>current_state = STATE_IDLE, selectQ = 0, rx_index = 0, rx_count = junk_count,
      rx_packet = junk_packet\<rparr>"


subsection \<open>One received byte\<close>

text \<open>\<open>rx_packet[index++] = rx_byte\<close>\<close>

definition rx_push :: "u8 \<Rightarrow> rx \<Rightarrow> rx outcome" where
  "rx_push b r =
     outcome_bind (store (rx_packet r) (unat (rx_index r)) b) (\<lambda>pkt.
       Returns (r\<lparr>rx_packet := pkt, rx_index := rx_index r + 1\<rparr>))"

text \<open>The test before the \<open>switch\<close>: a packet-type byte in the idle state starts a packet.\<close>

definition rx_wake :: "u8 \<Rightarrow> rx \<Rightarrow> rx" where
  "rx_wake b r =
     (if rx_index r = 0 \<and> current_state r = STATE_IDLE \<and> (b = BLE_EVT_PKT \<or> b = BLE_ASD_PKT)
      then r\<lparr>current_state := STATE_INIT\<rparr> else r)"

definition rx_byte :: "u8 \<Rightarrow> rx \<Rightarrow> ((u8 list \<times> u8) option \<times> rx) outcome" where
  "rx_byte b r =
     (let r = rx_wake b r in
      case current_state r of
        STATE_IDLE \<Rightarrow> Returns (None, r\<lparr>rx_index := 0, rx_count := 0\<rparr>)
      | STATE_INIT \<Rightarrow>
          if b = BLE_EVT_PKT then
            outcome_bind (rx_push b r) (\<lambda>r.
              Returns (None, r\<lparr>current_state := STATE_EVENT_RESPONSE, selectQ := EventQueue\<rparr>))
          else if b = BLE_ASD_PKT then
            outcome_bind (rx_push b r) (\<lambda>r. Returns (None, r\<lparr>selectQ := DataQueue\<rparr>))
          else Returns (None, r\<lparr>current_state := STATE_ERROR\<rparr>)
      | STATE_EVENT_RESPONSE \<Rightarrow>
          outcome_bind (rx_push b r) (\<lambda>r. Returns (None, r\<lparr>current_state := STATE_EVENT_LENGTH\<rparr>))
      | STATE_EVENT_LENGTH \<Rightarrow>
          outcome_bind (rx_push b r) (\<lambda>r.
            Returns (None, r\<lparr>rx_count := uint b, current_state := STATE_PACKET_WAIT\<rparr>))
      | STATE_PACKET_WAIT \<Rightarrow>
          outcome_bind (rx_push b r) (\<lambda>r.
            let r = r\<lparr>rx_count := rx_count r - 1\<rparr> in
            if rx_count r \<le> 0 then
              Returns (Some (rx_packet r, rx_index r),
                       r\<lparr>selectQ := 0, current_state := STATE_IDLE, rx_index := 0, rx_count := 0\<rparr>)
            else Returns (None, r))
      | STATE_ERROR \<Rightarrow> Returns (None, r))"

text \<open>A byte stream through a receiver step: the completed packets, in order.\<close>

primrec feed ::
  "('b \<Rightarrow> 's \<Rightarrow> ('f option \<times> 's) outcome) \<Rightarrow> 'b list \<Rightarrow> 's \<Rightarrow> ('f list \<times> 's) outcome" where
  "feed stp [] s = Returns ([], s)"
| "feed stp (b # bs) s =
     outcome_bind (stp b s) (\<lambda>(f, s1).
     outcome_bind (feed stp bs s1) (\<lambda>(fs, s2).
       Returns ((case f of None \<Rightarrow> fs | Some x \<Rightarrow> x # fs), s2)))"


subsection \<open>The receiver never leaves its array\<close>

definition rx_ok :: "rx \<Rightarrow> bool" where
  "rx_ok r \<longleftrightarrow>
     length (rx_packet r) = 2048 \<and> (current_state r = STATE_IDLE \<longrightarrow> rx_index r = 0)"

definition rx_idle :: "rx \<Rightarrow> bool" where
  "rx_idle r \<longleftrightarrow> length (rx_packet r) = 2048 \<and> current_state r = STATE_IDLE \<and> rx_index r = 0"

lemma rx_push_eq:
  "length (rx_packet r) = 2048 \<Longrightarrow>
   rx_push b r = Returns (r\<lparr>rx_packet := (rx_packet r)[unat (rx_index r) := b],
                            rx_index := rx_index r + 1\<rparr>)"
  using unat_u8_less [of "rx_index r"] by (simp add: rx_push_def)

lemmas rx_step_simps = rx_byte_def rx_wake_def rx_push_eq Let_def hci_codes

lemma rx_byte_returns:
  "rx_ok r \<Longrightarrow> \<exists>f r'. rx_byte b r = Returns (f, r') \<and> rx_ok r' \<and> (f \<noteq> None \<longrightarrow> rx_idle r')"
  by (cases "current_state r") (auto simp: rx_step_simps rx_ok_def rx_idle_def)

lemma feed_append:
  "feed stp xs s = Returns (fs, s1) \<Longrightarrow> feed stp ys s1 = Returns (gs, s2) \<Longrightarrow>
   feed stp (xs @ ys) s = Returns (fs @ gs, s2)"
  by (induction xs arbitrary: s fs)
    (auto simp: outcome_bind_eq_Returns split: prod.splits option.splits)

lemma rx_feed_returns:
  "rx_ok r \<Longrightarrow> \<exists>fs r'. feed rx_byte bs r = Returns (fs, r') \<and> rx_ok r'"
proof (induction bs arbitrary: r)
  case (Cons b bs)
  from rx_byte_returns [OF Cons.prems, of b] obtain f r1 where
    "rx_byte b r = Returns (f, r1)" "rx_ok r1" by blast
  with Cons.IH [of r1] show ?case by auto
qed simp


subsection \<open>Collecting the payload\<close>

text \<open>
  While fewer bytes than \<open>count\<close> have come in, they are stored one after the other; \<open>index\<close>
  wraps, which matters as soon as the packet is longer than 256 bytes.
\<close>

lemma feed_payload_partial:
  "current_state r = STATE_PACKET_WAIT \<Longrightarrow> length (rx_packet r) = 2048 \<Longrightarrow>
   int (length bs) < rx_count r \<Longrightarrow> unat (rx_index r) + length bs \<le> 256 \<Longrightarrow>
   feed rx_byte bs r = Returns ([],
     r\<lparr>rx_packet := take (unat (rx_index r)) (rx_packet r) @ bs @
                     drop (unat (rx_index r) + length bs) (rx_packet r),
       rx_index := rx_index r + word_of_nat (length bs),
       rx_count := rx_count r - int (length bs)\<rparr>)"
proof (induction bs arbitrary: r)
  case Nil
  then show ?case by simp
next
  case (Cons b bs)
  let ?i = "unat (rx_index r)"
  let ?r = "r\<lparr>rx_packet := (rx_packet r)[?i := b], rx_index := rx_index r + 1,
              rx_count := rx_count r - 1\<rparr>"
  have step: "rx_byte b r = Returns (None, ?r)"
    using Cons.prems by (simp add: rx_step_simps)
  show ?case
  proof (cases "bs = []")
    case True
    with step Cons.prems show ?thesis
      by (simp add: upd_conv_take_nth_drop)
  next
    case False
    then have "?i + 1 < 256" using Cons.prems by (cases bs) auto
    then have i: "unat (rx_index r + 1) = Suc ?i"
      by (simp add: unat_word_ariths)
    with Cons.IH [of ?r] Cons.prems step show ?thesis
      by (simp add: upd_conv_take_nth_drop take_Suc_conv_app_nth algebra_simps)
  qed
qed



lemma feed_None: "stp b s = Returns (None, s1) \<Longrightarrow> feed stp (b # bs) s = feed stp bs s1"
  by (cases "feed stp bs s1") auto

lemma feed_Some:
  "stp b s = Returns (Some f, s1) \<Longrightarrow> feed stp bs s1 = Returns (fs, s2) \<Longrightarrow>
   feed stp (b # bs) s = Returns (f # fs, s2)"
  by simp

declare feed.simps(2) [simp del]

lemma feed_header:
  assumes "rx_idle r"
  shows "feed rx_byte (BLE_EVT_PKT # ev # n # bs) r = feed rx_byte bs
     (r\<lparr>current_state := STATE_PACKET_WAIT, selectQ := EventQueue, rx_index := 3,
       rx_count := uint n, rx_packet := [BLE_EVT_PKT, ev, n] @ drop 3 (rx_packet r)\<rparr>)"
proof -
  let ?p = "(rx_packet r)[0 := BLE_EVT_PKT]"
  let ?q = "?p[Suc 0 := ev]"
  let ?r1 = "r\<lparr>current_state := STATE_EVENT_RESPONSE, selectQ := EventQueue,
    rx_index := 1, rx_packet := ?p\<rparr>"
  let ?r2 = "?r1\<lparr>current_state := STATE_EVENT_LENGTH, rx_index := 2, rx_packet := ?q\<rparr>"
  from assms have r: "length (rx_packet r) = 2048" "current_state r = STATE_IDLE" "rx_index r = 0"
    by (simp_all add: rx_idle_def)
  have 1: "rx_byte BLE_EVT_PKT r = Returns (None, ?r1)"
    using r by (simp add: rx_byte_def rx_wake_def rx_push_eq)
  have 2: "rx_byte ev ?r1 = Returns (None, ?r2)"
    using r by (simp add: rx_byte_def rx_wake_def rx_push_eq)
  have 3: "rx_byte n ?r2 = Returns (None, r\<lparr>current_state := STATE_PACKET_WAIT,
       selectQ := EventQueue, rx_index := 3,
       rx_count := uint n, rx_packet := [BLE_EVT_PKT, ev, n] @ drop 3 (rx_packet r)\<rparr>)"
    using r update_first3 [of "rx_packet r" BLE_EVT_PKT ev n]
    by (simp add: rx_byte_def rx_wake_def rx_push_eq)
  show ?thesis
    by (simp only: feed_None [where stp = rx_byte, OF 1]
      feed_None [where stp = rx_byte, OF 2] feed_None [where stp = rx_byte, OF 3])
qed

lemma feed_payload_at:
  "current_state r = STATE_PACKET_WAIT \<Longrightarrow> length (rx_packet r) = 2048 \<Longrightarrow>
   int (length bs) < rx_count r \<Longrightarrow> unat (rx_index r) = i \<Longrightarrow> i + length bs \<le> 256 \<Longrightarrow>
   feed rx_byte bs r = Returns ([],
     r\<lparr>rx_packet := take i (rx_packet r) @ bs @ drop (i + length bs) (rx_packet r),
       rx_index := rx_index r + word_of_nat (length bs),
       rx_count := rx_count r - int (length bs)\<rparr>)"
  using feed_payload_partial by blast

text \<open>The last byte of a packet hands it over and resets the receiver.\<close>

lemma rx_last_byte:
  assumes "current_state r = STATE_PACKET_WAIT" and "length (rx_packet r) = 2048" and "rx_count r \<le> 1"
  shows "\<exists>r'. rx_byte b r =
     Returns (Some ((rx_packet r)[unat (rx_index r) := b], rx_index r + 1), r') \<and> rx_idle r' \<and>
       rx_packet r' = (rx_packet r)[unat (rx_index r) := b]"
  using assms by (auto simp: rx_step_simps rx_idle_def)

text \<open>
  The packet array and the size the dispatcher sees after an event packet with a non-empty
  payload: up to the 256th byte the array starts with the packet itself, followed by what
  earlier packets left there.
\<close>

lemma feed_event_last:
  assumes idle: "rx_idle r" and len: "length payload = unat n" and n0: "n \<noteq> 0" and n: "unat n \<le> 253"
  shows "\<exists>bs b r1 r'. payload = bs @ [b] \<and> feed rx_byte (BLE_EVT_PKT # ev # n # bs) r = Returns ([], r1) \<and>
     rx_byte b r1 = Returns (Some ([BLE_EVT_PKT, ev, n] @ payload @ drop (3 + unat n) (rx_packet r),
       word_of_nat (3 + unat n)), r') \<and> rx_idle r'"
proof -
  from n0 len have "payload \<noteq> []" by (auto simp: unat_eq_zero)
  then obtain bs b where payload: "payload = bs @ [b]" by (cases payload rule: rev_cases) auto
  let ?r1 = "r\<lparr>current_state := STATE_PACKET_WAIT, selectQ := EventQueue, rx_index := 3,
              rx_count := uint n, rx_packet := [BLE_EVT_PKT, ev, n] @ drop 3 (rx_packet r)\<rparr>"
  let ?pkt = "[BLE_EVT_PKT, ev, n] @ bs @ drop (3 + length bs) (rx_packet r)"
  let ?r2 = "?r1\<lparr>rx_packet := ?pkt, rx_index := 3 + word_of_nat (length bs), rx_count := 1\<rparr>"
  have nbs: "unat n = Suc (length bs)" using len payload by simp
  have u: "uint n = int (length bs) + 1"
    using arg_cong [OF nbs, of int] by simp
  have lbs: "length bs \<le> 252" using len n payload by simp
  have i: "unat (3 + word_of_nat (length bs) :: u8) = 3 + length bs"
    using lbs by (simp add: unat_word_ariths unat_of_nat)
  have "feed rx_byte bs ?r1 = Returns ([], ?r1\<lparr>rx_packet := take 3 (rx_packet ?r1) @ bs @
      drop (3 + length bs) (rx_packet ?r1), rx_index := rx_index ?r1 + word_of_nat (length bs),
      rx_count := rx_count ?r1 - int (length bs)\<rparr>)"
    using idle lbs u by (intro feed_payload_at) (auto simp: rx_idle_def)
  then have fed: "feed rx_byte bs ?r1 = Returns ([], ?r2)"
    using u by (simp add: numeral_3_eq_3)
  obtain r' where last: "rx_byte b ?r2 =
      Returns (Some (?pkt[3 + length bs := b], 3 + word_of_nat (length bs) + 1), r')" and r': "rx_idle r'"
    using rx_last_byte [of ?r2 b] idle i lbs by (auto simp: rx_idle_def)
  have "?pkt[3 + length bs := b] = [BLE_EVT_PKT, ev, n] @ payload @ drop (3 + unat n) (rx_packet r)"
    using payload nbs idle lbs update_drop [of "3 + length bs" "rx_packet r" b]
    by (simp add: list_update_append rx_idle_def)
  moreover have "(3 + word_of_nat (length bs) + 1 :: u8) = word_of_nat (3 + unat n)"
    unfolding nbs by simp
  moreover have "feed rx_byte (BLE_EVT_PKT # ev # n # bs) r = Returns ([], ?r2)"
    unfolding feed_header [OF idle] by (rule fed)
  ultimately show ?thesis using r' last payload
    by (intro exI [of _ bs] exI [of _ b] exI [of _ ?r2] exI [of _ r']) simp
qed

text \<open>
  Without the bound on the length the stored bytes may be overwritten after the wrap of
  \<open>index\<close>, but the byte count, and so the size handed over, is still exact modulo 256.
\<close>

lemma feed_payload_index:
  "current_state r = STATE_PACKET_WAIT \<Longrightarrow> length (rx_packet r) = 2048 \<Longrightarrow>
   int (length bs) < rx_count r \<Longrightarrow>
   \<exists>pkt. length pkt = 2048 \<and>
     feed rx_byte bs r = Returns ([],
       r\<lparr>rx_packet := pkt, rx_index := rx_index r + word_of_nat (length bs),
         rx_count := rx_count r - int (length bs)\<rparr>)"
proof (induction bs arbitrary: r)
  case Nil
  then show ?case by (intro exI [of _ "rx_packet r"]) simp
next
  case (Cons b bs)
  let ?r = "r\<lparr>rx_packet := (rx_packet r)[unat (rx_index r) := b], rx_index := rx_index r + 1,
              rx_count := rx_count r - 1\<rparr>"
  have step: "rx_byte b r = Returns (None, ?r)"
    using Cons.prems by (simp add: rx_step_simps)
  from Cons.IH [of ?r] Cons.prems obtain pkt where "length pkt = 2048"
    "feed rx_byte bs ?r = Returns ([],
       ?r\<lparr>rx_packet := pkt, rx_index := rx_index ?r + word_of_nat (length bs),
          rx_count := rx_count ?r - int (length bs)\<rparr>)"
    by auto
  then show ?case
    by (intro exI [of _ pkt]) (simp add: feed.simps(2) step algebra_simps)
qed

lemma feed_event_size:
  assumes idle: "rx_idle r" and len: "length payload = unat n" and n0: "n \<noteq> 0"
  shows "\<exists>pkt r'. feed rx_byte (BLE_EVT_PKT # ev # n # payload) r =
            Returns ([(pkt, word_of_nat (3 + unat n))], r') \<and> rx_idle r'"
proof -
  from n0 len have "payload \<noteq> []" by (auto simp: unat_eq_zero)
  then obtain bs b where payload: "payload = bs @ [b]" by (cases payload rule: rev_cases) auto
  have nbs: "unat n = Suc (length bs)" using len payload by simp
  have u: "uint n = int (length bs) + 1"
    using arg_cong [OF nbs, of int] by simp
  let ?r1 = "r\<lparr>current_state := STATE_PACKET_WAIT, selectQ := EventQueue, rx_index := 3,
              rx_count := uint n, rx_packet := [BLE_EVT_PKT, ev, n] @ drop 3 (rx_packet r)\<rparr>"
  obtain pkt where len_pkt: "length pkt = 2048" and fed: "feed rx_byte bs ?r1 = Returns ([],
       ?r1\<lparr>rx_packet := pkt, rx_index := rx_index ?r1 + word_of_nat (length bs),
           rx_count := rx_count ?r1 - int (length bs)\<rparr>)" (is "_ = Returns ([], ?r2)")
    using feed_payload_index [of ?r1 bs] idle u by (auto simp: rx_idle_def)
  obtain r' where "rx_byte b ?r2 =
      Returns (Some ((rx_packet ?r2)[unat (rx_index ?r2) := b], rx_index ?r2 + 1), r')" "rx_idle r'"
    using rx_last_byte [of ?r2 b] len_pkt u by auto
  then have last: "rx_byte b ?r2 =
      Returns (Some ((rx_packet ?r2)[unat (rx_index ?r2) := b], word_of_nat (3 + unat n)), r')"
    unfolding nbs by simp
  show ?thesis
    unfolding feed_header [OF idle] payload
    using feed_append [OF fed feed_Some [where stp = rx_byte, OF last, of "[]"]] \<open>rx_idle r'\<close> by auto
qed

text \<open>An event of declared length zero is only handed over with the byte that follows it.\<close>

lemma feed_empty_event:
  assumes idle: "rx_idle r"
  shows "\<exists>r'. feed rx_byte [BLE_EVT_PKT, ev, 0, b] r =
            Returns ([([BLE_EVT_PKT, ev, 0, b] @ drop 4 (rx_packet r), 4)], r') \<and> rx_idle r'"
proof -
  let ?r1 = "r\<lparr>current_state := STATE_PACKET_WAIT, selectQ := EventQueue, rx_index := 3,
              rx_count := 0, rx_packet := [BLE_EVT_PKT, ev, 0] @ drop 3 (rx_packet r)\<rparr>"
  have "Suc (Suc (Suc 0)) < length (rx_packet r)" using idle by (simp add: rx_idle_def)
  then have upd: "(rx_packet ?r1)[3 := b] = [BLE_EVT_PKT, ev, 0, b] @ drop 4 (rx_packet r)"
    using update_drop [of 3 "rx_packet r" b] by (simp add: numeral_eq_Suc)
  obtain r' where "rx_byte b ?r1 = Returns (Some ((rx_packet ?r1)[3 := b], 4), r')" "rx_idle r'"
    using rx_last_byte [of ?r1 b] idle by (auto simp: rx_idle_def)
  then show ?thesis
    unfolding feed_header [OF idle] upd using feed_Some [where stp = rx_byte, of b ?r1] by auto
qed

text \<open>The error state has no way out.\<close>

lemma rx_error_stuck: "current_state r = STATE_ERROR \<Longrightarrow> feed rx_byte bs r = Returns ([], r)"
  by (induction bs) (auto simp: feed.simps(2) rx_byte_def rx_wake_def)

lemma rx_async_error:
  assumes idle: "rx_idle r" and b: "b \<noteq> BLE_EVT_PKT" "b \<noteq> BLE_ASD_PKT"
  shows "\<exists>r'. feed rx_byte (BLE_ASD_PKT # b # bs) r = Returns ([], r') \<and> current_state r' = STATE_ERROR"
proof -
  let ?r1 = "r\<lparr>current_state := STATE_INIT, selectQ := DataQueue, rx_index := 1,
    rx_packet := (rx_packet r)[0 := BLE_ASD_PKT]\<rparr>"
  have 1: "rx_byte BLE_ASD_PKT r = Returns (None, ?r1)"
    using idle by (simp add: rx_byte_def rx_wake_def rx_push_eq rx_idle_def BLE_EVT_PKT_def BLE_ASD_PKT_def)
  have 2: "rx_byte b ?r1 = Returns (None, ?r1\<lparr>current_state := STATE_ERROR\<rparr>)"
    using b by (simp add: rx_byte_def rx_wake_def)
  show ?thesis
    using rx_error_stuck [of "?r1\<lparr>current_state := STATE_ERROR\<rparr>" bs]
    by (simp only: feed_None [where stp = rx_byte, OF 1] feed_None [where stp = rx_byte, OF 2]) auto
qed

text \<open>Bytes that are no packet type are skipped in the idle state.\<close>

lemma rx_noise:
  "rx_idle r \<Longrightarrow> list_all (\<lambda>b. b \<noteq> BLE_EVT_PKT \<and> b \<noteq> BLE_ASD_PKT) bs \<Longrightarrow>
   \<exists>c. feed rx_byte bs r = Returns ([], r\<lparr>rx_count := c\<rparr>)"
proof (induction bs arbitrary: r)
  case Nil
  show ?case by (intro exI [of _ "rx_count r"]) simp
next
  case (Cons b bs)
  then have step: "rx_byte b r = Returns (None, r\<lparr>rx_count := 0\<rparr>)"
    by (simp add: rx_byte_def rx_wake_def rx_idle_def)
  from Cons.IH [of "r\<lparr>rx_count := 0\<rparr>"] Cons.prems show ?case
    by (auto simp: feed.simps(2) step rx_idle_def)
qed

text \<open>Within a packet the state only moves forward through the enumeration.\<close>

lemma rx_state_mono:
  "rx_byte b r = Returns (None, r') \<Longrightarrow> current_state r \<le> current_state r'"
  by (cases "current_state r")
    (auto simp: rx_byte_def rx_wake_def rx_push_def store_def less_eq_State_t_def Let_def
      split: if_splits)


subsection \<open>Receiving a stream of frames\<close>

text \<open>
  The contract of a receiver: from an idle state one well-formed frame yields exactly one
  delivery, whose bytes are the frame, and leaves the receiver idle again.  A stream of
  frames is then delivered frame by frame.
\<close>

locale frame_receiver =
  fixes stp :: "'b \<Rightarrow> 's \<Rightarrow> ('f option \<times> 's) outcome"
    and idle :: "'s \<Rightarrow> bool"
    and frame :: "'b list \<Rightarrow> bool"
    and delivered :: "'f \<Rightarrow> 'b list"
  assumes one_frame: "idle s \<Longrightarrow> frame fr \<Longrightarrow>
    \<exists>f s'. feed stp fr s = Returns ([f], s') \<and> idle s' \<and> delivered f = fr"
begin

lemma frame_stream:
  "idle s \<Longrightarrow> list_all frame frs \<Longrightarrow>
   \<exists>fs s'. feed stp (concat frs) s = Returns (fs, s') \<and> idle s' \<and> map delivered fs = frs"
proof (induction frs arbitrary: s)
  case Nil
  then show ?case by simp
next
  case (Cons fr frs)
  from one_frame [of s fr] Cons.prems obtain f s1 where
    1: "feed stp fr s = Returns ([f], s1)" "idle s1" "delivered f = fr" by auto
  from Cons.IH [OF 1(2)] Cons.prems(2) obtain fs s2 where
    2: "feed stp (concat frs) s1 = Returns (fs, s2)" "idle s2" "map delivered fs = frs" by auto
  from feed_append [OF 1(1) 2(1)] 1 2 show ?case by auto
qed

end

definition event_frame :: "u8 list \<Rightarrow> bool" where
  "event_frame fr =
     (case fr of
        t # ev # n # payload \<Rightarrow>
          t = BLE_EVT_PKT \<and> length payload = unat n \<and> 1 \<le> unat n \<and> unat n \<le> 252
      | _ \<Rightarrow> False)"

definition delivered_bytes :: "u8 list \<times> u8 \<Rightarrow> u8 list" where
  "delivered_bytes f = take (unat (snd f)) (fst f)"

text \<open>The last byte of a frame completes the packet, and no byte before it does.\<close>

lemma frame_last:
  assumes idle: "rx_idle r" and "event_frame fr"
  shows "\<exists>bs b r1 f r'. fr = bs @ [b] \<and> feed rx_byte bs r = Returns ([], r1) \<and>
     rx_byte b r1 = Returns (Some f, r') \<and> rx_idle r' \<and> delivered_bytes f = fr"
proof -
  obtain ev n payload where fr: "fr = BLE_EVT_PKT # ev # n # payload"
    and len: "length payload = unat n" and n: "1 \<le> unat n" "unat n \<le> 252"
    using assms(2) by (auto simp: event_frame_def split: list.splits)
  have "n \<noteq> 0" using n by auto
  with feed_event_last [OF idle len, of ev] n obtain bs b r1 r' where bs: "payload = bs @ [b]"
    "feed rx_byte (BLE_EVT_PKT # ev # n # bs) r = Returns ([], r1)"
    and last: "rx_byte b r1 = Returns (Some ([BLE_EVT_PKT, ev, n] @ payload @ drop (3 + unat n) (rx_packet r),
       word_of_nat (3 + unat n)), r')" and r': "rx_idle r'"
    by auto
  have "unat (word_of_nat (3 + unat n) :: u8) = 3 + unat n"
    using n by (intro unat_of_nat_u8) simp
  then have "delivered_bytes ([BLE_EVT_PKT, ev, n] @ payload @ drop (3 + unat n) (rx_packet r),
      word_of_nat (3 + unat n)) = fr"
    unfolding delivered_bytes_def fst_conv snd_conv using len by (simp add: fr numeral_3_eq_3)
  with bs last r' show ?thesis
    by (intro exI [of _ "BLE_EVT_PKT # ev # n # bs"] exI [of _ b] exI [of _ r1]) (auto simp: fr)
qed

interpretation rx_frames: frame_receiver rx_byte rx_idle event_frame delivered_bytes
proof
  fix r fr
  assume "rx_idle r" and "event_frame fr"
  then obtain bs b r1 f r' where f: "fr = bs @ [b]" "feed rx_byte bs r = Returns ([], r1)"
    "rx_byte b r1 = Returns (Some f, r')" "rx_idle r'" "delivered_bytes f = fr"
    using frame_last by blast
  from feed_append [OF f(2) feed_Some [where stp = rx_byte, OF f(3), of "[]"]] f
  show "\<exists>f s'. feed rx_byte fr r = Returns ([f], s') \<and> rx_idle s' \<and> delivered_bytes f = fr" by auto
qed

subsection \<open>Properties of the receiver\<close>

text \<open>C16: Whatever bytes arrive, in whatever order, the receiver never writes outside
  \<open>rx_packet\<close> and never stops consuming: from every state with the array in place, every byte
  sequence is processed to the end, and the array keeps its 2048 bytes.\<close>

theorem rx_total:
  "rx_ok r \<Longrightarrow> \<exists>fs r'. feed rx_byte bs r = Returns (fs, r') \<and> rx_ok r'"
  by (rule rx_feed_returns)

definition demo_rx :: rx where
  "demo_rx = rx_init 77 (replicate 2048 0xAA)"

lemma demo_rx_idle: "rx_idle demo_rx"
  by (simp add: demo_rx_def rx_idle_def rx_init_def)

lemma rx_idle_ok: "rx_idle r \<Longrightarrow> rx_ok r"
  by (simp add: rx_idle_def rx_ok_def)

theorem rx_total_witness:
  "\<exists>fs r'. feed rx_byte [0x02, 0x04, 0xFF, 0x00] demo_rx = Returns (fs, r') \<and> rx_ok r'"
  by (rule rx_total) (simp add: rx_idle_ok demo_rx_idle)

text \<open>C3: Framing round trip: any concatenation of well-formed event frames (1 to 252 payload
  bytes) that reaches an idle receiver is handed to the dispatcher frame by frame: the first
  \<open>index\<close> bytes of \<open>rx_packet\<close> at the k-th hand-over are exactly the k-th frame, nothing is
  lost, merged or added, and the receiver is idle again.\<close>

theorem rx_stream_roundtrip:
  "rx_idle r \<Longrightarrow> list_all event_frame frs \<Longrightarrow>
   \<exists>fs r'. feed rx_byte (concat frs) r = Returns (fs, r') \<and> rx_idle r' \<and> map delivered_bytes fs = frs"
  by (rule rx_frames.frame_stream)

theorem rx_stream_roundtrip_witness:
  "\<exists>fs r'. feed rx_byte (concat [[0x04, 0xFF, 0x02, 0x01, 0x06], [0x04, 0x0E, 0x01, 0x07]]) demo_rx =
       Returns (fs, r') \<and> rx_idle r' \<and>
     map delivered_bytes fs = [[0x04, 0xFF, 0x02, 0x01, 0x06], [0x04, 0x0E, 0x01, 0x07]]"
  by (rule rx_stream_roundtrip [OF demo_rx_idle]) (simp add: event_frame_def BLE_EVT_PKT_def)

text \<open>Wrap-around of the 8-bit \<open>index\<close>: the length handed to the dispatcher after an event
  with \<open>n\<close> payload bytes is \<open>3 + n\<close> up to \<open>n = 252\<close> and \<open>n - 253\<close> from there on, so an event
  with 253 to 255 payload bytes is forwarded as a message of 0 to 2 bytes.\<close>

lemma rx_length_wraps:
  assumes "rx_idle r" and "length payload = unat n" and "n \<noteq> 0"
  shows "\<exists>pkt k r'. feed rx_byte (BLE_EVT_PKT # ev # n # payload) r = Returns ([(pkt, k)], r') \<and>
     unat k = (if unat n \<le> 252 then unat n + 3 else unat n - 253)"
proof -
  obtain pkt r' where f: "feed rx_byte (BLE_EVT_PKT # ev # n # payload) r =
      Returns ([(pkt, word_of_nat (3 + unat n))], r')"
    using feed_event_size [OF assms] by blast
  have "unat (word_of_nat (3 + unat n) :: u8) = (3 + unat n) mod 256"
    by (simp add: unat_word_ariths)
  also have "\<dots> = (if unat n \<le> 252 then unat n + 3 else unat n - 253)"
    using unat_u8_less [of n] by (auto simp: mod_if)
  finally show ?thesis using f by blast
qed

lemma rx_length_wraps_witness:
  "\<exists>pkt k r'. feed rx_byte (BLE_EVT_PKT # 0xFF # 254 # replicate 254 7) demo_rx =
       Returns ([(pkt, k)], r') \<and>
     unat k = (if unat (254 :: u8) \<le> 252 then unat (254 :: u8) + 3 else unat (254 :: u8) - 253)"
  by (rule rx_length_wraps [OF demo_rx_idle]) simp_all

text \<open>An event that declares a length of 0 is not handed over when it is complete: it takes
  the next byte of the stream, whatever it is, as its payload.\<close>

lemma rx_empty_event:
  assumes "rx_idle r"
  shows "\<exists>r0 r'. feed rx_byte [BLE_EVT_PKT, ev, 0] r = Returns ([], r0) \<and>
     feed rx_byte [b] r0 = Returns ([([BLE_EVT_PKT, ev, 0, b] @ drop 4 (rx_packet r), 4)], r') \<and> rx_idle r'"
proof -
  let ?r1 = "r\<lparr>current_state := STATE_PACKET_WAIT, selectQ := EventQueue, rx_index := 3,
              rx_count := uint (0 :: u8), rx_packet := [BLE_EVT_PKT, ev, 0] @ drop 3 (rx_packet r)\<rparr>"
  have 1: "feed rx_byte [BLE_EVT_PKT, ev, 0] r = Returns ([], ?r1)"
    using feed_header [OF assms, of ev 0 "[]"] by simp
  obtain r' where 2: "feed rx_byte [BLE_EVT_PKT, ev, 0, b] r =
      Returns ([([BLE_EVT_PKT, ev, 0, b] @ drop 4 (rx_packet r), 4)], r')" and r': "rx_idle r'"
    using feed_empty_event [OF assms] by blast
  from 2 have "feed rx_byte [b] ?r1 = Returns ([([BLE_EVT_PKT, ev, 0, b] @ drop 4 (rx_packet r), 4)], r')"
    unfolding feed_header [OF assms] by simp
  with 1 r' show ?thesis by blast
qed

lemma rx_empty_event_witness:
  "\<exists>r0 r'. feed rx_byte [BLE_EVT_PKT, 0x0E, 0] demo_rx = Returns ([], r0) \<and>
     feed rx_byte [0x04] r0 =
       Returns ([([BLE_EVT_PKT, 0x0E, 0, 0x04] @ drop 4 (rx_packet demo_rx), 4)], r') \<and> rx_idle r'"
  by (rule rx_empty_event [OF demo_rx_idle])

text \<open>One asynchronous-data byte 0x02 followed by anything but 0x02 or 0x04 puts the receiver
  into \<open>STATE_ERROR\<close>, and no later byte sequence produces a packet again.\<close>

lemma rx_error_final:
  assumes "rx_idle r" and "b \<noteq> BLE_EVT_PKT" and "b \<noteq> BLE_ASD_PKT"
  shows "\<exists>r'. feed rx_byte (BLE_ASD_PKT # b # bs) r = Returns ([], r') \<and> current_state r' = STATE_ERROR"
  using assms by (rule rx_async_error)

lemma rx_error_final_witness:
  "\<exists>r'. feed rx_byte (BLE_ASD_PKT # 0x11 # [0x04, 0xFF, 0x01, 0x00]) demo_rx = Returns ([], r') \<and>
     current_state r' = STATE_ERROR"
  by (rule rx_error_final [OF demo_rx_idle]) (simp_all add: BLE_EVT_PKT_def BLE_ASD_PKT_def)

end
