(* ===== verification/Rx_Dispatch.thy ===== *)
theory Rx_Dispatch
  imports Rx_Parser Conn_Table Commands
begin

text \<open>
  What \<open>UartCmdRxThread\<close> does with a completed packet: the chain of tests on its bytes and,
  per branch, the queue sends, acknowledgements and table updates in program order.
  \<open>dispatch\<close> computes the actions of one packet, \<open>run_action\<close> performs one of them on the
  shared state; printing is left out.
\<close>

subsection \<open>The queues of the thread\<close>

text \<open>
  \<open>Pipe_1_Id\<close>, \<open>Pipe_2_Id\<close> and \<open>Pipe_3_Id\<close> are declared without an initial value and no
  statement assigns them; they are indeterminate.
\<close>

record rx_queues =
  CommandRespQId :: int
  PING_PKT_RSP_ID :: int
  RX_WRITE_RSP_ID :: int
  Pipe_0_Id :: int
  Pipe_1_Id :: int
  Pipe_2_Id :: int
  Pipe_3_Id :: int

primrec init_queues :: "int list \<Rightarrow> kernel \<Rightarrow> int list \<times> kernel" where
  "init_queues [] k = ([], k)"
| "init_queues (key # keys) k =
     (let (qid, k1) = sys_mq_init k key; (qids, k2) = init_queues keys k1 in (qid # qids, k2))"

text \<open>The keys in the order the thread initialises them.\<close>

definition rx_keys :: "int list" where
  "rx_keys = [1990, 1991, 1993, 1994, COMMANDRESP_THREAD_QUEUE_KEY, 1997, PING_PKT_KEY,
              WRITE_RSP_KEY, CONN_PIPE_0_KEY]"

definition rx_thread_init :: "int \<Rightarrow> int \<Rightarrow> int \<Rightarrow> kernel \<Rightarrow> rx_queues \<times> kernel" where
  "rx_thread_init junk1 junk2 junk3 k =
     (let (qids, k') = init_queues rx_keys k in
      (\<lparr>CommandRespQId = qids ! 4, PING_PKT_RSP_ID = qids ! 6, RX_WRITE_RSP_ID = qids ! 7,
        Pipe_0_Id = qids ! 8, Pipe_1_Id = junk1, Pipe_2_Id = junk2, Pipe_3_Id = junk3\<rparr>, k'))"


subsection \<open>Actions\<close>

datatype rx_action =
    Mq_Send int "u8 list" u8      \<comment> \<open>\<open>sys_mq_send(queue, rx_packet, index)\<close>\<close>
  | Data_Ack int                  \<comment> \<open>\<open>data_ack(idz)\<close>\<close>
  | Clear_Status u16              \<comment> \<open>\<open>Conn_Device_List[h].status = 0\<close>\<close>
  | Upd_Disconnection u16         \<comment> \<open>\<open>Upadate_Disconnection(h)\<close>\<close>

primrec run_action :: "rx_action \<Rightarrow> globals \<Rightarrow> globals outcome" where
  "run_action (Mq_Send qid pkt n) g =
     outcome_bind (sys_mq_send MTEXT_SIZE (kern g) qid pkt (ucast n)) (\<lambda>(r, k). Returns (g\<lparr>kern := k\<rparr>))"
| "run_action (Data_Ack idz) g = outcome_bind (data_ack idz g) (\<lambda>(v, g'). Returns g')"
| "run_action (Clear_Status h) g = clear_status h g"
| "run_action (Upd_Disconnection h) g = Returns (Upadate_Disconnection h g)"

primrec run_actions :: "rx_action list \<Rightarrow> globals \<Rightarrow> globals outcome" where
  "run_actions [] g = Returns g"
| "run_actions (a # as) g = outcome_bind (run_action a g) (run_actions as)"


subsection \<open>The chain of tests\<close>

definition vendor_event :: "u8 list \<Rightarrow> bool" where
  "vendor_event p \<longleftrightarrow> p ! 0 = BLE_EVT_PKT \<and> p ! 1 = 0xFF"

definition event_code :: "u8 list \<Rightarrow> u16" where
  "event_code p = MAKE16OFXY (p ! 4) (p ! 3)"

definition event_opcode :: "u8 list \<Rightarrow> u16" where
  "event_opcode p = MAKE16OFXY (p ! 7) (p ! 6)"

definition dispatch_status :: "rx_queues \<Rightarrow> u8 list \<Rightarrow> u8 \<Rightarrow> rx_action list" where
  "dispatch_status qs p n =
     (let opc = event_opcode p in
      if opc = GATT_DELSERVICE then []
      else if opc = 0xFD9B then [Mq_Send (RX_WRITE_RSP_ID qs) p n]
      else if opc = VS_ATT_WRITE_RESPONSE then []
      else if opc = 0xFD92 then [Mq_Send (RX_WRITE_RSP_ID qs) p n]
      else if opc = 0xFDB6 then []
      else if opc = 0xFE30 then []
      else if opc = 0xFDFC \<or> opc = 0xFDFE then []
      else if opc = 0xFE06 \<or> opc = 0xFE07 then []
      else if opc = 0xFE06 \<or> opc = 0xFE08 then [Mq_Send (CommandRespQId qs) p n]
      else [Mq_Send (CommandRespQId qs) p n])"

definition send_pipe :: "rx_queues \<Rightarrow> u8 list \<Rightarrow> u8 \<Rightarrow> rx_action list" where
  "send_pipe qs p n =
     (if p ! 6 = 0x00 then [Mq_Send (Pipe_0_Id qs) p n]
      else if p ! 6 = 0x01 then [Mq_Send (Pipe_1_Id qs) p n]
      else if p ! 6 = 0x02 then [Mq_Send (Pipe_2_Id qs) p n]
      else if p ! 6 = 0x03 then [Mq_Send (Pipe_3_Id qs) p n]
      else [])"

definition dispatch_link_terminated :: "rx_queues \<Rightarrow> u8 list \<Rightarrow> u8 \<Rightarrow> rx_action list" where
  "dispatch_link_terminated qs p n =
     (let handle = MAKE16OFXY (p ! 7) (p ! 6) in
      [Clear_Status handle]
      @ (if p ! 8 = 0x3E then [Mq_Send (CommandRespQId qs) p n] else [])
      @ [Upd_Disconnection handle])"

definition dispatch_write_request :: "rx_queues \<Rightarrow> u8 list \<Rightarrow> u8 \<Rightarrow> rx_action list" where
  "dispatch_write_request qs p n =
     (if p ! 13 = 0x30 \<and> p ! 14 = 0x31 then [Mq_Send (CommandRespQId qs) p n]
      else if p ! 11 = 0x05 \<or> p ! 11 = 0x09 then [Mq_Send (CommandRespQId qs) p n]
      else if p ! 13 = 0x50 \<and> p ! 14 = 0x42 \<and> p ! 31 = 0x50 \<and> p ! 32 = 0x45
        then [Mq_Send (PING_PKT_RSP_ID qs) p n]
      else if MAKE16OFXY (p ! 12) (p ! 11) = 0x0003 then send_pipe qs p n
      else [])
     @ [Data_Ack (uint (p ! 6))]"

definition dispatch :: "rx_queues \<Rightarrow> u8 list \<Rightarrow> u8 \<Rightarrow> rx_action list" where
  "dispatch qs p n =
     (let vendor = vendor_event p; code = event_code p; opc = event_opcode p;
          to_command = [Mq_Send (CommandRespQId qs) p n] in
      if p ! 0 = BLE_EVT_PKT \<and> p ! 1 = 0x10 then []
      else if vendor \<and> opc = 0xFC06 then []
      else if vendor \<and> opc = 0xFC21 then []
      else if vendor \<and> code = 0x0604 then []
      else if p ! 0 = BLE_EVT_PKT \<and> p ! 1 = 0x0E then []
      else if p ! 0 = BLE_EVT_PKT \<and> p ! 1 = 0x0E then to_command
      else if vendor \<and> code = VS_GAP_LINK_PARAMETER_UPDATE then []
      else if vendor \<and> code = EVENT_VS_ATT_READ_BY_TYPE_REQUEST then to_command
      else if vendor \<and> code = EVENT_VS_ATT_READ_BY_GROUP_TYPE_REQUEST then to_command
      else if vendor \<and> code = EVENT_VS_ATT_READ_REQUEST then to_command
      else if vendor \<and> code = EVENT_VS_ATT_EXCHANGE_MTU_REQUEST then to_command
      else if vendor \<and> code = VS_GAP_ADVERT_DATA_UPDATE_DONE then []
      else if vendor \<and> code = VS_GAP_MAKE_DISCOVERABLE_DONE then []
      else if vendor \<and> code = VS_COMMAND_STATUS then dispatch_status qs p n
      else if vendor \<and> code = VS_GAP_DEVICE_INFORMATION then to_command
      else if vendor \<and> code = VS_GAP_LINK_ESTABLISHED then to_command
      else if vendor \<and> code = VS_GAP_DEVICE_DISCOVERY then to_command
      else if vendor \<and> code = VS_TI_ATT_READ_BY_TYPE_RESPONSE then to_command
      else if vendor \<and> code = VS_ATT_WRITE_RESPONSE_EVENT then []
      else if vendor \<and> code = VS_GAP_LINK_TERMINATED then dispatch_link_terminated qs p n
      else if vendor \<and> code = EVENT_VS_ATT_HANDLE_VALUE_NOTIFICATION then send_pipe qs p n
      else if vendor \<and> (code = EVENT_VS_ATT_WRITE_REQUEST \<or> code = EVENT_VS_ATT_PREPARE_WRITE_REQUEST)
        then dispatch_write_request qs p n
      else [])"


subsection \<open>What can reach a queue\<close>

lemmas dispatch_defs = dispatch_def dispatch_status_def dispatch_link_terminated_def
  dispatch_write_request_def send_pipe_def

lemma dispatch_not_vendor: "\<not> vendor_event p \<Longrightarrow> dispatch qs p n = []"
  by (simp add: dispatch_def Let_def)

lemma list_all_if: "list_all P xs \<Longrightarrow> list_all P ys \<Longrightarrow> list_all P (if b then xs else ys)"
  by simp

primrec carries :: "u8 list \<Rightarrow> u8 \<Rightarrow> rx_action \<Rightarrow> bool" where
  "carries p n (Mq_Send q p' n') \<longleftrightarrow> p' = p \<and> n' = n"
| "carries p n (Data_Ack idz) \<longleftrightarrow> True"
| "carries p n (Clear_Status h) \<longleftrightarrow> True"
| "carries p n (Upd_Disconnection h) \<longleftrightarrow> True"

text \<open>Every message the thread sends is the whole packet with the length the parser counted.\<close>

lemma send_pipe_carries: "list_all (carries p n) (send_pipe qs p n)"
  by (simp add: send_pipe_def)

lemma dispatch_status_carries: "list_all (carries p n) (dispatch_status qs p n)"
  by (simp add: dispatch_status_def Let_def)

lemma dispatch_link_terminated_carries: "list_all (carries p n) (dispatch_link_terminated qs p n)"
  by (simp add: dispatch_link_terminated_def Let_def)

lemma dispatch_write_request_carries: "list_all (carries p n) (dispatch_write_request qs p n)"
  by (simp add: dispatch_write_request_def send_pipe_carries)

lemmas branch_carries = send_pipe_carries dispatch_status_carries
  dispatch_link_terminated_carries dispatch_write_request_carries

lemma dispatch_carries: "list_all (carries p n) (dispatch qs p n)"
  unfolding dispatch_def Let_def
  by (intro list_all_if branch_carries) simp_all

text \<open>One action of the thread keeps the shared state well-formed.\<close>

lemma run_action_ok [keeps_wf]: "globals_ok g \<Longrightarrow> on_return globals_ok (run_action a g)"
proof (cases a)
  case (Mq_Send q p n)
  assume g: "globals_ok g"
  then have "on_return (\<lambda>(r, k). kernel_ok MTEXT_SIZE k) (sys_mq_send MTEXT_SIZE (kern g) q p (ucast n))"
    by (intro sys_mq_send_ok) (simp add: globals_ok_def)
  with g show ?thesis
    by (cases "sys_mq_send MTEXT_SIZE (kern g) q p (ucast n)") (auto simp: Mq_Send globals_ok_def)
qed (auto simp: data_ack_def send_pac_eq clear_status_ok Upadate_Disconnection_ok)


lemma run_actions_ok [keeps_wf]: "globals_ok g \<Longrightarrow> on_return globals_ok (run_actions as g)"
proof (induction as arbitrary: g)
  case (Cons a as)
  with run_action_ok [OF Cons.prems, of a] show ?case
    by (cases "run_action a g") simp_all
qed simp


subsection \<open>Routing of the events\<close>

text \<open>The events that go to the central thread unconditionally.\<close>

definition command_events :: "u16 list" where
  "command_events =
     [EVENT_VS_ATT_READ_BY_TYPE_REQUEST, EVENT_VS_ATT_READ_BY_GROUP_TYPE_REQUEST,
      EVENT_VS_ATT_READ_REQUEST, EVENT_VS_ATT_EXCHANGE_MTU_REQUEST, VS_GAP_DEVICE_INFORMATION,
      VS_GAP_LINK_ESTABLISHED, VS_GAP_DEVICE_DISCOVERY, VS_TI_ATT_READ_BY_TYPE_RESPONSE]"

text \<open>
  The test on bytes 6 and 7 comes before the tests on the event code, so it also applies to
  events whose bytes 6 and 7 are no opcode.
\<close>

definition shadowed :: "u8 list \<Rightarrow> bool" where
  "shadowed p \<longleftrightarrow> event_opcode p = 0xFC06 \<or> event_opcode p = 0xFC21"

lemma vendor_eventD: "vendor_event p \<Longrightarrow> p ! Suc 0 = 0xFF"
  by (simp add: vendor_event_def)

lemma dispatch_vendor:
  "vendor_event p \<Longrightarrow> \<not> shadowed p \<Longrightarrow> event_code p = code \<Longrightarrow>
   dispatch qs p n =
     (if code \<in> set command_events then [Mq_Send (CommandRespQId qs) p n]
      else if code = VS_COMMAND_STATUS then dispatch_status qs p n
      else if code = VS_GAP_LINK_TERMINATED then dispatch_link_terminated qs p n
      else if code = EVENT_VS_ATT_HANDLE_VALUE_NOTIFICATION then send_pipe qs p n
      else if code = EVENT_VS_ATT_WRITE_REQUEST \<or> code = EVENT_VS_ATT_PREPARE_WRITE_REQUEST
        then dispatch_write_request qs p n
      else [])"
  by (simp add: dispatch_def Let_def shadowed_def vendor_eventD command_events_def hci_codes)

lemma dispatch_shadowed: "vendor_event p \<Longrightarrow> shadowed p \<Longrightarrow> dispatch qs p n = []"
  unfolding shadowed_def
  by (elim disjE) (simp_all add: dispatch_def Let_def)

lemma dispatch_status_other:
  "event_opcode p \<notin> {0xFDFD, 0xFD9B, 0xFD13, 0xFD92, 0xFDB6, 0xFE30, 0xFDFC, 0xFDFE, 0xFE06, 0xFE07} \<Longrightarrow>
   dispatch_status qs p n = [Mq_Send (CommandRespQId qs) p n]"
  by (simp add: dispatch_status_def Let_def hci_codes)


subsection \<open>Effect of the actions\<close>

lemma run_actions_append:
  "run_actions (as @ bs) g = outcome_bind (run_actions as g) (run_actions bs)"
proof (induction as arbitrary: g)
  case (Cons a as)
  then show ?case by (cases "run_action a g") simp_all
qed simp

text \<open>A packet of more than 100 bytes does not fit the message structure.\<close>

lemma send_too_long:
  "MTEXT_SIZE < unat n \<Longrightarrow> run_action (Mq_Send q p n) g = Fault (Overflow MTEXT_SIZE (unat n))"
  by (simp add: sys_mq_send_def unsigned_ucast_eq take_bit_eq_mod less_trans [OF unat_u8_less])

text \<open>An acknowledgement is one UART write, whatever the kernel answers to it.\<close>

lemma run_ack:
  "run_action (Data_Ack (uint b)) g = Returns (logged [1, 0x13, 0xFD, 2, b, 0] g)"
proof -
  have "MSBYTEOF16BIT (ucast b) = 0" and "LSBYTEOF16BIT (ucast b) = b"
    by (rule bit_word_eqI; auto simp: byte_bits)+
  then show ?thesis
    by (simp add: data_ack_def send_pac_eq Notify_Ack_pac_def)
qed

lemma run_send_delivers:
  assumes "contents (kern g) q = Some ms" and "unat n \<le> MTEXT_SIZE" and "unat n \<le> length p"
    and "room MTEXT_SIZE (kern g) q (Suc j)"
  shows "\<exists>k'. run_action (Mq_Send q p n) g = Returns (g\<lparr>kern := k'\<rparr>) \<and>
           contents k' = (contents (kern g))(q \<mapsto> ms @ [take (unat n) p]) \<and> room MTEXT_SIZE k' q j"
proof -
  have n: "unat (ucast n :: u16) = unat n"
    by (simp add: unsigned_ucast_eq take_bit_eq_mod less_trans [OF unat_u8_less])
  from send_appends [OF assms(1) _ _ assms(4), of "ucast n" p] assms(2,3)
  show ?thesis by (auto simp: n)
qed

subsection \<open>Queue identifiers\<close>

text \<open>The queue ids \<open>UartCmdRxThread\<close> obtains belong to their keys.\<close>

lemma init_queues_known:
  "kernel_ok cap k \<Longrightarrow> init_queues keys k = (qids, k') \<Longrightarrow>
   kernel_ok cap k' \<and> list_all2 (known k') keys qids \<and> (\<forall>key q. known k key q \<longrightarrow> known k' key q)"
proof (induction keys arbitrary: k qids k')
  case (Cons key keys)
  obtain q k1 where 1: "sys_mq_init k key = (q, k1)" by force
  obtain qs k2 where 2: "init_queues keys k1 = (qs, k2)" by force
  have k1: "kernel_ok cap k1" "known k1 key q"
    using sys_mq_init_ok [OF Cons.prems(1), of key] sys_mq_init_known_id [OF Cons.prems(1) 1] 1 by auto
  have "known k1 key' q'" if "known k key' q'" for key' q'
    using known_sys_mq_init [OF Cons.prems(1) that, of key] 1 by simp
  with Cons.IH [OF k1(1) 2] k1(2) Cons.prems(2) 1 2 show ?case by auto
qed simp

lemma rx_thread_init_known:
  assumes "kernel_ok cap k" and "rx_thread_init j1 j2 j3 k = (qs, k')"
  shows "kernel_ok cap k' \<and> known k' COMMANDRESP_THREAD_QUEUE_KEY (CommandRespQId qs) \<and>
         known k' WRITE_RSP_KEY (RX_WRITE_RSP_ID qs) \<and> known k' CONN_PIPE_0_KEY (Pipe_0_Id qs) \<and>
         (\<forall>key q. known k key q \<longrightarrow> known k' key q)"
proof -
  obtain qids where i: "init_queues rx_keys k = (qids, k')"
    using assms(2) by (auto simp: rx_thread_init_def split: prod.splits)
  from init_queues_known [OF assms(1) i] have l: "list_all2 (known k') rx_keys qids" by blast
  then have "known k' (rx_keys ! i) (qids ! i)" if "i < 9" for i
    using that by (auto simp: list_all2_conv_all_nth rx_keys_def)
  from this [of 4] this [of 7] this [of 8] init_queues_known [OF assms(1) i] i assms(2) show ?thesis
    by (auto simp: rx_thread_init_def rx_keys_def)
qed

subsection \<open>Properties of the dispatcher\<close>

text \<open>
  The routing as tables of codes, independent of the chain of tests: where the packet of an event
  goes, and for a status report (0x067F), where that of the reported command goes.  Codes not in
  the first table are dropped, commands not in the second go to the central thread.
\<close>

datatype rx_target = Nowhere | To_Central | To_Writes | To_Pings | To_Pipe nat
datatype rx_route = Always rx_target | By_Opcode | By_Connection | Of_Request | Of_Termination

definition event_routes :: "(nat \<times> rx_route) list" where
  "event_routes =
     [(0x0502, Always To_Central), (0x0508, Always To_Central), (0x0509, Always To_Central),
      (0x050A, Always To_Central), (0x0510, Always To_Central), (0x0512, Of_Request),
      (0x0516, Of_Request), (0x051B, By_Connection), (0x0601, Always To_Central),
      (0x0605, Always To_Central), (0x0606, Of_Termination), (0x060D, Always To_Central),
      (0x067F, By_Opcode)]"

definition status_routes :: "(nat \<times> rx_target) list" where
  "status_routes =
     [(0xFD13, Nowhere), (0xFD92, To_Writes), (0xFD9B, To_Writes), (0xFDB6, Nowhere), (0xFDFC, Nowhere),
      (0xFDFD, Nowhere), (0xFDFE, Nowhere), (0xFE06, Nowhere), (0xFE07, Nowhere), (0xFE30, Nowhere)]"

text \<open>The little-endian number at position \<open>i\<close>, and the texts at fixed places of a write request.\<close>

definition le16 :: "nat \<Rightarrow> u8 list \<Rightarrow> nat" where
  "le16 i p = unat (p ! i) + 256 * unat (p ! Suc i)"

definition text_at :: "nat \<Rightarrow> u8 list \<Rightarrow> u8 list \<Rightarrow> bool" where
  "text_at i t p \<longleftrightarrow> (\<forall>j < length t. p ! (i + j) = t ! j)"

definition pipe_target :: "nat \<Rightarrow> rx_target" where
  "pipe_target c = (if c < 4 then To_Pipe c else Nowhere)"

definition request_target :: "u8 list \<Rightarrow> rx_target" where
  "request_target p =
     (if text_at 13 [0x30, 0x31] p \<or> unat (p ! 11) \<in> {5, 9} then To_Central
      else if text_at 13 [0x50, 0x42] p \<and> text_at 31 [0x50, 0x45] p then To_Pings
      else if le16 11 p = 3 then pipe_target (unat (p ! 6))
      else Nowhere)"

primrec target_queue :: "rx_queues \<Rightarrow> rx_target \<Rightarrow> int option" where
  "target_queue qs Nowhere = None"
| "target_queue qs To_Central = Some (CommandRespQId qs)"
| "target_queue qs To_Writes = Some (RX_WRITE_RSP_ID qs)"
| "target_queue qs To_Pings = Some (PING_PKT_RSP_ID qs)"
| "target_queue qs (To_Pipe c) = Some ([Pipe_0_Id qs, Pipe_1_Id qs, Pipe_2_Id qs, Pipe_3_Id qs] ! c)"

definition send_to :: "rx_queues \<Rightarrow> u8 list \<Rightarrow> u8 \<Rightarrow> rx_target \<Rightarrow> rx_action list" where
  "send_to qs p n t = (case target_queue qs t of None \<Rightarrow> [] | Some q \<Rightarrow> [Mq_Send q p n])"

primrec route_actions :: "rx_queues \<Rightarrow> u8 list \<Rightarrow> u8 \<Rightarrow> rx_route \<Rightarrow> rx_action list" where
  "route_actions qs p n (Always t) = send_to qs p n t"
| "route_actions qs p n By_Opcode =
     send_to qs p n (case map_of status_routes (le16 6 p) of None \<Rightarrow> To_Central | Some t \<Rightarrow> t)"
| "route_actions qs p n By_Connection = send_to qs p n (pipe_target (unat (p ! 6)))"
| "route_actions qs p n Of_Request = send_to qs p n (request_target p) @ [Data_Ack (int (unat (p ! 6)))]"
| "route_actions qs p n Of_Termination =
     [Clear_Status (word_of_nat (le16 6 p))] @ send_to qs p n (if p ! 8 = 0x3E then To_Central else Nowhere) @
     [Upd_Disconnection (word_of_nat (le16 6 p))]"

lemma le16_code: "MAKE16OFXY (p ! Suc i) (p ! i) = word_of_nat (le16 i p)"
  "unat (MAKE16OFXY (p ! Suc i) (p ! i)) = le16 i p"
proof -
  show u: "unat (MAKE16OFXY (p ! Suc i) (p ! i)) = le16 i p" by (simp add: unat_make16 le16_def)
  show "MAKE16OFXY (p ! Suc i) (p ! i) = word_of_nat (le16 i p)" by (simp flip: u)
qed

lemma le16_eq:
  "event_code p = w \<longleftrightarrow> le16 3 p = unat w" "event_opcode p = w \<longleftrightarrow> le16 6 p = unat w"
  "MAKE16OFXY (p ! 12) (p ! 11) = w \<longleftrightarrow> le16 11 p = unat w"
  using le16_code(2) [of p 3] le16_code(2) [of p 6] le16_code(2) [of p 11]
  by (simp_all add: event_code_def event_opcode_def word_unat_eq_iff)

lemma pipe_route: "send_pipe qs p n = send_to qs p n (pipe_target (unat (p ! 6)))"
proof -
  have "p ! 6 = w \<longleftrightarrow> unat (p ! 6) = unat w" for w by (simp add: word_unat_eq_iff)
  moreover consider "unat (p ! 6) = 0" | "unat (p ! 6) = 1" | "unat (p ! 6) = 2" | "unat (p ! 6) = 3" | "4 \<le> unat (p ! 6)"
    by linarith
  ultimately show ?thesis
    by cases (simp_all add: send_pipe_def send_to_def pipe_target_def)
qed

lemma request_route:
  "dispatch_write_request qs p n = send_to qs p n (request_target p) @ [Data_Ack (int (unat (p ! 6)))]"
proof -
  have "p ! 11 = w \<longleftrightarrow> unat (p ! 11) = unat w" for w by (simp add: word_unat_eq_iff)
  moreover have "text_at i [a, b] p \<longleftrightarrow> p ! i = a \<and> p ! Suc i = b" for i a b
    by (auto simp: text_at_def less_Suc_eq numeral_nat)
  ultimately show ?thesis
    by (simp add: dispatch_write_request_def pipe_route request_target_def le16_eq send_to_def)
qed

lemma status_route:
  "dispatch_status qs p n = send_to qs p n (case map_of status_routes (le16 6 p) of None \<Rightarrow> To_Central | Some t \<Rightarrow> t)"
  by (simp add: dispatch_status_def Let_def le16_eq status_routes_def send_to_def hci_codes)

lemma termination_route:
  "dispatch_link_terminated qs p n =
     [Clear_Status (word_of_nat (le16 6 p))] @ send_to qs p n (if p ! 8 = 0x3E then To_Central else Nowhere) @
     [Upd_Disconnection (word_of_nat (le16 6 p))]"
  using le16_code(1) [of p 6] by (simp add: dispatch_link_terminated_def Let_def send_to_def)

lemma vendor_route:
  assumes "vendor_event p" and "\<not> shadowed p"
  shows "dispatch qs p n = (case map_of event_routes (le16 3 p) of None \<Rightarrow> [] | Some r \<Rightarrow> route_actions qs p n r)"
  unfolding dispatch_vendor [OF assms refl]
  by (simp add: le16_eq command_events_def event_routes_def hci_codes pipe_route request_route status_route
      termination_route) (simp add: send_to_def)


text \<open>An HCI command-complete event (event code 0x0E) is never forwarded: the second test for
  it, which would send it to the central thread, comes after one that already took the branch.\<close>

lemma command_complete_dropped:
  assumes "p ! 1 = 0x0E"
  shows "dispatch qs p n = []"
  using assms by (intro dispatch_not_vendor) (simp add: vendor_event_def)

lemma command_complete_dropped_witness:
  "dispatch \<lparr>CommandRespQId = 0, PING_PKT_RSP_ID = 1, RX_WRITE_RSP_ID = 2, Pipe_0_Id = 3,
       Pipe_1_Id = 4, Pipe_2_Id = 5, Pipe_3_Id = 6\<rparr> ([0x04, 0x0E, 0x01] @ replicate 2045 0) 4 = []"
  by (rule command_complete_dropped) simp

text \<open>The actions that write to the UART.\<close>

primrec is_ack :: "rx_action \<Rightarrow> bool" where
  "is_ack (Mq_Send q p n) \<longleftrightarrow> False"
| "is_ack (Data_Ack idz) \<longleftrightarrow> True"
| "is_ack (Clear_Status h) \<longleftrightarrow> False"
| "is_ack (Upd_Disconnection h) \<longleftrightarrow> False"

lemma send_pipe_no_ack: "list_all (\<lambda>a. \<not> is_ack a) (send_pipe qs p n)"
  by (simp add: send_pipe_def)

text \<open>Every write request and prepared write request is acknowledged: the last action is one
  acknowledgement, written to the UART as command 0xFD13 for the connection handle in byte 6
  (high byte 0), whichever queue the request itself went to, and no other action writes to the
  UART.\<close>

lemma write_request_acked:
  assumes "vendor_event p" and "\<not> shadowed p"
    and "event_code p \<in> {EVENT_VS_ATT_WRITE_REQUEST, EVENT_VS_ATT_PREPARE_WRITE_REQUEST}"
  shows "\<exists>as. dispatch qs p n = as @ [Data_Ack (uint (p ! 6))] \<and> list_all (\<lambda>a. \<not> is_ack a) as \<and>
     run_action (Data_Ack (uint (p ! 6))) g = Returns (logged [0x01, 0x13, 0xFD, 0x02, p ! 6, 0x00] g)"
proof -
  have "event_code p \<notin> set command_events" "event_code p \<noteq> VS_COMMAND_STATUS"
    "event_code p \<noteq> VS_GAP_LINK_TERMINATED" "event_code p \<noteq> EVENT_VS_ATT_HANDLE_VALUE_NOTIFICATION"
    using assms(3) by (auto simp: command_events_def hci_codes)
  then have "dispatch qs p n = dispatch_write_request qs p n"
    using dispatch_vendor [OF assms(1,2) refl, of qs n] assms(3) by auto
  then show ?thesis
    unfolding dispatch_write_request_def
    by (simp add: send_pipe_no_ack run_ack del: run_action.simps)
qed

text \<open>Concrete identifiers and packets for the applications of the theorems.\<close>

definition demo_queues :: rx_queues where
  "demo_queues = \<lparr>CommandRespQId = 0, PING_PKT_RSP_ID = 1, RX_WRITE_RSP_ID = 2, Pipe_0_Id = 3,
                  Pipe_1_Id = 4, Pipe_2_Id = 5, Pipe_3_Id = 6\<rparr>"

definition demo_globals :: globals where
  "demo_globals = initial_globals (one_queue COMMANDRESP_THREAD_QUEUE_KEY) (\<lambda>i n. int n) (\<lambda>i. 0)"

lemma demo_globals_ok: "globals_ok demo_globals"
  by (simp add: demo_globals_def initial_globals_ok one_queue_ok)

text \<open>A packet array that starts with the given bytes.\<close>

definition packet_of :: "u8 list \<Rightarrow> u8 list" where
  "packet_of bs = bs @ replicate (2048 - length bs) 0"

lemmas packet_simps = packet_of_def vendor_event_def shadowed_def event_code_def event_opcode_def
  make16_eq_iff byte_macro_defs BLE_EVT_PKT_def BLE_ASD_PKT_def

lemma write_request_acked_witness:
  "\<exists>as. dispatch demo_queues (packet_of [4, 0xFF, 12, 0x12, 0x05, 0, 1, 0, 6, 0, 0, 3, 0, 0x41, 0x42]) 15 =
       as @ [Data_Ack (uint (packet_of [4, 0xFF, 12, 0x12, 0x05, 0, 1, 0, 6, 0, 0, 3, 0, 0x41, 0x42] ! 6))] \<and>
     list_all (\<lambda>a. \<not> is_ack a) as \<and>
     run_action (Data_Ack (uint (packet_of [4, 0xFF, 12, 0x12, 0x05, 0, 1, 0, 6, 0, 0, 3, 0, 0x41, 0x42] ! 6)))
         demo_globals =
       Returns (logged [0x01, 0x13, 0xFD, 0x02,
         packet_of [4, 0xFF, 12, 0x12, 0x05, 0, 1, 0, 6, 0, 0, 3, 0, 0x41, 0x42] ! 6, 0x00] demo_globals)"
  by (rule write_request_acked) (simp_all add: packet_simps EVENT_VS_ATT_WRITE_REQUEST_def)

text \<open>A disconnection event for a handle inside the connection table clears that slot's status
  and leaves \<open>Slave_Count\<close> at the number of slots still connected among the first five; for a
  handle of 6 or more, which the packet can carry, the clearing leaves the array.\<close>

lemma link_terminated_effect:
  assumes "vendor_event p" and "\<not> shadowed p" and "event_code p = VS_GAP_LINK_TERMINATED"
    and "p ! 8 \<noteq> 0x3E" and "length (Conn_Device_List g) = 6"
  shows "run_actions (dispatch qs p n) g =
     (let h = 256 * unat (p ! 7) + unat (p ! 6) in
      if h < 6 then
        (let l = (Conn_Device_List g)[h := (Conn_Device_List g ! h)\<lparr>cd_status := 0\<rparr>] in
         Returns (g\<lparr>Conn_Device_List := l,
                    Slave_Count := word_of_nat (length (filter (\<lambda>d. cd_status d = 1) (take 5 l)))\<rparr>))
      else Fault (Index_Range 6 (int h)))"
proof -
  have "event_code p \<notin> set command_events" "event_code p \<noteq> VS_COMMAND_STATUS"
    using assms(3) by (auto simp: command_events_def hci_codes)
  then have d: "dispatch qs p n = [Clear_Status (MAKE16OFXY (p ! 7) (p ! 6)),
      Upd_Disconnection (MAKE16OFXY (p ! 7) (p ! 6))]"
    using dispatch_vendor [OF assms(1,2) refl, of qs n] assms(3,4)
    by (simp add: dispatch_link_terminated_def Let_def)
  have h: "unat (MAKE16OFXY (p ! 7) (p ! 6)) = 256 * unat (p ! 7) + unat (p ! 6)"
    by (rule unat_make16)
  show ?thesis
    unfolding d
    by (simp add: clear_status_eq h assms(5) Let_def Upadate_Disconnection_eq MAX_NUM_PERIPHERALS_def
        count_connected_filter del: of_nat_add of_nat_mult)
qed

lemma link_terminated_effect_witness:
  "run_actions (dispatch demo_queues (packet_of [4, 0xFF, 6, 0x06, 0x06, 0, 2, 0, 0x13]) 9) demo_globals =
     (let h = 256 * unat (packet_of [4, 0xFF, 6, 0x06, 0x06, 0, 2, 0, 0x13] ! 7) +
              unat (packet_of [4, 0xFF, 6, 0x06, 0x06, 0, 2, 0, 0x13] ! 6) in
      if h < 6 then
        (let l = (Conn_Device_List demo_globals)[h := (Conn_Device_List demo_globals ! h)\<lparr>cd_status := 0\<rparr>] in
         Returns (demo_globals\<lparr>Conn_Device_List := l,
                    Slave_Count := word_of_nat (length (filter (\<lambda>d. cd_status d = 1) (take 5 l)))\<rparr>))
      else Fault (Index_Range 6 (int h)))"
  by (rule link_terminated_effect)
    (simp_all add: packet_simps VS_GAP_LINK_TERMINATED_def demo_globals_def)

text \<open>An event for the central thread with more than 97 payload bytes is copied past the end
  of the 100-byte text of the message structure.\<close>

lemma long_event_overflows:
  assumes "vendor_event p" and "\<not> shadowed p" and "event_code p \<in> set command_events"
    and "100 < unat n"
  shows "run_actions (dispatch qs p n) g = Fault (Overflow 100 (unat n))"
  using dispatch_vendor [OF assms(1,2) refl, of qs n] assms(3)
    send_too_long [of n "CommandRespQId qs" p g] assms(4)
  by (simp add: MTEXT_SIZE_def del: run_action.simps)

lemma long_event_overflows_witness:
  "run_actions (dispatch demo_queues (packet_of [4, 0xFF, 98, 0x0D, 0x06]) 101) demo_globals =
     Fault (Overflow 100 (unat (101 :: u8)))"
  by (rule long_event_overflows)
    (simp_all add: packet_simps command_events_def VS_GAP_DEVICE_INFORMATION_def)

end
