(* ===== verification/Gateway.thy ===== *)
theory Gateway
  imports Central Rx_Dispatch
begin

text \<open>
  The process started by \<open>main\<close> of \<open>VVDNBLEMeshStack.c\<close>: the receive thread
  \<open>UartCmdRxThread\<close> and the central thread \<open>CentralModeThread\<close> over the shared globals, as
  an interleaving step relation.  The receive thread moves one received byte or one queued
  action of a completed packet at a time, the central thread one iteration of its loop (two
  for the scan request, which waits in the middle).  A step of a thread that blocks in the
  kernel does not exist; a step that leaves the defined part of C ends in \<open>Crashed\<close>.
  The bytes read are kept in \<open>rx_log\<close>, which no step reads, so that a claim about a run can say
  which bytes arrived in it.
\<close>

subsection \<open>The process\<close>

record process =
  rx_ready :: "rx_queues option"      \<comment> \<open>the receive thread's queue ids, once it has set them up\<close>
  receiver :: rx
  rx_log :: "u8 list"                 \<comment> \<open>the bytes the receive thread has read so far\<close>
  pending :: "rx_action list"         \<comment> \<open>what is left to do for the packet being dispatched\<close>
  central_at :: central_pc
  shared :: globals

datatype gateway = Running process | Crashed fault

text \<open>Static storage is zeroed: no device is connected and the count is 0.\<close>

definition process_init :: "process \<Rightarrow> bool" where
  "process_init w \<longleftrightarrow>
     rx_ready w = None \<and> length (rx_packet (receiver w)) = 2048 \<and>
     receiver w = rx_init (rx_count (receiver w)) (rx_packet (receiver w)) \<and>
     rx_log w = [] \<and> pending w = [] \<and> central_at w = Start \<and> globals_ok (shared w) \<and>
     list_all (\<lambda>d. cd_status d = 0) (Conn_Device_List (shared w)) \<and> Slave_Count (shared w) = 0"

primrec gateway_init :: "gateway \<Rightarrow> bool" where
  "gateway_init (Running w) = process_init w"
| "gateway_init (Crashed e) = False"

inductive gateway_step :: "gateway \<Rightarrow> gateway \<Rightarrow> bool" where
  rx_start: "rx_ready w = None \<Longrightarrow> rx_thread_init j1 j2 j3 (kern (shared w)) = (qs, k) \<Longrightarrow>
    gateway_step (Running w) (Running (w\<lparr>rx_ready := Some qs, shared := (shared w)\<lparr>kern := k\<rparr>\<rparr>))"
| rx_more: "rx_ready w = Some qs \<Longrightarrow> pending w = [] \<Longrightarrow> rx_byte b (receiver w) = Returns (None, r) \<Longrightarrow>
    gateway_step (Running w) (Running (w\<lparr>receiver := r, rx_log := rx_log w @ [b]\<rparr>))"
| rx_packet: "rx_ready w = Some qs \<Longrightarrow> pending w = [] \<Longrightarrow>
    rx_byte b (receiver w) = Returns (Some (p, n), r) \<Longrightarrow>
    gateway_step (Running w) (Running (w\<lparr>receiver := r, rx_log := rx_log w @ [b], pending := dispatch qs p n\<rparr>))"
| rx_fault: "rx_ready w = Some qs \<Longrightarrow> pending w = [] \<Longrightarrow> rx_byte b (receiver w) = Fault e \<Longrightarrow>
    gateway_step (Running w) (Crashed e)"
| rx_act: "pending w = a # as \<Longrightarrow> run_action a (shared w) = Returns g \<Longrightarrow>
    gateway_step (Running w) (Running (w\<lparr>pending := as, shared := g\<rparr>))"
| rx_act_fault: "pending w = a # as \<Longrightarrow> run_action a (shared w) = Fault e \<Longrightarrow>
    gateway_step (Running w) (Crashed e)"
| central: "central_step (central_at w) (shared w) = Returns (pc, g) \<Longrightarrow>
    gateway_step (Running w) (Running (w\<lparr>central_at := pc, shared := g\<rparr>))"
| central_fault: "central_step (central_at w) (shared w) = Fault e \<Longrightarrow>
    gateway_step (Running w) (Crashed e)"

inductive_cases gateway_stepE: "gateway_step (Running w) s"
inductive_simps gateway_step_Crashed: "gateway_step (Crashed e) s"

abbreviation gateway_reaches :: "gateway \<Rightarrow> bool" where
  "gateway_reaches \<equiv> reaches gateway_init gateway_step"


subsection \<open>Safety\<close>

text \<open>
  The invariant: sizes of all arrays, the receiver inside its packet array, no slot of the
  connection table ever marked connected, the count 0, the central thread at one of eight
  program points; and the faults that are possible at all.
\<close>

primrec action_ok :: "rx_action \<Rightarrow> bool" where
  "action_ok (Mq_Send q p n) \<longleftrightarrow> length p = 2048"
| "action_ok (Data_Ack idz) \<longleftrightarrow> True"
| "action_ok (Clear_Status h) \<longleftrightarrow> True"
| "action_ok (Upd_Disconnection h) \<longleftrightarrow> True"

definition none_connected :: "globals \<Rightarrow> bool" where
  "none_connected g \<longleftrightarrow> list_all (\<lambda>d. cd_status d = 0) (Conn_Device_List g) \<and> Slave_Count g = 0"

definition process_inv :: "process \<Rightarrow> bool" where
  "process_inv w \<longleftrightarrow>
     globals_ok (shared w) \<and> none_connected (shared w) \<and> rx_ok (receiver w) \<and>
     list_all action_ok (pending w) \<and> central_at w \<in> set central_points"

definition possible_fault :: "fault \<Rightarrow> bool" where
  "possible_fault e \<longleftrightarrow>
     (case e of
        Overflow cap n \<Rightarrow> cap = 10 \<and> n = 13 \<or> cap = MTEXT_SIZE \<and> MTEXT_SIZE < n \<and> n < 256
      | Index_Range n i \<Rightarrow> n = 6 \<and> 6 \<le> i \<and> i < 65536
      | _ \<Rightarrow> False)"

primrec gateway_inv :: "gateway \<Rightarrow> bool" where
  "gateway_inv (Running w) = process_inv w"
| "gateway_inv (Crashed e) = possible_fault e"

lemma rx_packet_length:
  "rx_ok r \<Longrightarrow> rx_byte b r = Returns (Some (p, n), r') \<Longrightarrow> length p = 2048"
  by (cases "current_state r") (auto simp: rx_step_simps rx_ok_def split: if_splits)

lemma dispatch_action_ok: "length p = 2048 \<Longrightarrow> list_all action_ok (dispatch qs p n)"
proof -
  assume p: "length p = 2048"
  have "action_ok a" if "carries p n a" for a
    using that p by (cases a) auto
  then show ?thesis using dispatch_carries [of p n qs] by (simp add: list_all_iff)
qed

lemma count_none: "list_all (\<lambda>d. cd_status d = 0) l \<Longrightarrow> n \<le> length l \<Longrightarrow> count_connected l n = 0"
  by (auto simp: count_connected_0_iff list_all_length)

lemma none_connected_clear:
  "none_connected g \<Longrightarrow> on_return none_connected (clear_status h g)"
  by (simp add: clear_status_eq none_connected_def list_update_all)

lemma none_connected_upd:
  "none_connected g \<Longrightarrow> globals_ok g \<Longrightarrow> none_connected (Upadate_Disconnection h g)"
  using count_none [of "Conn_Device_List g" MAX_NUM_PERIPHERALS]
  by (simp add: Upadate_Disconnection_eq none_connected_def globals_ok_def MAX_NUM_PERIPHERALS_def)

lemma none_connected_uart: "uart_only g g' \<Longrightarrow> none_connected g' = none_connected g"
  by (simp add: none_connected_def uart_only_fields)

lemma run_action_none:
  assumes "none_connected g" and "globals_ok g"
  shows "on_return none_connected (run_action a g)"
proof (cases a)
  case (Mq_Send q p n)
  with assms show ?thesis
    by (auto simp: on_return_iff outcome_bind_eq_Returns none_connected_def)
next
  case (Data_Ack idz)
  with assms(1) data_ack_uart [of g idz] show ?thesis
    by (cases "data_ack idz g") (auto simp: none_connected_uart)
qed (use assms in \<open>simp_all add: none_connected_clear none_connected_upd\<close>)

lemma unat_ucast_u8_u16: "unat (ucast (n :: u8) :: u16) = unat n"
  by (simp add: unsigned_ucast_eq take_bit_eq_mod less_trans [OF unat_u8_less])

lemma unat_u16_less: "unat (x :: u16) < 65536"
  using unsigned_less [of x, where ?'a = nat] by simp

lemma run_action_fault:
  assumes ok: "globals_ok g" and a: "action_ok a" and f: "run_action a g = Fault e"
  shows "possible_fault e"
proof (cases a)
  case (Mq_Send q p n)
  with a f unat_u8_less [of n] show ?thesis
    by (auto simp: outcome_bind_eq_Fault sys_mq_send_def possible_fault_def unat_ucast_u8_u16 msgsnd_def
        split: if_splits option.splits)
next
  case (Data_Ack idz)
  with f show ?thesis by (simp add: data_ack_def send_pac_eq Notify_Ack_pac_def)
next
  case (Clear_Status h)
  have "uint h = int (unat h)" by simp
  then have "uint h < 65536" "\<not> unat h < 6 \<Longrightarrow> 6 \<le> uint h"
    using unat_u16_less [of h] by linarith+
  with Clear_Status f ok show ?thesis
    by (auto simp: clear_status_eq globals_ok_def possible_fault_def split: if_splits)
next
  case (Upd_Disconnection h)
  with f show ?thesis by simp
qed

lemma globals_ok_kern: "globals_ok g \<Longrightarrow> kernel_ok MTEXT_SIZE k \<Longrightarrow> globals_ok (g\<lparr>kern := k\<rparr>)"
  by (simp add: globals_ok_def)

lemma gateway_init_inv: "gateway_init s \<Longrightarrow> gateway_inv s"
proof (cases s)
  case (Running w)
  assume "gateway_init s"
  with Running have w: "process_init w" by simp
  then have "length (rx_packet (receiver w)) = 2048"
    and "receiver w = rx_init (rx_count (receiver w)) (rx_packet (receiver w))"
    unfolding process_init_def by blast+
  then have "rx_ok (receiver w)"
    by (metis rx_ok_def rx_init_def rx.select_convs(3))
  with w Running show ?thesis
    by (simp add: process_init_def process_inv_def none_connected_def central_points_def)
qed simp

lemma rx_step_inv:
  assumes "rx_ok r" and "rx_byte b r = Returns (f, r')"
  shows "rx_ok r'"
  using rx_byte_returns [OF assms(1), of b] assms(2) by auto

lemma rx_byte_no_fault: "rx_ok r \<Longrightarrow> rx_byte b r \<noteq> Fault e"
  using rx_byte_returns [of r b] by auto

lemma central_none:
  assumes "none_connected g" and "central_step pc g = Returns (pc', g')"
  shows "none_connected g'"
  using central_step_devices [of g pc] assms by (simp add: none_connected_def)

lemma gateway_step_inv: "gateway_step s t \<Longrightarrow> gateway_inv s \<Longrightarrow> gateway_inv t"
proof (induction rule: gateway_step.induct)
  case (rx_start w j1 j2 j3 qs k)
  then have "kernel_ok MTEXT_SIZE k"
    using rx_thread_init_known by (fastforce simp: process_inv_def globals_ok_def)
  with rx_start show ?case
    by (auto simp: process_inv_def none_connected_def globals_ok_kern)
next
  case (rx_more w qs b r)
  then show ?case using rx_step_inv by (auto simp: process_inv_def)
next
  case (rx_packet w qs b p n r)
  then show ?case
    using rx_step_inv rx_packet_length dispatch_action_ok by (auto simp: process_inv_def)
next
  case (rx_fault w qs b e)
  then show ?case using rx_byte_no_fault by (auto simp: process_inv_def)
next
  case (rx_act w a as g)
  then show ?case
    using run_action_ok [of "shared w" a] run_action_none [of "shared w" a]
    by (auto simp: process_inv_def)
next
  case (rx_act_fault w a as e)
  then show ?case using run_action_fault by (auto simp: process_inv_def)
next
  case (central w pc g)
  then show ?case
    using central_step_ok [of "shared w" "central_at w"] central_step_point [of "central_at w"]
      central_none [of "shared w" "central_at w" pc g]
    by (auto simp: process_inv_def simp del: central_step.simps)
next
  case (central_fault w e)
  then show ?case
    using central_step_fault [of "shared w" "central_at w" e]
    by (auto simp: process_inv_def possible_fault_def)
qed

interpretation gateway: step_invariant gateway_init gateway_step gateway_inv
  by unfold_locales (auto intro: gateway_init_inv gateway_step_inv)

subsection \<open>Both threads talk through the same queue\<close>

text \<open>
  Each thread asks the kernel for the queue of \<open>COMMANDRESP_THREAD_QUEUE_KEY\<close>, in either
  order; a creation that failed leaves -1.
\<close>

definition process_linked :: "process \<Rightarrow> bool" where
  "process_linked w \<longleftrightarrow>
     process_inv w \<and>
     (case rx_ready w of
        None \<Rightarrow> True
      | Some qs \<Rightarrow> known (kern (shared w)) COMMANDRESP_THREAD_QUEUE_KEY (CommandRespQId qs)) \<and>
     (central_at w = Start \<or>
      known (kern (shared w)) COMMANDRESP_THREAD_QUEUE_KEY (tCommandRespQId (shared w)))"

primrec gateway_linked :: "gateway \<Rightarrow> bool" where
  "gateway_linked (Running w) = process_linked w"
| "gateway_linked (Crashed e) = True"

definition keeps_known :: "globals \<Rightarrow> globals \<Rightarrow> bool" where
  "keeps_known g g' \<longleftrightarrow> (\<forall>key qid. known (kern g) key qid \<longrightarrow> known (kern g') key qid)"

lemma keeps_known_same: "mq_key (kern g') = mq_key (kern g) \<Longrightarrow> keeps_known g g'"
  by (simp add: keeps_known_def known_def)

lemma run_action_keys:
  "on_return (\<lambda>g'. mq_key (kern g') = mq_key (kern g) \<and> tCommandRespQId g' = tCommandRespQId g)
     (run_action a g)"
proof (cases a)
  case (Mq_Send q p n)
  then show ?thesis
    by (auto simp: on_return_iff outcome_bind_eq_Returns dest: sys_mq_send_key)
next
  case (Data_Ack idz)
  then show ?thesis using data_ack_uart [of g idz]
    by (cases "data_ack idz g") (auto simp: uart_only_fields)
qed (auto simp: clear_status_eq Upadate_Disconnection_eq)

lemma central_step_known:
  assumes ok: "globals_ok g" and c: "central_step pc g = Returns (pc', g')"
  shows "keeps_known g g'"
  unfolding keeps_known_def
proof (intro allI impI)
  fix key qid assume k: "known (kern g) key qid"
  show "known (kern g') key qid"
  proof (cases "qid = -1")
    case False
    with k ok have "keeps_key key qid g" by (simp add: known_def keeps_key_def)
    from central_step_keys [OF this, of pc] c show ?thesis by (simp add: keeps_key_def known_def)
  qed (simp add: known_def)
qed

text \<open>Only the start-up sequence sets the central thread's queue id.\<close>

lemma recv_buffer_queue: "on_return (\<lambda>g'. tCommandRespQId g' = tCommandRespQId g) (recv_buffer qid g)"
  by (auto simp: on_return_iff recv_buffer_def outcome_bind_eq_Returns)

lemma central_step_queue:
  assumes pc: "pc \<noteq> Start" and c: "central_step pc g = Returns (pc', g')"
  shows "tCommandRespQId g' = tCommandRespQId g"
proof -
  have "on_return (\<lambda>(pc', g'). tCommandRespQId g' = tCommandRespQId g) (central_step pc g)"
  proof (rule central_step_keeps)
    fix g1 :: globals assume P: "tCommandRespQId g1 = tCommandRespQId g"
    show "on_return (\<lambda>(v, g'). tCommandRespQId g' = tCommandRespQId g) (Device_Scan_Rsp g1)"
      unfolding Device_Scan_Rsp_def Let_def
      by (rule on_return_bind [OF recv_buffer_queue]) (simp add: P)
    show "on_return (\<lambda>(v, g'). tCommandRespQId g' = tCommandRespQId g) (Device_Scan_Data g1)"
      unfolding Device_Scan_Data_def Let_def
      by (rule on_return_bind [OF recv_buffer_queue]) (auto simp: P on_return_iff outcome_bind_eq_Returns)
    show "on_return (\<lambda>(v, g'). tCommandRespQId g' = tCommandRespQId g) (Device_Scan_Cancel_Rsp g1)"
      unfolding Device_Scan_Cancel_Rsp_def Let_def
      by (rule on_return_bind [OF recv_buffer_queue]) (simp add: P)
    show "on_return (\<lambda>(v, g'). tCommandRespQId g' = tCommandRespQId g) (Device_Establish_Link_Rsp g1)"
      unfolding Device_Establish_Link_Rsp_def Let_def
      by (rule on_return_bind [OF recv_buffer_queue]) (auto simp: P on_return_iff outcome_bind_eq_Returns)
  qed (use pc uart_only_fields(6) in auto)
  with c show ?thesis by simp
qed

lemma central_start_known:
  assumes ok: "globals_ok g" and c: "central_step Start g = Returns (pc', g')"
  shows "known (kern g') COMMANDRESP_THREAD_QUEUE_KEY (tCommandRespQId g')"
proof -
  obtain g1 qid k where "central_startup g = Returns (g1\<lparr>kern := k, tCommandRespQId := qid\<rparr>)"
    and q: "sys_mq_init (kern g) COMMANDRESP_THREAD_QUEUE_KEY = (qid, k)"
    using central_startup_log [of g] by blast
  with c have "kern g' = k" "tCommandRespQId g' = qid" by auto
  moreover have "known k COMMANDRESP_THREAD_QUEUE_KEY qid"
    using sys_mq_init_known_id [of MTEXT_SIZE, OF _ q] ok by (simp add: globals_ok_def)
  ultimately show ?thesis by simp
qed

lemma gateway_step_linked: "gateway_step s t \<Longrightarrow> gateway_linked s \<Longrightarrow> gateway_linked t"
proof (cases t)
  case (Running w')
  assume st: "gateway_step s t" and l: "gateway_linked s"
  from st Running obtain w where s: "s = Running w"
    by (cases s) (auto simp: gateway_step_Crashed)
  with l have w: "process_linked w" by simp
  then have inv: "process_inv w" by (simp add: process_linked_def)
  have inv': "process_inv w'"
    using gateway_step_inv [OF st] s Running inv by simp
  have ok: "globals_ok (shared w)" using inv by (simp add: process_inv_def)
  from st [unfolded s Running] have "process_linked w'"
  proof (cases rule: gateway_step.cases)
    case (rx_start j1 j2 j3 qs k)
    have "kernel_ok MTEXT_SIZE (kern (shared w))" using ok by (simp add: globals_ok_def)
    from rx_thread_init_known [OF this rx_start(3)] w rx_start inv' show ?thesis
      by (auto simp: process_linked_def)
  next
    case (rx_act a as g)
    with w inv' run_action_keys [of "shared w" a] show ?thesis
      by (simp add: process_linked_def known_def split: option.splits)
  next
    case (central pc g)
    have kk: "keeps_known (shared w) g" by (rule central_step_known [OF ok central(2)])
    show ?thesis
    proof (cases "central_at w = Start")
      case True
      with central_start_known [OF ok] central kk w inv' show ?thesis
        by (auto simp: process_linked_def keeps_known_def simp del: central_step.simps split: option.splits)
    next
      case False
      from central_step_queue [OF this central(2)] False central kk w inv' show ?thesis
        by (auto simp: process_linked_def keeps_known_def simp del: central_step.simps split: option.splits)
    qed
  qed (use w inv' in \<open>auto simp: process_linked_def\<close>)
  with Running show ?thesis by simp
qed simp

interpretation gateway_queues: step_invariant gateway_init gateway_step gateway_linked
proof
  fix s assume init: "gateway_init s"
  then show "gateway_linked s"
    using gateway_init_inv [OF init] by (cases s) (auto simp: process_linked_def process_init_def)
qed (rule gateway_step_linked)

subsection \<open>From received bytes to the central thread\<close>

text \<open>The packets of a byte stream dispatched one after the other.\<close>

primrec deliver :: "rx_queues \<Rightarrow> (u8 list \<times> u8) list \<Rightarrow> globals \<Rightarrow> globals outcome" where
  "deliver qs [] g = Returns g"
| "deliver qs (f # fs) g =
     outcome_bind (run_actions (dispatch qs (fst f) (snd f)) g) (deliver qs fs)"

lemma gateway_acts:
  "run_actions (pending w) (shared w) = Returns g \<Longrightarrow>
   gateway_step\<^sup>*\<^sup>* (Running w) (Running (w\<lparr>pending := [], shared := g\<rparr>))"
proof (induction "pending w" arbitrary: w)
  case Nil
  then have "w\<lparr>pending := [], shared := g\<rparr> = w" by (cases w) simp
  then show ?case by simp
next
  case (Cons a as)
  have pw: "pending w = a # as" using Cons.hyps(2) by simp
  from Cons.prems pw obtain g1 where 1: "run_action a (shared w) = Returns g1"
    and 2: "run_actions as g1 = Returns g"
    by (auto simp: outcome_bind_eq_Returns)
  let ?w = "w\<lparr>pending := as, shared := g1\<rparr>"
  have "gateway_step (Running w) (Running ?w)" using pw 1 by (rule gateway_step.rx_act)
  moreover have "gateway_step\<^sup>*\<^sup>* (Running ?w) (Running (?w\<lparr>pending := [], shared := g\<rparr>))"
    using Cons.hyps(1) [of ?w] 2 by simp
  ultimately show ?case by (simp add: converse_rtranclp_into_rtranclp)
qed

lemma gateway_feed:
  "rx_ready w = Some qs \<Longrightarrow> pending w = [] \<Longrightarrow> feed rx_byte bs (receiver w) = Returns (fs, r) \<Longrightarrow>
   deliver qs fs (shared w) = Returns g \<Longrightarrow>
   gateway_step\<^sup>*\<^sup>* (Running w) (Running (w\<lparr>receiver := r, rx_log := rx_log w @ bs, shared := g\<rparr>))"
proof (induction bs arbitrary: w fs)
  case Nil
  then have "w\<lparr>receiver := r, rx_log := rx_log w @ [], shared := g\<rparr> = w" by (cases w) auto
  then show ?case by simp
next
  case (Cons b bs)
  from Cons.prems(3) obtain f r1 fs1 where b: "rx_byte b (receiver w) = Returns (f, r1)"
    and fd: "feed rx_byte bs r1 = Returns (fs1, r)"
    and fs: "fs = (case f of None \<Rightarrow> fs1 | Some x \<Rightarrow> x # fs1)"
    by (auto simp: feed.simps(2) outcome_bind_eq_Returns)
  show ?case
  proof (cases f)
    case None
    let ?w = "w\<lparr>receiver := r1, rx_log := rx_log w @ [b]\<rparr>"
    have "gateway_step (Running w) (Running ?w)"
      using Cons.prems(1,2) b None by (auto intro: gateway_step.rx_more)
    moreover have "gateway_step\<^sup>*\<^sup>* (Running ?w) (Running (?w\<lparr>receiver := r, rx_log := rx_log w @ b # bs, shared := g\<rparr>))"
      using Cons.IH [of ?w fs1] Cons.prems fd fs None by simp
    ultimately show ?thesis by (simp add: converse_rtranclp_into_rtranclp)
  next
    case (Some x)
    obtain p n where x: "x = (p, n)" by (cases x)
    from Cons.prems(4) fs Some x obtain g1 where acts: "run_actions (dispatch qs p n) (shared w) = Returns g1"
      and rest: "deliver qs fs1 g1 = Returns g"
      by (auto simp: outcome_bind_eq_Returns)
    let ?w = "w\<lparr>receiver := r1, rx_log := rx_log w @ [b], pending := dispatch qs p n\<rparr>"
    let ?v = "?w\<lparr>pending := [], shared := g1\<rparr>"
    have "gateway_step (Running w) (Running ?w)"
      using Cons.prems(1,2) b Some x by (auto intro: gateway_step.rx_packet)
    moreover have "gateway_step\<^sup>*\<^sup>* (Running ?w) (Running ?v)"
      using gateway_acts [of ?w g1] acts by simp
    moreover have "gateway_step\<^sup>*\<^sup>* (Running ?v) (Running (?v\<lparr>receiver := r, rx_log := rx_log w @ b # bs, shared := g\<rparr>))"
      using Cons.IH [of ?v fs1] Cons.prems(1) fd rest by simp
    moreover have "?v\<lparr>receiver := r, rx_log := rx_log w @ b # bs, shared := g\<rparr> = w\<lparr>receiver := r, rx_log := rx_log w @ b # bs, shared := g\<rparr>"
      using Cons.prems(2) by (cases w) simp
    ultimately show ?thesis by simp
  qed
qed

text \<open>
  A matching advertisement: a device-information event whose advertising data starts with the
  flags and the service identifier the code looks for.
\<close>

definition matching_advert :: "u8 list \<Rightarrow> bool" where
  "matching_advert fr \<longleftrightarrow>
     event_frame fr \<and> 25 \<le> length fr \<and> length fr \<le> MTEXT_SIZE \<and> vendor_event fr \<and>
     event_code fr = VS_GAP_DEVICE_INFORMATION \<and> \<not> shadowed fr \<and> uuid_match fr"

text \<open>The packet array starts with the frame, so every test of the dispatcher sees the frame.\<close>

lemma frame_prefix:
  assumes "delivered_bytes (p, n) = fr" and "unat n \<le> length p"
  shows "\<And>i. i < length fr \<Longrightarrow> p ! i = fr ! i" and "unat n = length fr"
  using assms by (auto simp: delivered_bytes_def)

lemma feed_packet_length:
  "rx_ok r \<Longrightarrow> feed rx_byte bs r = Returns (fs, r') \<Longrightarrow> list_all (\<lambda>f. length (fst f) = 2048) fs"
proof (induction bs arbitrary: r fs)
  case (Cons b bs)
  from Cons.prems(2) obtain f r1 fs1 where b: "rx_byte b r = Returns (f, r1)"
    and fd: "feed rx_byte bs r1 = Returns (fs1, r')"
    and fs: "fs = (case f of None \<Rightarrow> fs1 | Some x \<Rightarrow> x # fs1)"
    by (auto simp: feed.simps(2) outcome_bind_eq_Returns)
  have "list_all (\<lambda>f. length (fst f) = 2048) fs1"
    using Cons.IH [OF rx_step_inv [OF Cons.prems(1) b] fd] .
  with fs b rx_packet_length [OF Cons.prems(1), of b] show ?case
    by (cases f) auto
qed simp

text \<open>A frame whose packet is just sent to one queue ends up in that queue, byte for byte.\<close>

lemma gateway_sends:
  assumes w: "process_inv w" "rx_ready w = Some qs" "pending w = []" "rx_idle (receiver w)"
    and fr: "event_frame fr" "length fr \<le> MTEXT_SIZE"
    and d: "\<And>p n. length p = 2048 \<Longrightarrow> unat n = length fr \<Longrightarrow> (\<And>i. i < length fr \<Longrightarrow> p ! i = fr ! i) \<Longrightarrow>
      dispatch qs p n = [Mq_Send q p n]"
    and q: "contents (kern (shared w)) q = Some ms" "room MTEXT_SIZE (kern (shared w)) q (Suc j)"
  shows "\<exists>r p n k. gateway_step\<^sup>*\<^sup>* (Running w)
             (Running (w\<lparr>receiver := r, rx_log := rx_log w @ fr, shared := (shared w)\<lparr>kern := k\<rparr>\<rparr>)) \<and> rx_idle r \<and>
           run_action (Mq_Send q p n) (shared w) = Returns ((shared w)\<lparr>kern := k\<rparr>) \<and>
           contents k = (contents (kern (shared w)))(q \<mapsto> ms @ [fr]) \<and> room MTEXT_SIZE k q j"
proof -
  obtain f r where fd: "feed rx_byte fr (receiver w) = Returns ([f], r)" and r: "rx_idle r"
    and dl: "delivered_bytes f = fr"
    using rx_frames.one_frame [OF w(4) fr(1)] by blast
  obtain p n where f: "f = (p, n)" by (cases f)
  have lp: "length p = 2048"
  proof -
    have "rx_ok (receiver w)" using w(1) by (simp add: process_inv_def)
    from feed_packet_length [OF this fd] f show ?thesis by simp
  qed
  then have np: "unat n \<le> length p" using unat_u8_less [of n] by simp
  from frame_prefix [OF dl [unfolded f] np] have n: "unat n = length fr"
    and nth: "\<And>i. i < length fr \<Longrightarrow> p ! i = fr ! i" by auto
  from d [OF lp n nth] have "dispatch qs p n = [Mq_Send q p n]" .
  moreover obtain k where send: "run_action (Mq_Send q p n) (shared w) = Returns ((shared w)\<lparr>kern := k\<rparr>)"
    and k: "contents k = (contents (kern (shared w)))(q \<mapsto> ms @ [take (unat n) p])" "room MTEXT_SIZE k q j"
    using run_send_delivers [OF q(1) _ np q(2)] n fr(2) by auto
  ultimately have "deliver qs [f] (shared w) = Returns ((shared w)\<lparr>kern := k\<rparr>)"
    by (simp add: f del: run_action.simps)
  from gateway_feed [OF w(2,3) fd this] r k send show ?thesis
    using dl by (force simp: f delivered_bytes_def)
qed

text \<open>The tests of the dispatcher see the bytes of the frame.\<close>

lemma packet_tests:
  assumes "8 \<le> length fr" and "\<And>i. i < length fr \<Longrightarrow> p ! i = fr ! i"
  shows "vendor_event p = vendor_event fr" "event_code p = event_code fr" "event_opcode p = event_opcode fr"
proof -
  have "p ! i = fr ! i" if "i < 8" for i using assms that by simp
  then show "vendor_event p = vendor_event fr" "event_code p = event_code fr" "event_opcode p = event_opcode fr"
    unfolding vendor_event_def event_code_def event_opcode_def by simp_all
qed

text \<open>A frame for the central thread ends up in its queue, byte for byte.\<close>

lemma gateway_forward:
  assumes w: "process_inv w" "rx_ready w = Some qs" "pending w = []" "rx_idle (receiver w)"
    and fr: "event_frame fr" "8 \<le> length fr" "length fr \<le> MTEXT_SIZE" "vendor_event fr" "\<not> shadowed fr"
      "event_code fr \<in> set command_events"
    and q: "contents (kern (shared w)) (CommandRespQId qs) = Some ms"
      "room MTEXT_SIZE (kern (shared w)) (CommandRespQId qs) (Suc j)"
  shows "\<exists>r k. gateway_step\<^sup>*\<^sup>* (Running w)
             (Running (w\<lparr>receiver := r, rx_log := rx_log w @ fr, shared := (shared w)\<lparr>kern := k\<rparr>\<rparr>)) \<and> rx_idle r \<and>
           contents k = (contents (kern (shared w)))(CommandRespQId qs \<mapsto> ms @ [fr]) \<and>
           room MTEXT_SIZE k (CommandRespQId qs) j"
proof -
  have "dispatch qs p n = [Mq_Send (CommandRespQId qs) p n]"
    if "\<And>i. i < length fr \<Longrightarrow> p ! i = fr ! i" for p n
    using dispatch_vendor [of p "event_code fr" qs n] fr(4-6) packet_tests [OF fr(2) that]
    by (simp add: shadowed_def)
  from gateway_sends [OF w fr(1,3) this q] show ?thesis by blast
qed

text \<open>
  From the bytes of a matching advertisement on the UART to the central thread, which stops
  scanning with the advertiser's address in \<open>Scanned_MAC_Buff\<close>, most significant byte first.
\<close>

lemma gateway_advert:
  assumes w: "process_inv w" "rx_ready w = Some qs" "pending w = []" "rx_idle (receiver w)"
      "central_at w = Top STATE_CENTRAL_DEVICE_SCAN_DATA"
    and fr: "matching_advert fr"
    and q: "CommandRespQId qs = tCommandRespQId (shared w)"
      "contents (kern (shared w)) (tCommandRespQId (shared w)) = Some []"
      "room MTEXT_SIZE (kern (shared w)) (tCommandRespQId (shared w)) 1"
  shows "\<exists>v. gateway_step\<^sup>*\<^sup>* (Running w) (Running v) \<and> rx_log v = rx_log w @ fr \<and>
     central_at v = Top STATE_CENTRAL_DEVICE_SCAN_CANCEL \<and>
     take 6 (Scanned_MAC_Buff (shared v)) = rev (take 6 (drop 8 fr)) \<and>
     contents (kern (shared v)) = contents (kern (shared w)) \<and>
     rx_ready v = Some qs \<and> pending v = [] \<and> rx_idle (receiver v) \<and>
     tCommandRespQId (shared v) = tCommandRespQId (shared w)"
proof -
  from fr have fr': "event_frame fr" "25 \<le> length fr" "length fr \<le> MTEXT_SIZE" "vendor_event fr"
    "\<not> shadowed fr" "event_code fr \<in> set command_events" "event_code fr = VS_GAP_DEVICE_INFORMATION"
    "uuid_match fr"
    by (auto simp: matching_advert_def command_events_def)
  obtain r k where 1: "gateway_step\<^sup>*\<^sup>* (Running w)
      (Running (w\<lparr>receiver := r, rx_log := rx_log w @ fr, shared := (shared w)\<lparr>kern := k\<rparr>\<rparr>))" (is "_ (Running ?u)")
    and k: "contents k = (contents (kern (shared w)))(tCommandRespQId (shared w) \<mapsto> [fr])" and r: "rx_idle r"
    using gateway_forward [OF w(1-4) fr'(1) _ fr'(3-6), of "[]" 0] fr'(2) q by auto
  have "gateway_inv (Running ?u)"
    using gateway.steps_inv [OF 1] w(1) by simp
  then have ok: "globals_ok (shared ?u)" by (simp add: process_inv_def)
  have c: "contents (kern (shared ?u)) (tCommandRespQId (shared ?u)) = Some [fr]"
    by (simp add: k)
  have vm: "vendor_msg fr" "msg_code fr = VS_GAP_DEVICE_INFORMATION"
    using fr'(4,7) by (simp_all add: vendor_msg_def vendor_event_def event_code_def BLE_EVT_PKT_def)
  obtain g where g: "Device_Scan_Data (shared ?u) = Returns (Value 2, g)"
    and mac: "Scanned_MAC_Buff g =
      [fr ! 13, fr ! 12, fr ! 11, fr ! 10, fr ! 9, fr ! 8, Scanned_MAC_Buff (shared ?u) ! 6]"
    and cg: "contents (kern g) = (contents k)(tCommandRespQId (shared w) \<mapsto> [])"
    using scan_data_message [OF ok c fr'(2)] vm fr'(8) by auto
  have step: "central_step (central_at ?u) (shared ?u) = Returns (Top STATE_CENTRAL_DEVICE_SCAN_CANCEL, g)"
    using w(5) g by (simp add: central_state_step_def as_status_def scan_data_next_def)
  from gateway_step.central [OF step]
  have 2: "gateway_step (Running ?u)
    (Running (?u\<lparr>central_at := Top STATE_CENTRAL_DEVICE_SCAN_CANCEL, shared := g\<rparr>))" .
  have "take 6 (drop 8 fr) = [fr ! 8, fr ! 9, fr ! 10, fr ! 11, fr ! 12, fr ! 13]"
    using fr'(2) by (simp add: take_Suc_conv_app_nth eval_nat_numeral)
  with mac have m: "take 6 (Scanned_MAC_Buff g) = rev (take 6 (drop 8 fr))" by simp
  have "contents (kern g) = contents (kern (shared w))"
    using cg k q(2) by (auto simp: fun_upd_idem)
  moreover have "tCommandRespQId g = tCommandRespQId (shared w)"
    using central_step_queue [OF _ step] w(5) by simp
  ultimately show ?thesis using 1 2 m r w(2,3)
    by (intro exI [of _ "?u\<lparr>central_at := Top STATE_CENTRAL_DEVICE_SCAN_CANCEL, shared := g\<rparr>"])
      (simp add: rtranclp.rtrancl_into_rtrancl)
qed

text \<open>A frame at an idle receiver, up to the start of its dispatch.\<close>

lemma gateway_frame:
  assumes w: "process_inv w" "rx_ready w = Some qs" "pending w = []" "rx_idle (receiver w)" and fr: "event_frame fr"
  shows "\<exists>v p n. gateway_step\<^sup>*\<^sup>* (Running w) (Running v) \<and> rx_log v = rx_log w @ fr \<and> rx_ready v = Some qs \<and>
     pending v = dispatch qs p n \<and> shared v = shared w \<and> length p = 2048 \<and> unat n = length fr \<and> (\<forall>i. i < length fr \<longrightarrow> p ! i = fr ! i)"
proof -
  obtain bs b r1 p n r where bs: "fr = bs @ [b]" "feed rx_byte bs (receiver w) = Returns ([], r1)"
    and b: "rx_byte b r1 = Returns (Some (p, n), r)" and dl: "delivered_bytes (p, n) = fr"
    using frame_last [OF w(4) fr] by auto
  let ?u = "w\<lparr>receiver := r1, rx_log := rx_log w @ bs, shared := shared w\<rparr>"
  let ?v = "?u\<lparr>receiver := r, rx_log := rx_log ?u @ [b], pending := dispatch qs p n\<rparr>"
  have 1: "gateway_step\<^sup>*\<^sup>* (Running w) (Running ?u)"
    using gateway_feed [OF w(2,3) bs(2), of "shared w"] by simp
  have 2: "gateway_step (Running ?u) (Running ?v)"
    by (rule gateway_step.rx_packet [of _ qs]) (use w b in simp_all)
  have "rx_ok r1" using gateway.steps_inv [OF 1] w(1) by (simp add: process_inv_def)
  from rx_packet_length [OF this b] have p: "length p = 2048" .
  with unat_u8_less [of n] have np: "unat n \<le> length p" by simp
  from frame_prefix [OF dl np] have "unat n = length fr" "\<forall>i. i < length fr \<longrightarrow> p ! i = fr ! i" by auto
  with 1 2 p w(2) bs(1) show ?thesis
    by (intro exI [of _ ?v] exI [of _ p] exI [of _ n]) (simp add: rtranclp.rtrancl_into_rtrancl)
qed

lemma gateway_bad_handle:
  assumes w: "process_inv w" "rx_ready w = Some qs" "pending w = []" "rx_idle (receiver w)"
    and fr: "event_frame fr" "9 \<le> length fr" "vendor_event fr" "\<not> shadowed fr"
      "event_code fr = VS_GAP_LINK_TERMINATED" "6 \<le> 256 * unat (fr ! 7) + unat (fr ! 6)"
  shows "\<exists>v. gateway_step\<^sup>*\<^sup>* (Running w) (Running v) \<and> rx_log v = rx_log w @ fr \<and>
     gateway_step (Running v) (Crashed (Index_Range 6 (int (256 * unat (fr ! 7) + unat (fr ! 6)))))"
proof -
  obtain v p n where v: "gateway_step\<^sup>*\<^sup>* (Running w) (Running v)" "pending v = dispatch qs p n" "shared v = shared w"
      "rx_log v = rx_log w @ fr"
    and p: "\<forall>i. i < length fr \<longrightarrow> p ! i = fr ! i"
    using gateway_frame [OF w fr(1)] by blast
  have nth: "p ! i = fr ! i" if "i < 9" for i using p fr(2) that by simp
  have same: "vendor_event p = vendor_event fr" "event_code p = event_code fr" "event_opcode p = event_opcode fr"
    unfolding vendor_event_def event_code_def event_opcode_def by (simp_all add: nth)
  have "event_code fr \<notin> set command_events" "event_code fr \<noteq> VS_COMMAND_STATUS"
    using fr(5) by (auto simp: command_events_def hci_codes)
  then obtain as where d: "dispatch qs p n = Clear_Status (MAKE16OFXY (fr ! 7) (fr ! 6)) # as"
    using dispatch_vendor [of p "event_code fr" qs n] fr(3-5) same
    by (simp add: shadowed_def dispatch_link_terminated_def Let_def nth)
  have "length (Conn_Device_List (shared v)) = 6"
    using w(1) v(3) by (simp add: process_inv_def globals_ok_def)
  then have "run_action (Clear_Status (MAKE16OFXY (fr ! 7) (fr ! 6))) (shared v) =
      Fault (Index_Range 6 (int (256 * unat (fr ! 7) + unat (fr ! 6))))"
    using fr(6) by (simp add: clear_status_eq unat_make16 del: of_nat_add of_nat_mult)
  from gateway_step.rx_act_fault [OF _ this, of as] v(1,2,4) d show ?thesis
    by (intro exI [of _ v]) (simp del: of_nat_add of_nat_mult)
qed

end
