(* ===== verification/Scanner_Runs.thy ===== *)
theory Scanner_Runs
  imports Gateway
begin

text \<open>
  Whole runs of the scanner process of theory Gateway.  The queues of the receive thread that no
  thread of the process reads (\<open>main\<close> starts the receive thread and the central thread only, so
  the readers in \<open>UartCmdRxThread.c\<close>, modelled in theory Forward, never run) and what happens
  when one of them is full; what has happened before the central thread asks for a link; and
  the run from the bytes on the UART to the fault in that request.
\<close>

subsection \<open>The central thread receives from one queue only\<close>

definition queue_kept :: "int \<Rightarrow> globals \<Rightarrow> globals \<Rightarrow> bool" where
  "queue_kept q g g' \<longleftrightarrow>
     mq_msgs (kern g') q = mq_msgs (kern g) q \<and> mq_qbytes (kern g') = mq_qbytes (kern g)"

lemma queue_kept_refl [simp]: "queue_kept q g g"
  by (simp add: queue_kept_def)

lemma queue_kept_trans: "queue_kept q g g1 \<Longrightarrow> queue_kept q g1 g2 \<Longrightarrow> queue_kept q g g2"
  by (simp add: queue_kept_def)

lemma uart_queue_kept: "uart_only g g' \<Longrightarrow> queue_kept q g g'"
  by (simp add: queue_kept_def uart_only_fields)

lemma recv_buffer_kept:
  "q \<noteq> qid \<Longrightarrow> on_return (\<lambda>g'. queue_kept q g g' \<and> tCommandRespQId g' = tCommandRespQId g) (recv_buffer qid g)"
  by (auto simp: on_return_iff recv_buffer_def outcome_bind_eq_Returns queue_kept_def
      dest: sys_mq_recv_others)

lemma central_step_kept:
  assumes pc: "pc \<noteq> Start" and q: "tCommandRespQId g \<noteq> q" and c: "central_step pc g = Returns (pc', g')"
  shows "queue_kept q g g'"
proof -
  let ?P = "\<lambda>g1. queue_kept q g g1 \<and> tCommandRespQId g1 \<noteq> q"
  have recv: "on_return ?P (recv_buffer (tCommandRespQId g1) g1)" if "?P g1" for g1
    using recv_buffer_kept [of q "tCommandRespQId g1" g1] that
    by (auto simp: on_return_iff intro: queue_kept_trans)
  have "on_return (\<lambda>(pc', g'). ?P g') (central_step pc g)"
  proof (rule central_step_keeps)
    fix g1 assume P: "?P g1"
    show "on_return (\<lambda>(v, g'). ?P g') (Device_Scan_Rsp g1)"
      unfolding Device_Scan_Rsp_def Let_def by (rule on_return_bind [OF recv [OF P]]) simp
    show "on_return (\<lambda>(v, g'). ?P g') (Device_Scan_Data g1)"
      unfolding Device_Scan_Data_def Let_def
      by (rule on_return_bind [OF recv [OF P]])
        (auto simp: on_return_iff outcome_bind_eq_Returns queue_kept_def)
    show "on_return (\<lambda>(v, g'). ?P g') (Device_Scan_Cancel_Rsp g1)"
      unfolding Device_Scan_Cancel_Rsp_def Let_def by (rule on_return_bind [OF recv [OF P]]) simp
    show "on_return (\<lambda>(v, g'). ?P g') (Device_Establish_Link_Rsp g1)"
      unfolding Device_Establish_Link_Rsp_def Let_def
      by (rule on_return_bind [OF recv [OF P]])
        (auto simp: on_return_iff outcome_bind_eq_Returns queue_kept_def)
    fix g2 assume "uart_only g1 g2"
    with P show "?P g2" by (auto intro: queue_kept_trans uart_queue_kept simp: uart_only_fields)
  qed (use pc q in auto)
  with c show ?thesis by simp
qed

text \<open>The start-up sequence may create a queue and leaves the others alone.\<close>

lemma sys_mq_init_kept:
  assumes ok: "kernel_ok cap k" and q: "mq_msgs k q = Some ms" and i: "sys_mq_init k key = (qid, k')"
  shows "mq_msgs k' q = Some ms \<and> mq_qbytes k' = mq_qbytes k"
  using kernel_ok_msgsD [OF ok q] i q
  by (auto simp: sys_mq_init_def msgget_def Let_def split: option.splits if_splits)

lemma central_start_kept:
  assumes ok: "globals_ok g" and q: "mq_msgs (kern g) q = Some ms" and c: "central_step Start g = Returns (pc', g')"
  shows "queue_kept q g g'"
proof -
  obtain g1 qid k where "central_startup g = Returns (g1\<lparr>kern := k, tCommandRespQId := qid\<rparr>)"
    and i: "sys_mq_init (kern g) COMMANDRESP_THREAD_QUEUE_KEY = (qid, k)"
    using central_startup_log [of g] by blast
  with c have "kern g' = k" by auto
  with sys_mq_init_kept [OF _ q i, of MTEXT_SIZE] ok q show ?thesis
    by (simp add: queue_kept_def globals_ok_def)
qed

text \<open>The queue of any other key than the response key is left alone by every step.\<close>

lemma central_keeps_others:
  assumes w: "process_linked w" and key: "mq_key (kern (shared w)) key = Some q" "key \<noteq> COMMANDRESP_THREAD_QUEUE_KEY"
    and c: "central_step (central_at w) (shared w) = Returns (pc, g)"
  shows "queue_kept q (shared w) g \<and> mq_key (kern g) key = Some q"
proof -
  have ok: "globals_ok (shared w)" using w by (simp add: process_linked_def process_inv_def)
  then have k: "kernel_ok MTEXT_SIZE (kern (shared w))" by (simp add: globals_ok_def)
  obtain ms where ms: "mq_msgs (kern (shared w)) q = Some ms" and q: "0 \<le> q"
    using kernel_ok_keyD [OF k key(1)] by blast
  have "keeps_key key q (shared w)" using ok key(1) by (simp add: keeps_key_def)
  from central_step_keys [OF this, of "central_at w"] c have 1: "mq_key (kern g) key = Some q"
    by (simp add: keeps_key_def)
  have "queue_kept q (shared w) g"
  proof (cases "central_at w = Start")
    case True
    with central_start_kept [OF ok ms] c show ?thesis by (simp del: central_step.simps)
  next
    case False
    with w have "known (kern (shared w)) COMMANDRESP_THREAD_QUEUE_KEY (tCommandRespQId (shared w))"
      by (simp add: process_linked_def)
    then have "tCommandRespQId (shared w) \<noteq> q"
      using q kernel_ok_injD [OF k _ key(1)] key(2) by (auto simp: known_def)
    from central_step_kept [OF False this c] show ?thesis .
  qed
  with 1 show ?thesis by blast
qed


subsection \<open>A receive thread that waits for a reader that does not exist\<close>

lemma send_blocks_iff:
  "run_action (Mq_Send q p n) g = Blocks \<longleftrightarrow>
     unat n \<le> MTEXT_SIZE \<and> unat n \<le> length p \<and>
     (\<exists>ms. mq_msgs (kern g) q = Some ms \<and> mq_qbytes (kern g) < queued_bytes ms + MQBUFSIZE MTEXT_SIZE)"
  by (auto simp: sys_mq_send_def msgsnd_def copy_from_def unat_ucast_u8_u16 not_le
      split: option.splits if_splits)

lemma send_blocks_kept:
  "run_action (Mq_Send q p n) g = Blocks \<Longrightarrow> queue_kept q g g' \<Longrightarrow> run_action (Mq_Send q p n) g' = Blocks"
  unfolding send_blocks_iff queue_kept_def by simp

text \<open>The receive thread is stuck in a send to a full queue that no thread empties.\<close>

definition receiver_stuck :: "process \<Rightarrow> bool" where
  "receiver_stuck w \<longleftrightarrow>
     rx_ready w \<noteq> None \<and>
     (\<exists>q p n as key. pending w = Mq_Send q p n # as \<and> key \<noteq> COMMANDRESP_THREAD_QUEUE_KEY \<and>
        mq_key (kern (shared w)) key = Some q \<and> run_action (Mq_Send q p n) (shared w) = Blocks)"

lemma stuck_step:
  assumes st: "gateway_step (Running w) s" and w: "process_linked w" and stuck: "receiver_stuck w"
  shows "s = Crashed (Overflow 10 13) \<or>
    (\<exists>v. s = Running v \<and> process_linked v \<and> receiver_stuck v \<and> receiver v = receiver w \<and> pending v = pending w \<and>
      rx_log v = rx_log w)"
proof -
  obtain q p n as key where pend: "pending w = Mq_Send q p n # as" and key: "key \<noteq> COMMANDRESP_THREAD_QUEUE_KEY"
      "mq_key (kern (shared w)) key = Some q"
    and b: "run_action (Mq_Send q p n) (shared w) = Blocks" and rdy: "rx_ready w \<noteq> None"
    using stuck by (auto simp: receiver_stuck_def)
  have linked: "process_linked v" if "s = Running v" for v
    using gateway_step_linked [OF st] w that by simp
  from st show ?thesis
  proof (cases rule: gateway_step.cases)
    case (central pc g)
    have k: "queue_kept q (shared w) g" "mq_key (kern g) key = Some q"
      using central_keeps_others [OF w key(2,1) central(2)] by auto
    have "receiver_stuck (w\<lparr>central_at := pc, shared := g\<rparr>)"
      unfolding receiver_stuck_def using rdy pend key(1) k(2) send_blocks_kept [OF b k(1)] by auto
    with central(1) linked show ?thesis by simp
  next
    case (central_fault e)
    with central_step_fault [of "shared w" "central_at w" e] w show ?thesis
      by (auto simp: process_linked_def process_inv_def simp del: central_step.simps)
  qed (use pend rdy b in auto)
qed

lemma stuck_steps:
  assumes "gateway_step\<^sup>*\<^sup>* (Running w) s" and "process_linked w" and "receiver_stuck w"
  shows "s = Crashed (Overflow 10 13) \<or>
    (\<exists>v. s = Running v \<and> process_linked v \<and> receiver_stuck v \<and> receiver v = receiver w \<and> pending v = pending w \<and>
      rx_log v = rx_log w)"
  using assms(1)
proof (induction rule: rtranclp_induct)
  case base
  from assms(2,3) show ?case by blast
next
  case (step s t)
  from step.IH show ?case
  proof (elim disjE exE conjE)
    fix v assume v: "s = Running v" "process_linked v" "receiver_stuck v" "receiver v = receiver w" "pending v = pending w"
      "rx_log v = rx_log w"
    from stuck_step [OF step.hyps(2) [unfolded v(1)] v(2,3)] v(4-6) show ?thesis by simp
  qed (use step.hyps(2) in \<open>simp add: gateway_step_Crashed\<close>)
qed


text \<open>A notification for connection 0: the packet goes to the queue of pipe 0.\<close>

definition notification_frame :: "u8 list" where
  "notification_frame = [4, 0xFF, 5, 0x1B, 0x05, 0, 0, 0]"

lemma notification_frame_dispatch:
  assumes "\<And>i. i < length notification_frame \<Longrightarrow> p ! i = notification_frame ! i"
  shows "dispatch qs p n = [Mq_Send (Pipe_0_Id qs) p n]"
proof -
  have fr: "vendor_event notification_frame" "event_code notification_frame = EVENT_VS_ATT_HANDLE_VALUE_NOTIFICATION"
    "\<not> shadowed notification_frame"
    by (simp_all add: vendor_event_def event_code_def event_opcode_def shadowed_def notification_frame_def
        BLE_EVT_PKT_def make16_eq_iff) (simp_all add: hci_codes MAKE16OFXY_def LSBYTEOF16BIT_def MSBYTEOF16BIT_def)
  have t: "vendor_event p = vendor_event notification_frame" "event_code p = event_code notification_frame"
    "event_opcode p = event_opcode notification_frame"
    using assms by (intro packet_tests; simp add: notification_frame_def)+
  have "p ! 6 = 0" using assms [of 6] by (simp add: notification_frame_def)
  with fr t dispatch_vendor [of p "event_code notification_frame" qs n] show ?thesis
    by (simp add: shadowed_def send_pipe_def command_events_def hci_codes)
qed

lemma send_room:
  assumes "run_action (Mq_Send q p n) g = Returns g'" and "mq_msgs (kern g) q = Some ms"
  shows "room MTEXT_SIZE (kern g') q i \<longleftrightarrow> room MTEXT_SIZE (kern g) q (Suc i)"
    and "mq_key (kern g') = mq_key (kern g)"
  using assms by (auto simp: outcome_bind_eq_Returns sys_mq_send_def msgsnd_def room_def split: if_splits)

lemma room_exhausted: "\<exists>j. \<not> room MTEXT_SIZE k q (Suc j)"
proof -
  have "\<not> queued_bytes ms + Suc (mq_qbytes k) * MQBUFSIZE MTEXT_SIZE \<le> mq_qbytes k" for ms
    by (simp add: MQBUFSIZE_def MTEXT_SIZE_def)
  then show ?thesis by (intro exI [of _ "mq_qbytes k"]) (simp add: room_def split: option.split)
qed

text \<open>Notifications fill the queue of pipe 0 until the receive thread is stuck: the bytes read are
  those of a number of notifications, all but the last are in the queue, and the last is the
  packet that cannot be sent.\<close>

definition filled_by :: "nat \<Rightarrow> process \<Rightarrow> rx_queues \<Rightarrow> u8 list list \<Rightarrow> process \<Rightarrow> bool" where
  "filled_by k w qs ms v \<longleftrightarrow>
     rx_log v = rx_log w @ concat (replicate (Suc k) notification_frame) \<and>
     contents (kern (shared v)) (Pipe_0_Id qs) = Some (ms @ replicate k notification_frame) \<and>
     (\<exists>p n. pending v = [Mq_Send (Pipe_0_Id qs) p n] \<and> take (unat n) p = notification_frame)"

lemma filled_by_step:
  assumes "filled_by k u qs (ms @ [notification_frame]) v" and "rx_log u = rx_log w @ notification_frame"
  shows "filled_by (Suc k) w qs ms v"
  using assms by (simp add: filled_by_def)

lemma notifications_fill:
  "process_linked w \<Longrightarrow> rx_ready w = Some qs \<Longrightarrow> pending w = [] \<Longrightarrow> rx_idle (receiver w) \<Longrightarrow>
   mq_key (kern (shared w)) CONN_PIPE_0_KEY = Some (Pipe_0_Id qs) \<Longrightarrow>
   contents (kern (shared w)) (Pipe_0_Id qs) = Some ms \<Longrightarrow>
   \<not> room MTEXT_SIZE (kern (shared w)) (Pipe_0_Id qs) (Suc j) \<Longrightarrow>
   \<exists>k v. gateway_step\<^sup>*\<^sup>* (Running w) (Running v) \<and> process_linked v \<and> receiver_stuck v \<and> filled_by k w qs ms v"
proof (induction j arbitrary: w ms)
  case 0
  have inv: "process_inv w" using 0(1) by (simp add: process_linked_def)
  have ef: "event_frame notification_frame" by (simp add: event_frame_def notification_frame_def BLE_EVT_PKT_def)
  obtain v p n where v: "gateway_step\<^sup>*\<^sup>* (Running w) (Running v)" "rx_ready v = Some qs"
    "pending v = dispatch qs p n" "shared v = shared w" "rx_log v = rx_log w @ notification_frame"
    and p: "length p = 2048" "unat n = length notification_frame"
      "\<forall>i. i < length notification_frame \<longrightarrow> p ! i = notification_frame ! i"
    using gateway_frame [OF inv 0(2-4) ef] by blast
  from p(3) have d: "pending v = [Mq_Send (Pipe_0_Id qs) p n]"
    using notification_frame_dispatch [of p qs n] v(3) by simp
  have "kernel_ok MTEXT_SIZE (kern (shared w))" using inv by (simp add: process_inv_def globals_ok_def)
  then obtain qms where "mq_msgs (kern (shared w)) (Pipe_0_Id qs) = Some qms"
    using 0(5) kernel_ok_keyD by blast
  with 0(7) p have "run_action (Mq_Send (Pipe_0_Id qs) p n) (shared v) = Blocks"
    unfolding send_blocks_iff by (simp add: room_def v(4) MTEXT_SIZE_def notification_frame_def)
  then have "receiver_stuck v"
    unfolding receiver_stuck_def using d v(2,4) 0(5)
    by (intro conjI exI [of _ CONN_PIPE_0_KEY] exI)
      (auto simp: CONN_PIPE_0_KEY_def COMMANDRESP_THREAD_QUEUE_KEY_def simp del: run_action.simps)
  moreover have "process_linked v" using gateway_queues.steps_inv [OF v(1)] 0(1) by simp
  moreover have "take (unat n) p = notification_frame"
    using p by (intro nth_equalityI) (simp_all add: notification_frame_def)
  then have "filled_by 0 w qs ms v" using 0(6) d v(4,5) by (simp add: filled_by_def)
  ultimately show ?case using v(1) by blast
next
  case (Suc j)
  show ?case
  proof (cases "room MTEXT_SIZE (kern (shared w)) (Pipe_0_Id qs) (Suc j)")
    case False
    with Suc.IH [OF Suc.prems(1-6)] show ?thesis by blast
  next
    case True
    have inv: "process_inv w" using Suc.prems(1) by (simp add: process_linked_def)
    have ef: "event_frame notification_frame" "length notification_frame \<le> MTEXT_SIZE"
      by (simp_all add: event_frame_def notification_frame_def MTEXT_SIZE_def BLE_EVT_PKT_def)
    obtain qms where qms: "mq_msgs (kern (shared w)) (Pipe_0_Id qs) = Some qms"
      using True by (auto simp: room_def split: option.splits)
    obtain r p n k where 1: "gateway_step\<^sup>*\<^sup>* (Running w)
        (Running (w\<lparr>receiver := r, rx_log := rx_log w @ notification_frame, shared := (shared w)\<lparr>kern := k\<rparr>\<rparr>))" (is "_ (Running ?v)")
      and r: "rx_idle r" and run: "run_action (Mq_Send (Pipe_0_Id qs) p n) (shared w) = Returns ((shared w)\<lparr>kern := k\<rparr>)"
      and k: "contents k = (contents (kern (shared w)))(Pipe_0_Id qs \<mapsto> ms @ [notification_frame])"
      using gateway_sends [OF inv Suc.prems(2-4) ef notification_frame_dispatch Suc.prems(6) True] by blast
    have "process_linked ?v" using gateway_queues.steps_inv [OF 1] Suc.prems(1) by simp
    moreover have "\<not> room MTEXT_SIZE (kern (shared ?v)) (Pipe_0_Id qs) (Suc j)"
      "mq_key (kern (shared ?v)) CONN_PIPE_0_KEY = Some (Pipe_0_Id qs)"
      using send_room [OF run qms] Suc.prems(5,7) by simp_all
    moreover have "contents (kern (shared ?v)) (Pipe_0_Id qs) = Some (ms @ [notification_frame])" by (simp add: k)
    ultimately obtain i v where v: "gateway_step\<^sup>*\<^sup>* (Running ?v) (Running v)" "process_linked v" "receiver_stuck v"
      "filled_by i ?v qs (ms @ [notification_frame]) v"
      using Suc.IH [of ?v "ms @ [notification_frame]"] Suc.prems(2,3) r by auto
    have "filled_by (Suc i) w qs ms v" using filled_by_step [OF v(4)] by simp
    with 1 v(1-3) show ?thesis by (meson rtranclp_trans)
  qed
qed


subsection \<open>What came before a link request\<close>

text \<open>The receive thread never writes the globals of the central thread.\<close>

definition central_view :: "globals \<Rightarrow> u8 list \<times> u8 list \<times> int \<times> (nat \<Rightarrow> int) \<times> (nat \<Rightarrow> nat \<Rightarrow> int)" where
  "central_view g = (buffer g, Scanned_MAC_Buff g, tCommandRespQId g, env_junk g, env_write g)"

lemma run_action_view: "on_return (\<lambda>g'. central_view g' = central_view g) (run_action a g)"
proof (cases a)
  case (Data_Ack idz)
  then show ?thesis by (auto simp: data_ack_def send_pac_eq central_view_def)
qed (auto simp: on_return_iff outcome_bind_eq_Returns central_view_def clear_status_eq Upadate_Disconnection_eq)

text \<open>What the buffer holds when the end of the scan has been confirmed with status 0x30.\<close>

definition scan_done :: "u8 list \<Rightarrow> bool" where
  "scan_done b \<longleftrightarrow> vendor_msg b \<and> msg_code b = VS_GAP_DEVICE_DISCOVERY \<and> b ! 5 = 0x30"

text \<open>The step in which the central thread, waiting for scan data, takes the first message of its queue
  into the buffer, finds a matching advertisement there and stores its address.\<close>

definition took_advert :: "process \<Rightarrow> process \<Rightarrow> bool" where
  "took_advert u u' \<longleftrightarrow>
     central_at u = Top STATE_CENTRAL_DEVICE_SCAN_DATA \<and>
     (\<exists>m ms. contents (kern (shared u)) (tCommandRespQId (shared u)) = Some (m # ms) \<and>
        contents (kern (shared u')) (tCommandRespQId (shared u)) = Some ms \<and>
        buffer (shared u') = m @ drop (length m) (buffer (shared u))) \<and>
     vendor_msg (buffer (shared u')) \<and> msg_code (buffer (shared u')) = VS_GAP_DEVICE_INFORMATION \<and>
     uuid_match (buffer (shared u')) \<and>
     take 6 (Scanned_MAC_Buff (shared u')) = rev (take 6 (drop 8 (buffer (shared u'))))"

text \<open>The stored address is the one of such a step earlier on the run.\<close>

definition from_advert :: "process \<Rightarrow> bool" where
  "from_advert w \<longleftrightarrow>
     (\<exists>u u'. gateway_reaches (Running u) \<and> gateway_step (Running u) (Running u') \<and> took_advert u u' \<and>
        gateway_step\<^sup>*\<^sup>* (Running u') (Running w) \<and>
        Scanned_MAC_Buff (shared w) = Scanned_MAC_Buff (shared u'))"

definition cancelling :: "central_pc \<Rightarrow> bool" where
  "cancelling pc \<longleftrightarrow>
     pc \<in> {Top STATE_CENTRAL_DEVICE_SCAN_CANCEL, Top STATE_CENTRAL_DEVICE_SCAN_CANCEL_RSP,
           Top STATE_CENTRAL_DEVICE_ESTABLISH_LINK_REQ}"

text \<open>No value left over in the result register is read as the code 2, \<open>advertisement found\<close>.\<close>

definition junk_harmless :: "globals \<Rightarrow> bool" where
  "junk_harmless g \<longleftrightarrow> (\<forall>i. as_status (env_junk g i) \<noteq> 2)"

definition orderly :: "globals \<Rightarrow> bool" where
  "orderly g \<longleftrightarrow> junk_harmless g \<and> tCommandRespQId g \<noteq> -1"

definition justified :: "process \<Rightarrow> bool" where
  "justified w \<longleftrightarrow>
     (central_at w = Top STATE_CENTRAL_DEVICE_ESTABLISH_LINK_REQ \<longrightarrow> scan_done (buffer (shared w))) \<and>
     (cancelling (central_at w) \<and> orderly (shared w) \<longrightarrow> from_advert w)"

lemma from_advert_step:
  "from_advert w \<Longrightarrow> gateway_step (Running w) (Running v) \<Longrightarrow>
   Scanned_MAC_Buff (shared v) = Scanned_MAC_Buff (shared w) \<Longrightarrow> from_advert v"
  unfolding from_advert_def by (metis rtranclp.rtrancl_into_rtrancl)

lemma justified_rx:
  assumes "justified w" and "gateway_step (Running w) (Running v)"
    and "central_view (shared v) = central_view (shared w)" and "central_at v = central_at w"
  shows "justified v"
proof -
  have "orderly (shared v) = orderly (shared w)" "buffer (shared v) = buffer (shared w)"
    "Scanned_MAC_Buff (shared v) = Scanned_MAC_Buff (shared w)"
    using assms(3) by (simp_all add: orderly_def junk_harmless_def central_view_def)
  with assms from_advert_step [of w v] show ?thesis by (simp add: justified_def)
qed

lemma recv_buffer_view:
  "recv_buffer qid g = Returns g' \<Longrightarrow> Scanned_MAC_Buff g' = Scanned_MAC_Buff g \<and> env_junk g' = env_junk g"
  by (auto simp: recv_buffer_def outcome_bind_eq_Returns)

lemma scan_data_cancel:
  "scan_data_next b = STATE_CENTRAL_DEVICE_SCAN_CANCEL \<Longrightarrow> b = 2"
proof -
  assume "scan_data_next b = STATE_CENTRAL_DEVICE_SCAN_CANCEL"
  then have "uint b = uint (2 :: u8)" by (simp add: scan_data_next_def split: if_splits)
  then show "b = 2" by (rule word_uint_eqI)
qed

text \<open>The queue of the central thread exists once it has an identifier.\<close>

lemma central_queue_exists:
  assumes "process_linked w" and "central_at w \<noteq> Start" and "tCommandRespQId (shared w) \<noteq> -1"
  shows "\<exists>ms. contents (kern (shared w)) (tCommandRespQId (shared w)) = Some ms"
proof -
  have "known (kern (shared w)) COMMANDRESP_THREAD_QUEUE_KEY (tCommandRespQId (shared w))"
    and "kernel_ok MTEXT_SIZE (kern (shared w))"
    using assms(1,2) by (simp_all add: process_linked_def process_inv_def globals_ok_def)
  with assms(3) kernel_ok_keyD show ?thesis by (fastforce simp: known_def contents_def)
qed

lemma address_bytes: "length b = 256 \<Longrightarrow> take 6 (drop 8 b) = [b ! 8, b ! 9, b ! 10, b ! 11, b ! 12, b ! 13]"
  by (simp add: take_Suc_conv_app_nth eval_nat_numeral)

lemma scan_data_took:
  assumes w: "process_linked w" "central_at w = Top STATE_CENTRAL_DEVICE_SCAN_DATA"
    and c: "central_step (Top STATE_CENTRAL_DEVICE_SCAN_DATA) (shared w) = Returns (pc, g)"
    and n: "cancelling pc" "orderly g"
  shows "took_advert w (w\<lparr>central_at := pc, shared := g\<rparr>)"
proof -
  let ?q = "tCommandRespQId (shared w)"
  have ok: "globals_ok (shared w)" using w(1) by (simp add: process_linked_def process_inv_def)
  obtain v g1 where d: "Device_Scan_Data (shared w) = Returns (v, g1)" and g: "g = snd (use_value v g1)"
    and pc: "pc = Top (scan_data_next (as_status (fst (use_value v g1))))"
    using c by (auto simp: central_step_simps)
  have same: "Scanned_MAC_Buff g = Scanned_MAC_Buff g1" "env_junk g = env_junk g1" "buffer g = buffer g1" "kern g = kern g1"
    by (cases v; simp add: g use_junk_def)+
  have "tCommandRespQId g = ?q" using central_step_queue [OF _ c] by simp
  with n(2) have "?q \<noteq> -1" by (simp add: orderly_def)
  with central_queue_exists [OF w(1)] w(2) obtain l where l: "contents (kern (shared w)) ?q = Some l" by auto
  have "l \<noteq> []" using d recv_buffer_blocks [of "shared w" ?q] l by (auto simp: Device_Scan_Data_def)
  with l obtain m ms where m: "contents (kern (shared w)) ?q = Some (m # ms)" by (cases l) auto
  let ?b = "m @ drop (length m) (buffer (shared w))"
  have 1: "contents (kern g1) ?q = Some ms" "buffer g1 = ?b"
    and v: "if vendor_msg ?b \<and> msg_code ?b = VS_GAP_DEVICE_INFORMATION \<and> uuid_match ?b
      then v = Value 2 \<and> Scanned_MAC_Buff g1 =
        [?b ! 13, ?b ! 12, ?b ! 11, ?b ! 10, ?b ! 9, ?b ! 8, Scanned_MAC_Buff (shared w) ! 6]
      else v = No_Value \<and> Scanned_MAC_Buff g1 = Scanned_MAC_Buff (shared w)"
    using scan_data_any [OF ok m refl] d by auto
  have "v \<noteq> No_Value"
    using n pc same(2) scan_data_cancel scan_data_next_cases [of "as_status (fst (use_value v g1))"]
    by (auto simp: cancelling_def orderly_def junk_harmless_def use_junk_def)
  with v have f: "vendor_msg ?b" "msg_code ?b = VS_GAP_DEVICE_INFORMATION" "uuid_match ?b"
    and mac: "Scanned_MAC_Buff g1 = [?b ! 13, ?b ! 12, ?b ! 11, ?b ! 10, ?b ! 9, ?b ! 8, Scanned_MAC_Buff (shared w) ! 6]"
    by (simp_all split: if_splits)
  have "length m \<le> MTEXT_SIZE" using ok contents_fits [OF _ m] by (simp add: globals_ok_def)
  with ok have "length ?b = 256" by (simp add: globals_ok_def MTEXT_SIZE_def)
  from address_bytes [OF this] have "take 6 (Scanned_MAC_Buff g1) = rev (take 6 (drop 8 ?b))"
    unfolding mac by simp
  with f m 1 w(2) show ?thesis by (simp add: took_advert_def same)
qed

lemma scan_cancel_keeps:
  "central_step (Top STATE_CENTRAL_DEVICE_SCAN_CANCEL) g = Returns (pc', g') \<Longrightarrow>
   Scanned_MAC_Buff g' = Scanned_MAC_Buff g \<and> env_junk g' = env_junk g"
  by (auto simp: central_step_simps Device_Scan_Cancel_Req_def send_pac_eq split: if_splits)

lemma scan_cancel_rsp_keeps:
  "central_step (Top STATE_CENTRAL_DEVICE_SCAN_CANCEL_RSP) g = Returns (pc', g') \<Longrightarrow>
   Scanned_MAC_Buff g' = Scanned_MAC_Buff g \<and> env_junk g' = env_junk g \<and>
   (pc' = Top STATE_CENTRAL_DEVICE_ESTABLISH_LINK_REQ \<longrightarrow> scan_done (buffer g'))"
  by (auto simp: central_step_simps Device_Scan_Cancel_Rsp_def as_status_def scan_done_def
      dest!: recv_buffer_view split: if_splits)

lemma not_cancelling: "\<not> cancelling (central_at w) \<Longrightarrow> justified w"
  by (auto simp: justified_def cancelling_def)

lemma central_justified:
  assumes r: "gateway_reaches (Running w)" and l: "process_linked w" and j: "justified w"
    and c: "central_step (central_at w) (shared w) = Returns (pc, g)"
  shows "justified (w\<lparr>central_at := pc, shared := g\<rparr>)" (is "justified ?v")
proof -
  have st: "gateway_step (Running w) (Running ?v)" using c by (rule gateway_step.central)
  have pcs: "central_at w \<in> set central_points" using l by (simp add: process_linked_def process_inv_def)
  consider "central_at w = Top STATE_CENTRAL_DEVICE_SCAN_DATA" | "central_at w = Top STATE_CENTRAL_DEVICE_SCAN_CANCEL"
    | "central_at w = Top STATE_CENTRAL_DEVICE_SCAN_CANCEL_RSP" | "\<not> cancelling pc"
    using central_step_edge [OF c pcs] by (auto simp: central_edges_def cancelling_def)
  then show ?thesis
  proof cases
    case 1
    from c 1 have c': "central_step (Top STATE_CENTRAL_DEVICE_SCAN_DATA) (shared w) = Returns (pc, g)" by simp
    have "from_advert ?v" if "cancelling pc" "orderly g"
      unfolding from_advert_def using scan_data_took [OF l 1 c' that] r st by blast
    moreover have "pc \<noteq> Top STATE_CENTRAL_DEVICE_ESTABLISH_LINK_REQ" using scan_data_step [OF c'] by auto
    ultimately show ?thesis by (simp add: justified_def)
  next
    case 2
    from c 2 have c': "central_step (Top STATE_CENTRAL_DEVICE_SCAN_CANCEL) (shared w) = Returns (pc, g)" by simp
    have "orderly g \<Longrightarrow> orderly (shared w)"
      using scan_cancel_keeps [OF c'] central_step_queue [OF _ c'] by (simp add: orderly_def junk_harmless_def)
    moreover have "pc \<noteq> Top STATE_CENTRAL_DEVICE_ESTABLISH_LINK_REQ" using scan_cancel_step [OF c'] by auto
    ultimately show ?thesis
      using j 2 scan_cancel_keeps [OF c'] from_advert_step [OF _ st] by (simp add: justified_def cancelling_def)
  next
    case 3
    from c 3 have c': "central_step (Top STATE_CENTRAL_DEVICE_SCAN_CANCEL_RSP) (shared w) = Returns (pc, g)" by simp
    have "orderly g \<Longrightarrow> orderly (shared w)"
      using scan_cancel_rsp_keeps [OF c'] central_step_queue [OF _ c'] by (simp add: orderly_def junk_harmless_def)
    then show ?thesis
      using j 3 scan_cancel_rsp_keeps [OF c'] from_advert_step [OF _ st] by (simp add: justified_def cancelling_def)
  qed (intro not_cancelling, simp)
qed

primrec gateway_justified :: "gateway \<Rightarrow> bool" where
  "gateway_justified (Running w) \<longleftrightarrow> gateway_reaches (Running w) \<and> process_linked w \<and> justified w"
| "gateway_justified (Crashed e) \<longleftrightarrow> True"

lemma gateway_step_justified: "gateway_step s t \<Longrightarrow> gateway_justified s \<Longrightarrow> gateway_justified t"
proof (cases t)
  case (Running v)
  assume st: "gateway_step s t" and l: "gateway_justified s"
  from st Running obtain w where s: "s = Running w"
    by (cases s) (auto simp: gateway_step_Crashed)
  with l have r: "gateway_reaches (Running w)" and linked: "process_linked w" and j: "justified w" by simp_all
  have st': "gateway_step (Running w) (Running v)" using st s Running by simp
  have "gateway_reaches (Running v)" using reaches.next_state [OF r st'] .
  moreover have "process_linked v" using gateway_step_linked [OF st'] linked by simp
  moreover have "justified v"
  proof (cases "central_view (shared v) = central_view (shared w) \<and> central_at v = central_at w")
    case True
    with justified_rx [OF j st'] show ?thesis by blast
  next
    case False
    with st' show ?thesis
    proof (cases rule: gateway_step.cases)
      case (rx_act a as g)
      with False run_action_view [of "shared w" a] show ?thesis by simp
    next
      case (central pc g)
      with central_justified [OF r linked j] show ?thesis by simp
    qed (use False in \<open>simp_all add: central_view_def\<close>)
  qed
  ultimately show ?thesis using Running by simp
qed simp

interpretation gateway_requests: step_invariant gateway_init gateway_step gateway_justified
proof
  fix s assume init: "gateway_init s"
  then show "gateway_justified s"
    using gateway_queues.init_inv [OF init] reaches.start [of gateway_init s gateway_step]
    by (cases s) (auto simp: process_init_def cancelling_def intro: not_cancelling)
qed (rule gateway_step_justified)


subsection \<open>From the UART to the fault in the link request\<close>

text \<open>The answers of the kernel to writes, the values left in registers and the size of the queues are
  fixed.\<close>

definition surroundings_of :: "globals \<Rightarrow> (nat \<Rightarrow> nat \<Rightarrow> int) \<times> (nat \<Rightarrow> int) \<times> nat" where
  "surroundings_of g = (env_write g, env_junk g, mq_qbytes (kern g))"

lemma sys_mq_recv_qbytes:
  "sys_mq_recv cap k qid buf n = Returns (r, buf', n', k') \<Longrightarrow> mq_qbytes k' = mq_qbytes k"
proof -
  assume "sys_mq_recv cap k qid buf n = Returns (r, buf', n', k')"
  then obtain got where "msgrcv k qid (MQBUFSIZE cap) 1 = Returns (got, k')"
    by (auto simp: sys_mq_recv_def outcome_bind_eq_Returns split: option.splits)
  then show ?thesis by (auto simp: msgrcv_def split: option.splits if_splits)
qed

lemma sys_mq_init_qbytes: "sys_mq_init k key = (qid, k') \<Longrightarrow> mq_qbytes k' = mq_qbytes k"
  by (cases "mq_key k key")
    (auto simp: sys_mq_init_def msgget_def Let_def split: if_splits)

lemma sys_mq_send_qbytes: "sys_mq_send cap k qid buf n = Returns (r, k') \<Longrightarrow> mq_qbytes k' = mq_qbytes k"
  by (auto simp: sys_mq_send_def outcome_bind_eq_Returns msgsnd_def split: if_splits option.splits)

lemma init_queues_qbytes: "init_queues keys k = (qids, k') \<Longrightarrow> mq_qbytes k' = mq_qbytes k"
proof (induction keys arbitrary: k qids)
  case (Cons key keys)
  obtain q k1 where 1: "sys_mq_init k key = (q, k1)" by force
  obtain qs k2 where 2: "init_queues keys k1 = (qs, k2)" by force
  from Cons.prems 1 2 have "k' = k2" by simp
  with Cons.IH [of k1 qs] 2 sys_mq_init_qbytes [OF 1] show ?case by simp
qed simp

lemma run_action_surroundings: "on_return (\<lambda>g'. surroundings_of g' = surroundings_of g) (run_action a g)"
proof (cases a)
  case (Mq_Send q p n)
  then show ?thesis
    by (auto simp: on_return_iff outcome_bind_eq_Returns surroundings_of_def dest: sys_mq_send_qbytes)
qed (simp_all add: data_ack_def send_pac_eq surroundings_of_def clear_status_eq Upadate_Disconnection_eq)

lemma central_step_surroundings:
  "on_return (\<lambda>(pc', g'). surroundings_of g' = surroundings_of g) (central_step pc g)"
proof (rule central_step_keeps)
  let ?P = "\<lambda>g'. surroundings_of g' = surroundings_of g"
  have recv: "on_return ?P (recv_buffer qid g1)" if "?P g1" for qid g1
    using that by (auto simp: on_return_iff recv_buffer_def outcome_bind_eq_Returns surroundings_of_def
        dest: sys_mq_recv_qbytes)
  fix g1 assume P: "?P g1"
  have uart: "surroundings_of g3 = surroundings_of g2" if "uart_only g2 g3" for g2 g3
  proof -
    have "env_write g3 = env_write g2 \<and> env_junk g3 = env_junk g2"
      using that unfolding uart_only_def by (cases g2; cases g3) simp
    with that show ?thesis by (simp add: surroundings_of_def uart_only_fields)
  qed
  obtain g2 qid k where s: "central_startup g1 = Returns (g2\<lparr>kern := k, tCommandRespQId := qid\<rparr>)"
    and u: "uart_only g1 g2" and i: "sys_mq_init (kern g1) COMMANDRESP_THREAD_QUEUE_KEY = (qid, k)"
    using central_startup_log by blast
  from uart [OF u] sys_mq_init_qbytes [OF i] P s show "on_return ?P (central_startup g1)"
    by (simp add: surroundings_of_def)
  show "on_return (\<lambda>(v, g'). ?P g') (Device_Scan_Rsp g1)"
    unfolding Device_Scan_Rsp_def Let_def by (rule on_return_bind [OF recv [OF P]]) simp
  show "on_return (\<lambda>(v, g'). ?P g') (Device_Scan_Data g1)"
    unfolding Device_Scan_Data_def Let_def
    by (rule on_return_bind [OF recv [OF P]])
      (auto simp: on_return_iff outcome_bind_eq_Returns surroundings_of_def)
  show "on_return (\<lambda>(v, g'). ?P g') (Device_Scan_Cancel_Rsp g1)"
    unfolding Device_Scan_Cancel_Rsp_def Let_def by (rule on_return_bind [OF recv [OF P]]) simp
  show "on_return (\<lambda>(v, g'). ?P g') (Device_Establish_Link_Rsp g1)"
    unfolding Device_Establish_Link_Rsp_def Let_def
    by (rule on_return_bind [OF recv [OF P]])
      (auto simp: on_return_iff outcome_bind_eq_Returns surroundings_of_def)
  fix g2 assume "uart_only g1 g2"
  from uart [OF this] P show "?P g2" by simp
qed simp

lemma gateway_step_surroundings:
  "gateway_step (Running w) (Running v) \<Longrightarrow> surroundings_of (shared v) = surroundings_of (shared w)"
proof (erule gateway_stepE)
  fix j1 j2 j3 qs k
  assume "Running v = Running (w\<lparr>rx_ready := Some qs, shared := (shared w)\<lparr>kern := k\<rparr>\<rparr>)"
    and "rx_thread_init j1 j2 j3 (kern (shared w)) = (qs, k)"
  then show ?thesis
    by (auto simp: rx_thread_init_def surroundings_of_def split: prod.splits dest: init_queues_qbytes)
next
  fix a as g
  assume "Running v = Running (w\<lparr>pending := as, shared := g\<rparr>)" and "run_action a (shared w) = Returns g"
  with run_action_surroundings [of "shared w" a] show ?thesis by simp
next
  fix pc g
  assume "Running v = Running (w\<lparr>central_at := pc, shared := g\<rparr>)" and "central_step (central_at w) (shared w) = Returns (pc, g)"
  with central_step_surroundings [of "shared w" "central_at w"] show ?thesis by simp
qed simp_all

lemma gateway_steps_running:
  "gateway_step\<^sup>*\<^sup>* s (Running v) \<Longrightarrow> s = Running w \<Longrightarrow> surroundings_of (shared v) = surroundings_of (shared w)"
proof (induction arbitrary: w rule: converse_rtranclp_induct)
  case (step s t)
  then obtain u where u: "t = Running u"
    by (cases t) (auto simp: gateway_step_Crashed elim: converse_rtranclpE)
  with step gateway_step_surroundings [of w u] show ?case by simp
qed simp

lemma room_of_empty:
  "contents k q = Some [] \<Longrightarrow> room cap k q n \<longleftrightarrow> n * MQBUFSIZE cap \<le> mq_qbytes k"
  by (auto simp: contents_def room_def queued_bytes_def)


text \<open>The frame with which the controller confirms that scanning has ended.\<close>

definition scan_end :: "u8 list \<Rightarrow> bool" where
  "scan_end fr \<longleftrightarrow> event_frame fr \<and> 8 \<le> length fr \<and> length fr \<le> MTEXT_SIZE \<and> \<not> shadowed fr \<and> scan_done fr"

lemma cancel_sent:
  assumes "central_at w = Top STATE_CENTRAL_DEVICE_SCAN_CANCEL" and "\<And>i n. env_write (shared w) i n = int n"
  shows "gateway_step (Running w) (Running (w\<lparr>central_at := Top STATE_CENTRAL_DEVICE_SCAN_CANCEL_RSP,
     shared := logged Device_Scan_Cancel_Req_pac (shared w)\<rparr>))"
  by (rule gateway_step.central)
    (simp add: assms central_state_step_def Device_Scan_Cancel_Req_def send_pac_eq Device_Scan_Cancel_Req_pac_def
      as_status_def)

lemma link_request_crashes:
  "central_at w = Top STATE_CENTRAL_DEVICE_ESTABLISH_LINK_REQ \<Longrightarrow> gateway_step (Running w) (Crashed (Overflow 10 13))"
  by (rule gateway_step.central_fault) (simp add: central_state_step_def Establish_Link_Req_faults)

lemma done_then_request:
  assumes w: "process_inv w" "rx_ready w = Some qs" "pending w = []" "rx_idle (receiver w)"
      "central_at w = Top STATE_CENTRAL_DEVICE_SCAN_CANCEL_RSP"
    and fr: "scan_end fr"
    and q: "CommandRespQId qs = tCommandRespQId (shared w)"
      "contents (kern (shared w)) (tCommandRespQId (shared w)) = Some []"
      "MQBUFSIZE MTEXT_SIZE \<le> mq_qbytes (kern (shared w))"
  shows "\<exists>u. gateway_step\<^sup>*\<^sup>* (Running w) (Running u) \<and> rx_log u = rx_log w @ fr \<and>
     Scanned_MAC_Buff (shared u) = Scanned_MAC_Buff (shared w) \<and>
     tCommandRespQId (shared u) = tCommandRespQId (shared w) \<and>
     central_at u = Top STATE_CENTRAL_DEVICE_ESTABLISH_LINK_REQ"
proof -
  have ve: "vendor_event fr" "event_code fr \<in> set command_events"
    using fr by (auto simp: scan_end_def scan_done_def vendor_msg_def vendor_event_def event_code_def BLE_EVT_PKT_def
        command_events_def)
  have room: "room MTEXT_SIZE (kern (shared w)) (CommandRespQId qs) (Suc 0)"
    using q by (simp add: room_of_empty)
  obtain r k where 1: "gateway_step\<^sup>*\<^sup>* (Running w) (Running (w\<lparr>receiver := r, rx_log := rx_log w @ fr, shared := (shared w)\<lparr>kern := k\<rparr>\<rparr>))"
      (is "_ (Running ?u)")
    and k: "contents k = (contents (kern (shared w)))(CommandRespQId qs \<mapsto> [fr])"
    using gateway_forward [OF w(1-4) _ _ _ ve(1) _ ve(2) _ room, of "[]"] fr q(1,2) by (auto simp: scan_end_def)
  have "globals_ok (shared ?u)"
    using gateway.steps_inv [OF 1] w(1) by (simp add: process_inv_def)
  from scan_cancel_effect [OF this, of fr "[]"] k q(1) fr
  obtain g where g: "central_step (Top STATE_CENTRAL_DEVICE_SCAN_CANCEL_RSP) (shared ?u) =
      Returns (Top STATE_CENTRAL_DEVICE_ESTABLISH_LINK_REQ, g)"
    by (auto simp: scan_end_def scan_done_def)
  then have "gateway_step (Running ?u) (Running (?u\<lparr>central_at := Top STATE_CENTRAL_DEVICE_ESTABLISH_LINK_REQ, shared := g\<rparr>))"
    using w(5) by (intro gateway_step.central) simp
  moreover have "Scanned_MAC_Buff g = Scanned_MAC_Buff (shared w)" using scan_cancel_rsp_keeps [OF g] by simp
  moreover have "tCommandRespQId g = tCommandRespQId (shared w)" using central_step_queue [OF _ g] by simp
  ultimately show ?thesis
    using 1 by (intro exI [of _ "?u\<lparr>central_at := Top STATE_CENTRAL_DEVICE_ESTABLISH_LINK_REQ, shared := g\<rparr>"])
      (simp add: rtranclp.rtrancl_into_rtrancl)
qed

lemma advert_then_request:
  assumes w: "process_inv w" "rx_ready w = Some qs" "pending w = []" "rx_idle (receiver w)"
      "central_at w = Top STATE_CENTRAL_DEVICE_SCAN_DATA"
    and fr: "matching_advert fr" "scan_end fr'"
    and q: "CommandRespQId qs = tCommandRespQId (shared w)"
      "contents (kern (shared w)) (tCommandRespQId (shared w)) = Some []"
      "MQBUFSIZE MTEXT_SIZE \<le> mq_qbytes (kern (shared w))"
    and wr: "\<And>i n. env_write (shared w) i n = int n"
  shows "\<exists>u. gateway_step\<^sup>*\<^sup>* (Running w) (Running u) \<and> rx_log u = rx_log w @ fr @ fr' \<and>
     take 6 (Scanned_MAC_Buff (shared u)) = rev (take 6 (drop 8 fr)) \<and>
     tCommandRespQId (shared u) = tCommandRespQId (shared w) \<and>
     central_at u = Top STATE_CENTRAL_DEVICE_ESTABLISH_LINK_REQ"
proof -
  have "room MTEXT_SIZE (kern (shared w)) (tCommandRespQId (shared w)) 1"
    using q(2,3) by (simp add: room_of_empty)
  from gateway_advert [OF w fr(1) q(1,2) this] obtain v where 1: "gateway_step\<^sup>*\<^sup>* (Running w) (Running v)"
    and v: "central_at v = Top STATE_CENTRAL_DEVICE_SCAN_CANCEL" "contents (kern (shared v)) = contents (kern (shared w))"
      "rx_ready v = Some qs" "pending v = []" "rx_idle (receiver v)" "tCommandRespQId (shared v) = tCommandRespQId (shared w)"
      "rx_log v = rx_log w @ fr" "take 6 (Scanned_MAC_Buff (shared v)) = rev (take 6 (drop 8 fr))"
    by blast
  have s: "env_write (shared v) = env_write (shared w)" "mq_qbytes (kern (shared v)) = mq_qbytes (kern (shared w))"
    using gateway_steps_running [OF 1 refl] by (simp_all add: surroundings_of_def)
  let ?u = "v\<lparr>central_at := Top STATE_CENTRAL_DEVICE_SCAN_CANCEL_RSP,
      shared := logged Device_Scan_Cancel_Req_pac (shared v)\<rparr>"
  have 2: "gateway_step (Running v) (Running ?u)"
    by (rule cancel_sent [OF v(1)]) (simp add: s wr)
  have "process_inv ?u"
    using gateway.steps_inv [OF rtranclp.rtrancl_into_rtrancl [OF 1 2]] w(1) by simp
  then have "\<exists>x. gateway_step\<^sup>*\<^sup>* (Running ?u) (Running x) \<and> rx_log x = rx_log ?u @ fr' \<and>
      Scanned_MAC_Buff (shared x) = Scanned_MAC_Buff (shared ?u) \<and>
      tCommandRespQId (shared x) = tCommandRespQId (shared ?u) \<and>
      central_at x = Top STATE_CENTRAL_DEVICE_ESTABLISH_LINK_REQ"
    by (rule done_then_request) (use v q s fr in simp_all)
  then obtain x where x: "gateway_step\<^sup>*\<^sup>* (Running ?u) (Running x)" "rx_log x = rx_log ?u @ fr'"
    "Scanned_MAC_Buff (shared x) = Scanned_MAC_Buff (shared ?u)"
    "tCommandRespQId (shared x) = tCommandRespQId (shared ?u)"
    "central_at x = Top STATE_CENTRAL_DEVICE_ESTABLISH_LINK_REQ" by blast
  have "gateway_step\<^sup>*\<^sup>* (Running w) (Running x)"
    using 1 2 x(1) by (meson rtranclp.rtrancl_into_rtrancl rtranclp_trans)
  with x(2-5) v(6-8) show ?thesis by (intro exI [of _ x]) simp
qed


subsection \<open>From the start to scanning\<close>

text \<open>A process whose receive thread has set up its queues, and what the kernel and the result
  register answer in the runs below.\<close>

definition calm :: "globals \<Rightarrow> bool" where
  "calm g \<longleftrightarrow> (\<forall>i n. env_write g i n = int n) \<and> (\<forall>i. env_junk g i = 0) \<and>
     MQBUFSIZE MTEXT_SIZE \<le> mq_qbytes (kern g)"

definition listening :: "process \<Rightarrow> rx_queues \<Rightarrow> bool" where
  "listening w qs \<longleftrightarrow> process_inv w \<and> rx_ready w = Some qs \<and> pending w = [] \<and> rx_idle (receiver w) \<and>
     calm (shared w) \<and> contents (kern (shared w)) (CommandRespQId qs) = Some []"

lemma central_starts:
  assumes l: "listening w qs" and pc: "central_at w = Start"
    and key: "mq_key (kern (shared w)) COMMANDRESP_THREAD_QUEUE_KEY = Some (CommandRespQId qs)"
  shows "\<exists>v. gateway_step (Running w) (Running v) \<and> listening v qs \<and> central_at v = Top STATE_CENTRAL_INIT \<and>
     tCommandRespQId (shared v) = CommandRespQId qs"
proof -
  have ok: "globals_ok (shared w)" using l by (simp add: listening_def process_inv_def)
  obtain g1 where s: "central_startup (shared w) =
      Returns (g1\<lparr>kern := kern (shared w), tCommandRespQId := CommandRespQId qs\<rparr>)" (is "_ = Returns ?g")
    and u: "uart_only (shared w) g1"
    using central_startup_log [of "shared w"] sys_mq_init_known [OF _ key, of MTEXT_SIZE] ok
    by (auto simp: globals_ok_def)
  let ?v = "w\<lparr>central_at := Top STATE_CENTRAL_INIT, shared := ?g\<rparr>"
  have step: "gateway_step (Running w) (Running ?v)"
    by (rule gateway_step.central) (simp add: pc s)
  have "env_write g1 = env_write (shared w)" "env_junk g1 = env_junk (shared w)"
    using u unfolding uart_only_def by (cases g1; cases "shared w"; simp)+
  then have "listening ?v qs"
    using l gateway_step_inv [OF step] by (simp add: listening_def calm_def)
  with step show ?thesis by (intro exI [of _ ?v]) simp
qed

lemma central_asks:
  assumes l: "listening w qs" and pc: "central_at w = Top STATE_CENTRAL_INIT"
  shows "\<exists>v. gateway_step\<^sup>*\<^sup>* (Running w) (Running v) \<and> listening v qs \<and> central_at v = In_Scan_Rsp \<and>
     tCommandRespQId (shared v) = tCommandRespQId (shared w)"
proof -
  let ?u = "w\<lparr>central_at := Top STATE_CENTRAL_DEVICE_SCAN_REQ\<rparr>"
  let ?v = "w\<lparr>central_at := In_Scan_Rsp, shared := logged Device_Scan_Req_pac (shared w)\<rparr>"
  have "gateway_step (Running w) (Running (w\<lparr>central_at := Top STATE_CENTRAL_DEVICE_SCAN_REQ, shared := shared w\<rparr>))"
    by (rule gateway_step.central) (simp only: pc init_step)
  then have 1: "gateway_step (Running w) (Running ?u)" by simp
  have inv: "process_inv w" using l by (simp add: listening_def)
  then have "Device_conn_count (shared w) = 0"
    unfolding Device_conn_count_def
    by (intro count_none) (simp_all add: process_inv_def none_connected_def globals_ok_def)
  then have "central_step (central_at ?u) (shared ?u) = Returns (In_Scan_Rsp, logged Device_Scan_Req_pac (shared w))"
    using l by (simp add: central_state_step_def Device_Scan_Req_send_def send_pac_eq Device_Scan_Req_pac_def
        listening_def calm_def)
  from gateway_step.central [OF this] have 2: "gateway_step (Running ?u) (Running ?v)" by simp
  have 3: "gateway_step\<^sup>*\<^sup>* (Running w) (Running ?v)" using 1 2 by (meson r_into_rtranclp rtranclp_trans)
  have "listening ?v qs" using l gateway.steps_inv [OF 3] by (simp add: listening_def calm_def)
  with 3 show ?thesis by (intro exI [of _ ?v]) simp
qed

lemma central_scans:
  assumes l: "listening w qs" and pc: "central_at w = In_Scan_Rsp" and q: "tCommandRespQId (shared w) = CommandRespQId qs"
    and fr: "event_frame fr" "8 \<le> length fr" "length fr \<le> MTEXT_SIZE" "vendor_event fr" "\<not> shadowed fr"
      "event_code fr \<in> set command_events"
  shows "\<exists>v. gateway_step\<^sup>*\<^sup>* (Running w) (Running v) \<and> listening v qs \<and>
     central_at v = Top STATE_CENTRAL_DEVICE_SCAN_DATA \<and> tCommandRespQId (shared v) = CommandRespQId qs"
proof -
  have w: "process_inv w" "rx_ready w = Some qs" "pending w = []" "rx_idle (receiver w)"
    and c: "contents (kern (shared w)) (CommandRespQId qs) = Some []" and calm: "calm (shared w)"
    using l by (simp_all add: listening_def)
  have "room MTEXT_SIZE (kern (shared w)) (CommandRespQId qs) (Suc 0)"
    using c calm by (simp add: room_of_empty calm_def)
  from gateway_forward [OF w fr c this] obtain r k where
    1: "gateway_step\<^sup>*\<^sup>* (Running w) (Running (w\<lparr>receiver := r, rx_log := rx_log w @ fr, shared := (shared w)\<lparr>kern := k\<rparr>\<rparr>))" (is "_ (Running ?u)")
    and r: "rx_idle r" and k: "contents k = (contents (kern (shared w)))(CommandRespQId qs \<mapsto> [fr])" by auto
  have "globals_ok (shared ?u)" using gateway.steps_inv [OF 1] w(1) by (simp add: process_inv_def)
  from scan_response_ignored [OF this, of fr "[]"] k q obtain g where
    g: "central_step In_Scan_Rsp (shared ?u) = Returns (Top (scan_req_next (as_status (env_junk (shared w) (junk_used (shared w))))), g)"
    and cg: "contents (kern g) = (contents k)(CommandRespQId qs \<mapsto> [])"
    by (auto simp del: central_step.simps)
  then have g': "central_step (central_at ?u) (shared ?u) = Returns (Top STATE_CENTRAL_DEVICE_SCAN_DATA, g)"
    using calm pc by (simp add: calm_def as_status_def scan_req_next_def)
  let ?v = "?u\<lparr>central_at := Top STATE_CENTRAL_DEVICE_SCAN_DATA, shared := g\<rparr>"
  have step: "gateway_step (Running ?u) (Running ?v)" by (rule gateway_step.central [OF g'])
  with 1 have 2: "gateway_step\<^sup>*\<^sup>* (Running w) (Running ?v)" by simp
  have "surroundings_of g = surroundings_of (shared w)"
    using gateway_steps_running [OF 2 refl] by simp
  moreover have "env_junk g = env_junk (shared w)"
    using g by (auto simp: Device_Scan_Req_wait_def Device_Scan_Rsp_def Let_def outcome_bind_eq_Returns use_junk_def
        dest!: recv_buffer_view)
  moreover have "tCommandRespQId g = CommandRespQId qs"
    using central_step_queue [OF _ g'] pc q by simp
  ultimately show ?thesis
    using 2 gateway.steps_inv [OF 2] w r cg calm
    by (intro exI [of _ ?v]) (simp add: listening_def calm_def surroundings_of_def)
qed

end
