(* ===== verification/Scan_Spec.thy ===== *)
theory Scan_Spec
  imports Scanner_Runs
begin

text \<open>
  An abstract specification of the scanner and the proof that the process of theory Gateway
  refines it.  The specification knows the phase of the central thread, the messages waiting
  for it, the bytes it classified last and the stored address; its steps say which message
  moves which phase, without queues' kernel state, receiver, UART or registers.  What a
  left-over register value decides in the code is a free choice here.
\<close>

subsection \<open>The specification\<close>

datatype phase = Booting | Idle | Asking | Awaiting | Scanning | Cancelling | Ending | Linking | Beyond

datatype scan_view =
  View (sv_phase: phase) (sv_inbox: "u8 list list option") (sv_last: "u8 list") (sv_mac: "u8 list")

text \<open>Taking the next message overwrites the start of the last bytes; without a queue (\<open>None\<close>) the
  old bytes are looked at again; with an empty one the thread waits.\<close>

fun take_message :: "u8 list list option \<Rightarrow> u8 list \<Rightarrow> (u8 list list option \<times> u8 list) option" where
  "take_message None b = Some (None, b)"
| "take_message (Some []) b = None"
| "take_message (Some (m # ms)) b = Some (Some ms, m @ drop (length m) b)"

definition advert_in :: "u8 list \<Rightarrow> bool" where
  "advert_in b \<longleftrightarrow> vendor_msg b \<and> msg_code b = VS_GAP_DEVICE_INFORMATION \<and> uuid_match b"

definition address_in :: "u8 list \<Rightarrow> u8 list \<Rightarrow> u8 list" where
  "address_in b mac = rev (take 6 (drop 8 b)) @ drop 6 mac"

inductive spec_step :: "scan_view \<Rightarrow> scan_view \<Rightarrow> bool" where
  arrives: "ph \<noteq> Booting \<Longrightarrow> spec_step (View ph (Some ms) b mac) (View ph (Some (ms @ [m])) b mac)"
| boots: "spec_step (View Booting i b mac) (View Idle i' b mac)"
| wakes: "spec_step (View Idle i b mac) (View Asking i b mac)"
| asks: "ph \<in> {Awaiting, Idle} \<Longrightarrow> spec_step (View Asking i b mac) (View ph i b mac)"
| answered: "take_message i b = Some (i', b') \<Longrightarrow> ph \<in> {Scanning, Idle} \<Longrightarrow>
    spec_step (View Awaiting i b mac) (View ph i' b' mac)"
| found: "take_message i b = Some (i', b') \<Longrightarrow> advert_in b' \<Longrightarrow>
    spec_step (View Scanning i b mac) (View Cancelling i' b' (address_in b' mac))"
| unmatched: "take_message i b = Some (i', b') \<Longrightarrow> \<not> advert_in b' \<Longrightarrow> ph \<in> {Scanning, Asking, Cancelling} \<Longrightarrow>
    spec_step (View Scanning i b mac) (View ph i' b' mac)"
| cancels: "ph \<in> {Cancelling, Ending} \<Longrightarrow> spec_step (View Cancelling i b mac) (View ph i b mac)"
| ended: "take_message i b = Some (i', b') \<Longrightarrow>
    spec_step (View Ending i b mac) (View (if scan_done b' then Linking else Ending) i' b' mac)"

inductive_cases spec_stepE: "spec_step (View ph i b mac) s"
inductive_simps spec_step_Linking: "spec_step (View Linking i b mac) s"


subsection \<open>The abstraction\<close>

fun phase_of :: "central_pc \<Rightarrow> phase" where
  "phase_of Start = Booting"
| "phase_of In_Scan_Rsp = Awaiting"
| "phase_of Spinning = Beyond"
| "phase_of (Top s) =
     (case s of
        STATE_CENTRAL_INIT \<Rightarrow> Idle
      | STATE_CENTRAL_DEVICE_SCAN_REQ \<Rightarrow> Asking
      | STATE_CENTRAL_DEVICE_SCAN_DATA \<Rightarrow> Scanning
      | STATE_CENTRAL_DEVICE_SCAN_CANCEL \<Rightarrow> Cancelling
      | STATE_CENTRAL_DEVICE_SCAN_CANCEL_RSP \<Rightarrow> Ending
      | STATE_CENTRAL_DEVICE_ESTABLISH_LINK_REQ \<Rightarrow> Linking
      | _ \<Rightarrow> Beyond)"

definition inbox :: "globals \<Rightarrow> u8 list list option" where
  "inbox g = contents (kern g) (tCommandRespQId g)"

text \<open>Before its start-up sequence the thread has no queue, whatever the id variable holds.\<close>

definition view_of :: "central_pc \<Rightarrow> globals \<Rightarrow> scan_view" where
  "view_of pc g =
     View (phase_of pc) (if pc = Start then None else inbox g) (buffer g) (Scanned_MAC_Buff g)"

definition view :: "process \<Rightarrow> scan_view" where
  "view w = view_of (central_at w) (shared w)"


subsection \<open>Steps of the central thread\<close>

lemma recv_take_Some:
  assumes ok: "globals_ok g" and t: "take_message (inbox g) (buffer g) = Some (i', b')"
  shows "\<exists>k n. recv_buffer (tCommandRespQId g) g = Returns (g\<lparr>kern := k, buffer := b', buf_size := n\<rparr>) \<and>
     contents k (tCommandRespQId g) = i'"
proof (cases "inbox g")
  case None
  then have "recv_buffer (tCommandRespQId g) g = Returns (g\<lparr>kern := kern g, buffer := buffer g, buf_size := buf_size g\<rparr>)"
    by (simp add: recv_buffer_def recv_dead inbox_def)
  with None t show ?thesis
    by (intro exI [of _ "kern g"] exI [of _ "buf_size g"]) (simp add: inbox_def)
next
  case (Some l)
  then obtain m ms where l: "l = m # ms" using t by (cases l) auto
  with recv_buffer_takes [OF ok, of "tCommandRespQId g" m ms] Some t show ?thesis
    by (auto simp: inbox_def)
qed

lemma recv_take_None:
  assumes "take_message (inbox g) (buffer g) = None"
  shows "recv_buffer (tCommandRespQId g) g = Blocks"
proof (cases "inbox g")
  case (Some l)
  with assms have "l = []" by (cases l) auto
  with Some recv_buffer_blocks show ?thesis by (simp add: inbox_def)
qed (use assms in simp)

text \<open>What a receive that returned did, in terms of the view.\<close>

lemma recv_takes_message:
  assumes ok: "globals_ok g" and r: "recv_buffer (tCommandRespQId g) g = Returns g'"
  shows "take_message (inbox g) (buffer g) = Some (inbox g', buffer g')"
    and "Scanned_MAC_Buff g' = Scanned_MAC_Buff g" and "tCommandRespQId g' = tCommandRespQId g"
proof -
  obtain i' b' where t: "take_message (inbox g) (buffer g) = Some (i', b')"
    using r recv_take_None [of g] by (cases "take_message (inbox g) (buffer g)") auto
  with recv_take_Some [OF ok t] r
  show "take_message (inbox g) (buffer g) = Some (inbox g', buffer g')"
    and "Scanned_MAC_Buff g' = Scanned_MAC_Buff g" and "tCommandRespQId g' = tCommandRespQId g"
    by (auto simp: inbox_def)
qed

lemma uart_view: "uart_only g g' \<Longrightarrow> view_of pc g' = view_of pc g"
  by (simp add: view_of_def inbox_def uart_only_fields)

lemma use_value_view: "view_of pc (snd (use_value v g)) = view_of pc g"
  by (rule uart_view) simp

lemma view_start:
  "central_step Start g = Returns (pc', g') \<Longrightarrow> spec_step (view_of Start g) (view_of pc' g')"
  using central_startup_log [of g]
  by (auto simp: view_of_def uart_only_fields intro!: spec_step.boots)

lemma view_scan_req:
  assumes "central_step (Top STATE_CENTRAL_DEVICE_SCAN_REQ) g = Returns (pc', g')" and "none_connected g" "globals_ok g"
  shows "spec_step (view_of (Top STATE_CENTRAL_DEVICE_SCAN_REQ) g) (view_of pc' g')"
proof -
  have c: "Device_conn_count g < 4"
    using count_none [of "Conn_Device_List g" 4] assms(2,3)
    by (simp add: Device_conn_count_def none_connected_def globals_ok_def)
  obtain r where s: "Device_Scan_Req_send g = Returns (r, logged Device_Scan_Req_pac g)"
    using Device_Scan_Req_send_cases [of g] c by auto
  with c have r: "r = Wait_Rsp \<or> r = Finished (Value (-1))"
    by (auto simp: Device_Scan_Req_send_def outcome_bind_eq_Returns split_beta split: if_splits)
  have "scan_req_next (as_status (-1)) = STATE_CENTRAL_INIT" by code_simp
  then have "phase_of pc' \<in> {Awaiting, Idle} \<and> pc' \<noteq> Start \<and> uart_only g g'"
    using r assms(1) s by (auto simp: central_state_step_def uart_only_def)
  then show ?thesis
    by (auto simp: view_of_def inbox_def uart_only_fields intro!: spec_step.asks)
qed

lemma view_scan_rsp:
  assumes ok: "globals_ok g" and c: "central_step In_Scan_Rsp g = Returns (pc', g')"
  shows "spec_step (view_of In_Scan_Rsp g) (view_of pc' g')"
proof -
  obtain g1 where r: "recv_buffer (tCommandRespQId g) g = Returns g1" and g': "g' = snd (use_value No_Value g1)"
    using c by (auto simp: Device_Scan_Req_wait_def Device_Scan_Rsp_def outcome_bind_eq_Returns Let_def)
  have "view_of pc' g' = view_of pc' g1" unfolding g' by (rule use_value_view)
  moreover have "phase_of pc' \<in> {Scanning, Idle} \<and> pc' \<noteq> Start" using in_scan_rsp_step [OF c] by auto
  ultimately show ?thesis
    using recv_takes_message [OF ok r] by (auto simp: view_of_def intro!: spec_step.answered)
qed

lemma view_scan_cancel:
  assumes "central_step (Top STATE_CENTRAL_DEVICE_SCAN_CANCEL) g = Returns (pc', g')"
  shows "spec_step (view_of (Top STATE_CENTRAL_DEVICE_SCAN_CANCEL) g) (view_of pc' g')"
proof -
  have "phase_of pc' \<in> {Cancelling, Ending} \<and> pc' \<noteq> Start" using scan_cancel_step [OF assms] by auto
  moreover have "uart_only g g'"
    using assms send_pac_uart [of g 10 Device_Scan_Cancel_Req_pac]
    by (auto simp: central_step_simps Device_Scan_Cancel_Req_def on_return_iff)
  ultimately show ?thesis
    by (auto simp: view_of_def inbox_def uart_only_fields intro!: spec_step.cancels)
qed

lemma view_scan_cancel_rsp:
  assumes ok: "globals_ok g" and c: "central_step (Top STATE_CENTRAL_DEVICE_SCAN_CANCEL_RSP) g = Returns (pc', g')"
  shows "spec_step (view_of (Top STATE_CENTRAL_DEVICE_SCAN_CANCEL_RSP) g) (view_of pc' g')"
proof -
  obtain status where d: "Device_Scan_Cancel_Rsp g = Returns (status, g')"
    and pc: "pc' = (if as_status status = 0 then Top STATE_CENTRAL_DEVICE_ESTABLISH_LINK_REQ
                    else Top STATE_CENTRAL_DEVICE_SCAN_CANCEL_RSP)"
    using c by (auto simp: central_step_simps)
  from d have r: "recv_buffer (tCommandRespQId g) g = Returns g'"
    and status: "status = (if scan_done (buffer g') then 0 else -1)"
    by (auto simp: Device_Scan_Cancel_Rsp_def outcome_bind_eq_Returns Let_def scan_done_def split: if_splits)
  have "phase_of pc' = (if scan_done (buffer g') then Linking else Ending)" "pc' \<noteq> Start"
    using pc status by (auto simp: as_status_def)
  then show ?thesis
    using spec_step.ended [OF recv_takes_message(1) [OF ok r]] recv_takes_message(2) [OF ok r]
    by (simp add: view_of_def)
qed

text \<open>The classification of a message: the stored address changes with an accepted one only.\<close>

lemma store_rev_address:
  assumes "length mac = 7" and "length b = 256"
  shows "store_rev mac b 13 6 = Returns (address_in b mac)"
proof -
  have "take 6 (drop 8 b) = [b ! 8, b ! 9, b ! 10, b ! 11, b ! 12, b ! 13]"
    using assms(2) by (simp add: take_Suc_conv_app_nth eval_nat_numeral)
  moreover have "drop 6 mac = [mac ! 6]"
    using assms(1) by (auto simp: list_eq_iff_nth_eq)
  ultimately show ?thesis using store_rev_6 [OF assms, of 13] by (simp add: address_in_def)
qed

lemma Device_Scan_Data_view:
  assumes ok: "globals_ok g" and d: "Device_Scan_Data g = Returns (v, g')"
  shows "\<exists>g1. recv_buffer (tCommandRespQId g) g = Returns g1 \<and>
     (if advert_in (buffer g1) then v = Value 2 \<and> g' = g1\<lparr>Scanned_MAC_Buff := address_in (buffer g1) (Scanned_MAC_Buff g1)\<rparr>
      else v = No_Value \<and> g' = g1)"
proof -
  from d obtain g1 where r: "recv_buffer (tCommandRespQId g) g = Returns g1"
    by (auto simp: Device_Scan_Data_def outcome_bind_eq_Returns)
  have "globals_ok g1" using recv_buffer_ok [OF ok, of "tCommandRespQId g"] r by simp
  then have "store_rev (Scanned_MAC_Buff g1) (buffer g1) 13 6 = Returns (address_in (buffer g1) (Scanned_MAC_Buff g1))"
    by (intro store_rev_address) (simp_all add: globals_ok_def)
  with d r show ?thesis
    by (auto simp: Device_Scan_Data_def outcome_bind_eq_Returns Let_def advert_in_def split: if_splits)
qed

lemma view_scan_data:
  assumes ok: "globals_ok g" and c: "central_step (Top STATE_CENTRAL_DEVICE_SCAN_DATA) g = Returns (pc', g')"
  shows "spec_step (view_of (Top STATE_CENTRAL_DEVICE_SCAN_DATA) g) (view_of pc' g')"
proof -
  obtain v g2 where d: "Device_Scan_Data g = Returns (v, g2)" and g': "g' = snd (use_value v g2)"
    and pc: "pc' = Top (scan_data_next (as_status (fst (use_value v g2))))"
    using c by (auto simp: central_step_simps)
  obtain g1 where r: "recv_buffer (tCommandRespQId g) g = Returns g1"
    and cases: "if advert_in (buffer g1)
      then v = Value 2 \<and> g2 = g1\<lparr>Scanned_MAC_Buff := address_in (buffer g1) (Scanned_MAC_Buff g1)\<rparr>
      else v = No_Value \<and> g2 = g1"
    using Device_Scan_Data_view [OF ok d] by blast
  note t = recv_takes_message [OF ok r]
  have v': "view_of pc' g' = view_of pc' g2" unfolding g' by (rule use_value_view)
  show ?thesis
  proof (cases "advert_in (buffer g1)")
    case True
    have "scan_data_next (as_status 2) = STATE_CENTRAL_DEVICE_SCAN_CANCEL" by code_simp
    with True pc cases have "pc' = Top STATE_CENTRAL_DEVICE_SCAN_CANCEL" by simp
    with spec_step.found [OF t(1) True] cases True v' t show ?thesis
      by (simp add: view_of_def inbox_def)
  next
    case False
    have "phase_of pc' \<in> {Scanning, Asking, Cancelling} \<and> pc' \<noteq> Start" using scan_data_step [OF c] by auto
    with spec_step.unmatched [OF t(1) False, of "phase_of pc'"] cases False v' t show ?thesis
      by (simp add: view_of_def)
  qed
qed

text \<open>Every step of the central thread is a step of the specification.\<close>

lemma central_refines:
  assumes ok: "globals_ok g" "none_connected g" and pc: "pc \<in> set central_points"
    and c: "central_step pc g = Returns (pc', g')"
  shows "spec_step (view_of pc g) (view_of pc' g')"
proof -
  from pc consider "pc = Start" | "pc = In_Scan_Rsp" | "pc = Top STATE_CENTRAL_INIT"
    | "pc = Top STATE_CENTRAL_DEVICE_SCAN_REQ" | "pc = Top STATE_CENTRAL_DEVICE_SCAN_DATA"
    | "pc = Top STATE_CENTRAL_DEVICE_SCAN_CANCEL" | "pc = Top STATE_CENTRAL_DEVICE_SCAN_CANCEL_RSP"
    | "pc = Top STATE_CENTRAL_DEVICE_ESTABLISH_LINK_REQ"
    by (auto simp: central_points_def)
  then show ?thesis
  proof cases
    case 3
    with c show ?thesis by (auto simp: init_step view_of_def intro: spec_step.wakes simp del: central_step.simps)
  next
    case 8
    with c show ?thesis by (simp add: establish_link_step del: central_step.simps)
  qed (use c ok view_start view_scan_rsp view_scan_req view_scan_data view_scan_cancel view_scan_cancel_rsp in
      \<open>simp_all del: central_step.simps\<close>)
qed


subsection \<open>Steps of the receive thread\<close>

text \<open>A queue that exists, and an id that names none, are unaffected by the creation of others.\<close>

definition fixed_queue :: "kernel \<Rightarrow> int \<Rightarrow> bool" where
  "fixed_queue k q \<longleftrightarrow> mq_msgs k q \<noteq> None \<or> q = -1"

lemma init_fixed:
  assumes ok: "kernel_ok cap k" and q: "fixed_queue k q" and i: "sys_mq_init k key = (qid, k')"
  shows "mq_msgs k' q = mq_msgs k q \<and> fixed_queue k' q"
proof (cases "mq_msgs k q")
  case (Some ms)
  with sys_mq_init_kept [OF ok Some i] show ?thesis by (simp add: fixed_queue_def)
next
  case None
  with q i show ?thesis
    by (auto simp: fixed_queue_def sys_mq_init_def msgget_def Let_def split: option.splits if_splits)
qed

lemma init_queues_fixed:
  "init_queues keys k = (qids, k') \<Longrightarrow> kernel_ok cap k \<Longrightarrow> fixed_queue k q \<Longrightarrow> mq_msgs k' q = mq_msgs k q"
proof (induction keys arbitrary: k qids)
  case (Cons key keys)
  obtain p k1 where 1: "sys_mq_init k key = (p, k1)" by force
  obtain ps k2 where 2: "init_queues keys k1 = (ps, k2)" by force
  have "kernel_ok cap k1" using sys_mq_init_ok [OF Cons.prems(2), of key] 1 by simp
  moreover note init_fixed [OF Cons.prems(2,3) 1]
  moreover have "k' = k2" using Cons.prems(1) 1 2 by simp
  ultimately show ?case using Cons.IH [of k1 ps] 2 by simp
qed simp

lemma run_action_arrives:
  assumes r: "run_action a g = Returns g'"
  shows "inbox g' = inbox g \<or> (\<exists>ms m. inbox g = Some ms \<and> inbox g' = Some (ms @ [m]))"
proof (cases a)
  case (Mq_Send q p n)
  with r show ?thesis
    by (auto simp: outcome_bind_eq_Returns sys_mq_send_def msgsnd_def inbox_def contents_def split: if_splits option.splits)
next
  case (Data_Ack idz)
  with r show ?thesis by (auto simp: data_ack_def send_pac_eq inbox_def split: if_splits)
qed (use r in \<open>auto simp: clear_status_eq Upadate_Disconnection_eq inbox_def split: if_splits\<close>)

lemma receiver_refines:
  assumes r: "run_action a g = Returns g'"
  shows "view_of pc g' = view_of pc g \<or> spec_step (view_of pc g) (view_of pc g')"
proof -
  have "central_view g' = central_view g" using run_action_view [of g a] r by simp
  then have "buffer g' = buffer g" "Scanned_MAC_Buff g' = Scanned_MAC_Buff g" by (simp_all add: central_view_def)
  moreover have "phase_of pc \<noteq> Booting" if "pc \<noteq> Start"
    using that by (cases pc rule: phase_of.cases) (simp_all split: CentralState_new_t.split)
  ultimately show ?thesis
    using run_action_arrives [OF r] by (auto simp: view_of_def intro: spec_step.arrives)
qed

lemma rx_start_view:
  assumes w: "process_linked w" and i: "rx_thread_init j1 j2 j3 (kern (shared w)) = (qs, k)"
  shows "view_of (central_at w) ((shared w)\<lparr>kern := k\<rparr>) = view_of (central_at w) (shared w)"
proof (cases "central_at w = Start")
  case True
  then show ?thesis by (simp add: view_of_def)
next
  case False
  have ok: "kernel_ok MTEXT_SIZE (kern (shared w))"
    using w by (simp add: process_linked_def process_inv_def globals_ok_def)
  from False w have "known (kern (shared w)) COMMANDRESP_THREAD_QUEUE_KEY (tCommandRespQId (shared w))"
    by (simp add: process_linked_def)
  then have f: "fixed_queue (kern (shared w)) (tCommandRespQId (shared w))"
    using kernel_ok_keyD [OF ok] by (fastforce simp: known_def fixed_queue_def)
  obtain qids where "init_queues rx_keys (kern (shared w)) = (qids, k)"
    using i by (auto simp: rx_thread_init_def split: prod.splits)
  from init_queues_fixed [OF this ok f] show ?thesis by (simp add: view_of_def inbox_def contents_def)
qed


subsection \<open>The process refines the specification\<close>

lemma process_refines:
  assumes w: "process_linked w" and st: "gateway_step (Running w) (Running v)"
  shows "view v = view w \<or> spec_step (view w) (view v)"
proof -
  have inv: "process_inv w" using w by (simp add: process_linked_def)
  from st show ?thesis
  proof (cases rule: gateway_step.cases)
    case (rx_start j1 j2 j3 qs k)
    with rx_start_view [OF w rx_start(3)] show ?thesis by (simp add: view_def)
  next
    case (rx_act a as g)
    with receiver_refines [OF rx_act(3), of "central_at w"] show ?thesis by (simp add: view_def)
  next
    case (central pc g)
    with central_refines [OF _ _ _ central(2)] inv show ?thesis
      by (simp add: view_def process_inv_def del: central_step.simps)
  qed (simp_all add: view_def)
qed

text \<open>The central thread waits in the kernel exactly where the specification waits for a message.\<close>

definition spec_waits :: "scan_view \<Rightarrow> bool" where
  "spec_waits s \<longleftrightarrow> sv_phase s \<in> {Awaiting, Scanning, Ending} \<and> sv_inbox s = Some []"

lemma recv_waits:
  "globals_ok g \<Longrightarrow> recv_buffer (tCommandRespQId g) g = Blocks \<longleftrightarrow> inbox g = Some []"
  using recv_take_Some [of g] recv_take_None [of g]
  by (cases "inbox g" rule: option.exhaust; cases "the (inbox g)") auto

lemma central_waits:
  assumes ok: "globals_ok g" and pc: "pc \<in> set central_points"
  shows "central_step pc g = Blocks \<longleftrightarrow> spec_waits (view_of pc g)"
proof -
  have recv: "Device_Scan_Rsp g = Blocks \<longleftrightarrow> inbox g = Some []" "Device_Scan_Cancel_Rsp g = Blocks \<longleftrightarrow> inbox g = Some []"
    "Device_Scan_Data g = Blocks \<longleftrightarrow> inbox g = Some []"
    unfolding recv_waits [OF ok, symmetric]
  proof -
    show "Device_Scan_Data g = Blocks \<longleftrightarrow> recv_buffer (tCommandRespQId g) g = Blocks"
    proof (cases "recv_buffer (tCommandRespQId g) g")
      case (Returns g1)
      then have "globals_ok g1" using recv_buffer_ok [OF ok, of "tCommandRespQId g"] by simp
      then have "store_rev (Scanned_MAC_Buff g1) (buffer g1) 13 6 = Returns (address_in (buffer g1) (Scanned_MAC_Buff g1))"
        by (intro store_rev_address) (simp_all add: globals_ok_def)
      with Returns show ?thesis by (simp add: Device_Scan_Data_def Let_def)
    qed (simp_all add: Device_Scan_Data_def)
  qed (cases "recv_buffer (tCommandRespQId g) g"; simp add: Device_Scan_Rsp_def Device_Scan_Cancel_Rsp_def Let_def)+
  obtain g1 where start: "central_startup g = Returns g1" using central_startup_log [of g] by blast
  obtain r g2 where req: "Device_Scan_Req_send g = Returns (r, g2)" using Device_Scan_Req_send_cases by blast
  obtain st g3 where cancel: "Device_Scan_Cancel_Req g = Returns (st, g3)"
    by (simp add: Device_Scan_Cancel_Req_def send_pac_eq Device_Scan_Cancel_Req_pac_def)
  have bind: "outcome_bind m f = Blocks \<longleftrightarrow> m = Blocks" if "\<And>x. f x \<noteq> Blocks" for m :: "'a outcome" and f :: "'a \<Rightarrow> 'b outcome"
    using that by (cases m) auto
  from pc consider "pc = Start" | "pc = In_Scan_Rsp" | "pc = Top STATE_CENTRAL_INIT"
    | "pc = Top STATE_CENTRAL_DEVICE_SCAN_REQ" | "pc = Top STATE_CENTRAL_DEVICE_SCAN_DATA"
    | "pc = Top STATE_CENTRAL_DEVICE_SCAN_CANCEL" | "pc = Top STATE_CENTRAL_DEVICE_SCAN_CANCEL_RSP"
    | "pc = Top STATE_CENTRAL_DEVICE_ESTABLISH_LINK_REQ"
    by (auto simp: central_points_def)
  then show ?thesis
    by cases (use start req cancel recv in \<open>auto simp: spec_waits_def view_of_def central_state_step_def
      Device_Scan_Req_wait_def bind split_beta Establish_Link_Req_faults split: scan_req.splits\<close>)
qed

end
