(* ===== verification/Wire.thy ===== *)
theory Wire
  imports Scanner_Runs
begin

text \<open>
  What the scanner process of theory Gateway writes to the controller: the packets the central
  thread has sent at each of its program points, in every interleaving with the receive thread,
  whose acknowledgements may appear anywhere between them.
\<close>

subsection \<open>Packets on the wire\<close>

definition sent :: "globals \<Rightarrow> u8 list list" where
  "sent g = map fst (tx_log g)"

text \<open>The packets of \<open>data_ack\<close> start with the opcode 0xFD13 and its length 2.\<close>

definition ack_frame :: "u8 list \<Rightarrow> bool" where
  "ack_frame p \<longleftrightarrow> take 4 p = [0x01, 0x13, 0xFD, 0x02]"

definition by_central :: "globals \<Rightarrow> u8 list list" where
  "by_central g = filter (\<lambda>p. \<not> ack_frame p) (sent g)"

definition framed :: "u8 list \<Rightarrow> bool" where
  "framed p \<longleftrightarrow> hci_parse p \<noteq> None"

lemma ack_packet: "ack_frame (Notify_Ack_pac h)"
  by (simp add: ack_frame_def Notify_Ack_pac_def)

lemma scan_packets_no_ack: "\<not> ack_frame Device_Scan_Req_pac" "\<not> ack_frame Device_Scan_Cancel_Req_pac"
  by (simp_all add: ack_frame_def Device_Scan_Req_pac_def Device_Scan_Cancel_Req_pac_def)

lemma SET_PARAM_no_ack: "\<not> ack_frame (SET_PARAM_pac p v)"
  by (simp add: ack_frame_def SET_PARAM_pac_def byte_macro_defs hci_codes)

lemma startup_no_ack: "filter (\<lambda>p. \<not> ack_frame p) startup_packets = startup_packets"
proof -
  have "\<not> ack_frame HCI_Reset_pac" "\<not> ack_frame HCI_Init_pac"
    by (simp_all add: ack_frame_def HCI_Reset_pac_def HCI_Init_pac_def byte_macro_defs hci_codes)
  then show ?thesis
    by (auto simp: startup_packets_def filter_id_conv SET_PARAM_no_ack)
qed

lemma frames_framed: "frames_op c \<Longrightarrow> framed (snd c)"
  by (auto simp: frames_op_def framed_def split: option.splits)

lemma packets_framed:
  "framed HCI_Reset_pac" "framed HCI_Init_pac" "framed (SET_PARAM_pac p v)" "framed Device_Scan_Req_pac"
  "framed Device_Scan_Cancel_Req_pac"
proof -
  have "list_all (\<lambda>c. framed (snd c)) (command_packets g p v)" for g
    using command_packets_framed [of g p v] by (auto simp: list_all_iff intro: frames_framed)
  then show "framed HCI_Reset_pac" "framed HCI_Init_pac" "framed (SET_PARAM_pac p v)" "framed Device_Scan_Req_pac"
    "framed Device_Scan_Cancel_Req_pac"
    by (simp_all add: command_packets_def)
qed

lemma ack_framed: "framed (Notify_Ack_pac h)"
  by (simp add: framed_def hci_parse_def Notify_Ack_pac_def)

lemma startup_framed: "list_all framed startup_packets"
  by (auto simp: startup_packets_def packets_framed list_all_iff)


subsection \<open>The protocol\<close>

text \<open>
  At each program point of the central thread: nothing before the start-up sequence; then that
  sequence, \<open>n\<close> scan requests and \<open>k\<close> cancel requests, where a scan was asked for before its data
  are waited for and a cancel is sent only after a scan request, the last packets of all.
\<close>

fun sent_at :: "central_pc \<Rightarrow> nat \<Rightarrow> nat \<Rightarrow> bool" where
  "sent_at In_Scan_Rsp n k = (0 < n \<and> k = 0)"
| "sent_at (Top s) n k =
     (case s of
        STATE_CENTRAL_INIT \<Rightarrow> k = 0
      | STATE_CENTRAL_DEVICE_SCAN_REQ \<Rightarrow> k = 0
      | STATE_CENTRAL_DEVICE_SCAN_DATA \<Rightarrow> 0 < n \<and> k = 0
      | STATE_CENTRAL_DEVICE_SCAN_CANCEL \<Rightarrow> 0 < n
      | STATE_CENTRAL_DEVICE_SCAN_CANCEL_RSP \<Rightarrow> 0 < n \<and> 0 < k
      | STATE_CENTRAL_DEVICE_ESTABLISH_LINK_REQ \<Rightarrow> 0 < n \<and> 0 < k
      | _ \<Rightarrow> False)"
| "sent_at pc n k = False"

definition central_trace :: "nat \<Rightarrow> nat \<Rightarrow> u8 list list" where
  "central_trace n k = startup_packets @ replicate n Device_Scan_Req_pac @ replicate k Device_Scan_Cancel_Req_pac"

definition follows_protocol :: "central_pc \<Rightarrow> globals \<Rightarrow> bool" where
  "follows_protocol pc g \<longleftrightarrow>
     list_all framed (sent g) \<and>
     (if pc = Start then by_central g = [] else \<exists>n k. by_central g = central_trace n k \<and> sent_at pc n k)"

lemma follows_protocolI:
  "by_central g = central_trace n k \<Longrightarrow> sent_at pc n k \<Longrightarrow> list_all framed (sent g) \<Longrightarrow> pc \<noteq> Start \<Longrightarrow>
   follows_protocol pc g"
  unfolding follows_protocol_def by auto

lemma protocol_tx_log: "tx_log g' = tx_log g \<Longrightarrow> follows_protocol pc g' = follows_protocol pc g"
  unfolding follows_protocol_def sent_def by_central_def by simp

lemma trace_scan: "central_trace n 0 @ [Device_Scan_Req_pac] = central_trace (Suc n) 0"
  by (simp add: central_trace_def replicate_append_same)

lemma trace_cancel: "central_trace n k @ [Device_Scan_Cancel_Req_pac] = central_trace n (Suc k)"
  by (simp add: central_trace_def replicate_append_same)

lemma protocol_silent:
  "follows_protocol pc g \<Longrightarrow> pc \<noteq> Start \<Longrightarrow> pc' \<noteq> Start \<Longrightarrow> tx_log g' = tx_log g \<Longrightarrow>
   (\<And>n k. sent_at pc n k \<Longrightarrow> sent_at pc' n k) \<Longrightarrow> follows_protocol pc' g'"
  unfolding follows_protocol_def sent_def by_central_def by auto

lemma recv_buffer_silent: "recv_buffer qid g = Returns g' \<Longrightarrow> tx_log g' = tx_log g"
  by (auto simp: recv_buffer_def outcome_bind_eq_Returns)

lemma use_junk_silent: "tx_log (snd (use_junk g)) = tx_log g" "use_junk g = (v, g') \<Longrightarrow> tx_log g' = tx_log g"
  by (auto simp: use_junk_def)


subsection \<open>Steps of the central thread\<close>

lemma start_protocol:
  assumes "central_step Start g = Returns (pc', g')" and "follows_protocol Start g"
  shows "follows_protocol pc' g'"
proof -
  obtain g1 qid k where s: "central_startup g = Returns (g1\<lparr>kern := k, tCommandRespQId := qid\<rparr>)"
    and l: "map fst (tx_log g1) = map fst (tx_log g) @ startup_packets"
    using central_startup_log by blast
  with assms(1) have "sent g' = sent g @ startup_packets" and pc: "pc' = Top STATE_CENTRAL_INIT"
    by (auto simp: sent_def)
  with assms(2) have "by_central g' = central_trace 0 0" "list_all framed (sent g')"
    by (simp_all add: follows_protocol_def by_central_def startup_no_ack central_trace_def startup_framed)
  with pc show ?thesis by (intro follows_protocolI) simp_all
qed

lemma scan_req_protocol:
  assumes c: "central_step (Top STATE_CENTRAL_DEVICE_SCAN_REQ) g = Returns (pc', g')"
    and g: "none_connected g" "globals_ok g" and f: "follows_protocol (Top STATE_CENTRAL_DEVICE_SCAN_REQ) g"
  shows "follows_protocol pc' g'"
proof -
  have "Device_conn_count g < 4"
    using count_none [of "Conn_Device_List g" 4] g
    by (simp add: Device_conn_count_def none_connected_def globals_ok_def)
  then obtain r where s: "Device_Scan_Req_send g = Returns (r, logged Device_Scan_Req_pac g)"
    and r: "r = Wait_Rsp \<or> r = Finished (Value (-1))"
    using Device_Scan_Req_send_cases [of g]
    by (fastforce simp: Device_Scan_Req_send_def outcome_bind_eq_Returns split_beta split: if_splits)
  have "scan_req_next (as_status (-1)) = STATE_CENTRAL_INIT" by code_simp
  with c s r have pc: "pc' = In_Scan_Rsp \<or> pc' = Top STATE_CENTRAL_INIT"
    and l: "sent g' = sent g @ [Device_Scan_Req_pac]"
    by (auto simp: central_state_step_def sent_def)
  from f obtain n where "by_central g = central_trace n 0" and fr: "list_all framed (sent g)"
    by (auto simp: follows_protocol_def)
  with l have "by_central g' = central_trace (Suc n) 0"
    by (simp add: by_central_def scan_packets_no_ack trace_scan)
  with pc l fr show ?thesis by (auto simp: packets_framed intro: follows_protocolI)
qed

lemma scan_cancel_protocol:
  assumes c: "central_step (Top STATE_CENTRAL_DEVICE_SCAN_CANCEL) g = Returns (pc', g')"
    and f: "follows_protocol (Top STATE_CENTRAL_DEVICE_SCAN_CANCEL) g"
  shows "follows_protocol pc' g'"
proof -
  have l: "sent g' = sent g @ [Device_Scan_Cancel_Req_pac]"
    using c by (auto simp: central_step_simps Device_Scan_Cancel_Req_def send_pac_eq sent_def split: if_splits)
  from f obtain n k where "by_central g = central_trace n k" "0 < n" and fr: "list_all framed (sent g)"
    by (auto simp: follows_protocol_def)
  with l have "by_central g' = central_trace n (Suc k)" "0 < n"
    by (simp_all add: by_central_def scan_packets_no_ack trace_cancel)
  with scan_cancel_step [OF c] l fr show ?thesis by (auto simp: packets_framed intro: follows_protocolI)
qed

lemma receiving_silent:
  "central_step In_Scan_Rsp g = Returns (pc', g') \<Longrightarrow> tx_log g' = tx_log g"
  "central_step (Top STATE_CENTRAL_DEVICE_SCAN_DATA) g = Returns (pc', g') \<Longrightarrow> tx_log g' = tx_log g"
  "central_step (Top STATE_CENTRAL_DEVICE_SCAN_CANCEL_RSP) g = Returns (pc', g') \<Longrightarrow> tx_log g' = tx_log g"
  by (auto simp: central_step_simps Device_Scan_Req_wait_def Device_Scan_Rsp_def Device_Scan_Data_def
      Device_Scan_Cancel_Rsp_def use_junk_silent
      split: if_splits dest!: recv_buffer_silent use_junk_silent(2))

lemma central_protocol:
  assumes g: "none_connected g" "globals_ok g" and pc: "pc \<in> set central_points"
    and c: "central_step pc g = Returns (pc', g')" and f: "follows_protocol pc g"
  shows "follows_protocol pc' g'"
proof -
  consider "pc = Start" | "pc = Top STATE_CENTRAL_DEVICE_SCAN_REQ" | "pc = Top STATE_CENTRAL_DEVICE_SCAN_CANCEL"
    | "pc = Top STATE_CENTRAL_INIT" | "pc = In_Scan_Rsp \<or> pc = Top STATE_CENTRAL_DEVICE_SCAN_DATA \<or>
        pc = Top STATE_CENTRAL_DEVICE_SCAN_CANCEL_RSP"
    | "pc = Top STATE_CENTRAL_DEVICE_ESTABLISH_LINK_REQ"
    using pc by (auto simp: central_points_def)
  then show ?thesis
  proof cases
    case 4
    with c f show ?thesis by (auto simp: init_step follows_protocol_def simp del: central_step.simps)
  next
    case 5
    then have "tx_log g' = tx_log g" using c receiving_silent by blast
    moreover have "pc' \<noteq> Start \<and> (\<forall>n k. sent_at pc n k \<longrightarrow> sent_at pc' n k)"
      using central_step_edge [OF c pc] 5 by (auto simp: central_edges_def)
    ultimately show ?thesis using protocol_silent [OF f] 5 by blast
  next
    case 6
    with c show ?thesis by (simp add: establish_link_step del: central_step.simps)
  qed (use c f g start_protocol scan_req_protocol scan_cancel_protocol in \<open>simp_all del: central_step.simps\<close>)
qed


subsection \<open>Steps of the receive thread\<close>

lemma receiver_protocol:
  assumes r: "run_action a g = Returns g'" and f: "follows_protocol pc g"
  shows "follows_protocol pc g'"
proof -
  have "sent g' = sent g \<or> (\<exists>h. sent g' = sent g @ [Notify_Ack_pac h])"
    using r by (cases a) (auto simp: outcome_bind_eq_Returns data_ack_def send_pac_eq clear_status_eq
        Upadate_Disconnection_eq sent_def split: if_splits)
  with f show ?thesis
    by (auto simp: follows_protocol_def by_central_def ack_packet ack_framed)
qed


subsection \<open>Every interleaving\<close>

text \<open>A process whose UART is still silent.\<close>

primrec gateway_fresh :: "gateway \<Rightarrow> bool" where
  "gateway_fresh (Running w) \<longleftrightarrow> process_init w \<and> tx_log (shared w) = []"
| "gateway_fresh (Crashed e) \<longleftrightarrow> False"

primrec gateway_wire :: "gateway \<Rightarrow> bool" where
  "gateway_wire (Running w) \<longleftrightarrow> process_inv w \<and> follows_protocol (central_at w) (shared w)"
| "gateway_wire (Crashed e) \<longleftrightarrow> True"

lemma gateway_step_wire: "gateway_step s t \<Longrightarrow> gateway_wire s \<Longrightarrow> gateway_wire t"
proof (cases t)
  case (Running w')
  assume st: "gateway_step s t" and l: "gateway_wire s"
  from st Running obtain w where s: "s = Running w"
    by (cases s) (auto simp: gateway_step_Crashed)
  with l have inv: "process_inv w" and f: "follows_protocol (central_at w) (shared w)" by simp_all
  have inv': "process_inv w'" using gateway_step_inv [OF st] s Running inv by simp
  from st [unfolded s Running] have "follows_protocol (central_at w') (shared w')"
  proof (cases rule: gateway_step.cases)
    case (rx_start j1 j2 j3 qs k)
    with f protocol_tx_log [of "(shared w)\<lparr>kern := k\<rparr>" "shared w"] show ?thesis by simp
  next
    case (rx_act a as g)
    with receiver_protocol f show ?thesis by simp
  next
    case (central pc g)
    with central_protocol [of "shared w" "central_at w" pc g] inv f show ?thesis
      by (simp add: process_inv_def del: central_step.simps)
  qed (use f in auto)
  with inv' Running show ?thesis by simp
qed simp

interpretation gateway_wires: step_invariant gateway_fresh gateway_step gateway_wire
proof
  fix s assume init: "gateway_fresh s"
  then obtain w where s: "s = Running w" and w: "process_init w" "tx_log (shared w) = []" by (cases s) auto
  from gateway_init_inv [of s] s w(1) have "process_inv w" by simp
  moreover have "follows_protocol (central_at w) (shared w)"
    using w by (simp add: process_init_def follows_protocol_def by_central_def sent_def)
  ultimately show "gateway_wire s" by (simp add: s)
qed (rule gateway_step_wire)

end
