(* ===== verification/Opcodes.thy ===== *)
theory Opcodes
  imports Rx_Dispatch
begin

text \<open>
  The opcode tables of \<open>BLE_Scanner/src/HCI_Commands.h\<close>, one list per section of the header, in
  its order: the macro's name and its replacement.  The codes the \<open>.c\<close> files name are constants
  of theory HCI; the tables serve to say which of all the events the header knows the dispatcher
  does something with, and which commands' status reports reach a waiting thread.  The
  messages the notes of \<open>info.txt\<close> list for the threads are tables, too.
\<close>

subsection \<open>The tables\<close>

text \<open>The replacement of a \<open>LE_\<close> event macro is two tokens, which no expression can use.\<close>

definition bt_commands :: "(string \<times> u16) list" where
  "bt_commands =
     [(''BT_DISCONNECT'', 0x0406),
      (''BT_READ_REMOTE_VERSION_INFORMATION'', 0x041D),
      (''BT_SET_EVENT_MASK'', 0x0C01),
      (''BT_RESET'', 0x0C03),
      (''GET_PARAM'', 0xFE31),
      (''BT_READ_TRANSMIT_POWER_LEVEL'', 0x0C2D),
      (''BT_SET_CONTROLLER_TO_HOST_FLOW_CONTROL'', 0x0C31),
      (''BT_HOST_BUFFER_SIZE'', 0x0C33),
      (''BT_HOST_NUMBER_OF_COMPLETED_PACKETS'', 0x0C35),
      (''BT_SET_EVENT_MASK_PAGE'', 0x0C63),
      (''BT_READ_AUTHENTICATED_PAYLOAD_TIMEOUT'', 0x0C7B),
      (''BT_WRITE_AUTHENTICATED_PAYLOAD_TIMEOUT'', 0x0C7C),
      (''BT_READ_LOCAL_VERSION_INFORMATION'', 0x1001),
      (''BT_READ_LOCAL_SUPPORTED_COMMANDS'', 0x1002),
      (''BT_READ_LOCAL_SUPPORTED_FEATURES'', 0x1003),
      (''BT_READ_BD_ADDR'', 0x1009),
      (''BT_READ_RSSI'', 0x1405)]"

definition le_commands :: "(string \<times> u16) list" where
  "le_commands =
     [(''LE_SET_EVENT_MASK'', 0x2001),
      (''LE_READ_BUFFER_SIZE'', 0x2002),
      (''LE_READ_LOCAL_SUPPORTED_FEATURES'', 0x2003),
      (''LE_SET_RANDOM_ADDRESS'', 0x2005),
      (''LE_SET_ADVERTISING_PARAMETERS'', 0x2006),
      (''LE_READ_ADVERTISING_CHANNEL_TX_POWER'', 0x2007),
      (''LE_SET_ADVERTISING_DATA'', 0x2008),
      (''LE_SET_SCAN_RESPONSE_DATA'', 0x2009),
      (''LE_SET_ADVERTISE_ENABLE'', 0x200A),
      (''LE_SET_SCAN_PARAMETERS'', 0x200B),
      (''LE_SET_SCAN_ENABLE'', 0x200C),
      (''LE_CREATE_CONNECTION'', 0x200D),
      (''LE_CREATE_CONNECTION_CANCEL'', 0x200E),
      (''LE_READ_WHITE_LIST_SIZE'', 0x200F),
      (''LE_CLEAR_WHITE_LIST'', 0x2010),
      (''LE_ADD_DEVICE_TO_WHITE_LIST'', 0x2011),
      (''LE_REMOVE_DEVICE_FROM_WHITE_LIST'', 0x2012),
      (''LE_CONNECTION_UPDATE'', 0x2013),
      (''LE_SET_HOST_CHANNEL_CLASSIFICATION'', 0x2014),
      (''LE_READ_CHANNEL_MAP'', 0x2015),
      (''LE_READ_REMOTE_USED_FEATURES'', 0x2016),
      (''LE_ENCRYPT'', 0x2017),
      (''LE_RAND'', 0x2018),
      (''LE_START_ENCRYPTION'', 0x2019),
      (''LE_LONG_TERM_KEY_REQUESTED_REPLY'', 0x201A),
      (''LE_LONG_TERM_KEY_REQUESTED_NEGATIVE_REPLY'', 0x201B),
      (''LE_READ_SUPPORTED_STATES'', 0x201C),
      (''LE_RECEIVER_TEST'', 0x201D),
      (''LE_TRANSMITTER_TEST'', 0x201E),
      (''LE_TEST_END_COMMAND'', 0x201F),
      (''LE_REMOTE_CONNECTION_PARAMETER_REQUEST_REPLY'', 0x2020),
      (''LE_REMOTE_CONNECTION_PARAMETER_REQUEST_NEGATIVE_REPLY'', 0x2021)]"

definition le_events :: "(string \<times> u8 list) list" where
  "le_events =
     [(''LE_CONNECTION_COMPLETE'', [0x3E, 0x01]),
      (''LE_ADVERTISING_REPORT'', [0x3E, 0x02]),
      (''LE_CONNECTION_UPDATE_COMPLETE'', [0x3E, 0x03]),
      (''LE_READ_REMOTE_USED_FEATURES_COMPLETE'', [0x3E, 0x04]),
      (''LE_LONG_TERM_KEY_REQUESTED'', [0x3E, 0x05]),
      (''LE_REMOTE_CONNECTION_PARAMETER_REQUEST'', [0x3E, 0x06])]"

definition bt_events :: "(string \<times> u8) list" where
  "bt_events =
     [(''BT_DISCONNECTION_COMPLETE'', 0x05),
      (''BT_ENCRYPTION_CHANGE'', 0x08),
      (''BT_READ_REMOTE_VERSION_INFORMATION_COMPLETE'', 0x0C),
      (''BT_COMMAND_COMPLETE'', 0x0E),
      (''BT_COMMAND_STATUS'', 0x0F),
      (''BT_HARDWARE_ERROR'', 0x10),
      (''BT_NUMBER_OF_COMPLETED_PACKETS'', 0x13),
      (''BT_DATA_BUFFER_OVERFLOW'', 0x1A),
      (''BT_ENCRYPTION_KEY_REFRESH_COMPLETE'', 0x30),
      (''BT_AUTHENTICATED_PAYLOAD_TIMEOUT_EXPIRED'', 0x57)]"

definition vs_hci_commands :: "(string \<times> u16) list" where
  "vs_hci_commands =
     [(''VS_HCI_EXTENSION_SET_RX_GAIN'', 0xFC00),
      (''VS_HCI_EXTENSION_SET_TX_POWER'', 0xFC01),
      (''VS_HCI_EXTENSION_ONE_PACKET_PER_EVENT'', 0xFC02),
      (''VS_HCI_EXTENSION_CLOCK_DIVIDE_ON_HALT'', 0xFC03),
      (''VS_HCI_EXTENSION_DECLARE_NV_USAGE'', 0xFC04),
      (''VS_HCI_EXTENSION_DECRYPT'', 0xFC05),
      (''VS_HCI_EXTENSION_SET_LOCAL_SUPPORTED_FEATURES'', 0xFC06),
      (''VS_HCI_EXTENSION_SET_FAST_TX_RESPONSE_TIME'', 0xFC07),
      (''VS_HCI_EXTENSION_MODEM_TEST_TX'', 0xFC08),
      (''VS_HCI_EXTENSION_MODEM_HOP_TEST_TX'', 0xFC09),
      (''VS_HCI_EXTENSION_MODEM_TEST_RX'', 0xFC0A),
      (''VS_HCI_EXTENSION_END_MODEM_TEST'', 0xFC0B),
      (''VS_HCI_EXTENSION_SET_BDADDR'', 0xFC0C),
      (''VS_HCI_EXTENSION_SET_SCA'', 0xFC0D),
      (''VS_HCI_EXTENSION_ENABLE_PTM'', 0xFC0E),
      (''VS_HCI_EXTENSION_SET_FREQUENCY_TUNING'', 0xFC0F),
      (''VS_HCI_EXTENSION_SAVE_FREQUENCY_TUNING'', 0xFC10),
      (''VS_HCI_EXTENSION_SET_MAX_DTM_TX_POWER'', 0xFC11),
      (''VS_HCI_EXTENSION_MAP_PM_IO_PORT'', 0xFC12),
      (''VS_HCI_EXTENSION_DISCONNECT_IMMEDIATE'', 0xFC13),
      (''VS_HCI_EXTENSION_PACKET_ERROR_RATE'', 0xFC14),
      (''VS_HCI_EXTENSION_PACKET_ERROR_RATE_BY_CHANNEL'', 0xFC15),
      (''VS_HCI_EXTENSION_EXTEND_RF_RANGE'', 0xFC16),
      (''VS_HCI_EXTENSION_ADVERTISER_EVENT_NOTICE'', 0xFC17),
      (''VS_HCI_EXTENSION_CONNECTION_EVENT_NOTICE'', 0xFC18),
      (''VS_HCI_EXTENSION_HALT_DURING_RF'', 0xFC19),
      (''VS_HCI_EXTENSION_SET_SLAVE_LATENCY_OVERRIDE'', 0xFC1A),
      (''VS_HCI_EXTENSION_BUILD_REVISION'', 0xFC1B),
      (''VS_HCI_EXTENSION_DELAY_SLEEP'', 0xFC1C),
      (''VS_HCI_EXTENSION_RESET_SYSTEM'', 0xFC1D),
      (''VS_HCI_EXTENSION_OVERLAPPED_PROCESSING'', 0xFC1E),
      (''VS_HCI_EXTENSION_NUMBER_COMPLETED_PACKETS_LIMIT'', 0xFC1F),
      (''VS_HCI_EXTENSION_GET_CONNECTION_INFORMATION'', 0xFC20),
      (''VS_HCI_EXTENSION_SET_MAX_DATA_LENGTH'', 0xFC21)]"

definition vs_l2cap_commands :: "(string \<times> u16) list" where
  "vs_l2cap_commands =
     [(''VS_L2CAP_DISCONNECTION_REQUEST'', 0xFC86),
      (''VS_L2CAP_CONNECTION_PARAMETER_UPDATE_REQUEST'', 0xFC92),
      (''VS_L2CAP_CONNECTION_REQUEST'', 0xFC94),
      (''VS_L2CAP_CONNECTION_RESPONSE'', 0xFC95),
      (''VS_L2CAP_FLOW_CONTROL_CREDIT'', 0xFC96),
      (''VS_L2CAP_DATA'', 0xFCF0),
      (''VS_L2CAP_REGISTER_PSM'', 0xFCF1),
      (''VS_L2CAP_DEREGISTER_PSM'', 0xFCF2),
      (''VS_L2CAP_PSM_INFO'', 0xFCF3),
      (''VS_L2CAP_PSM_CHANNELS'', 0xFCF4),
      (''VS_L2CAP_CHANNEL_INFO'', 0xFCF5)]"

definition vs_att_commands :: "(string \<times> u16) list" where
  "vs_att_commands =
     [(''VS_ATT_ERROR_RESPONSE'', 0xFD01),
      (''VS_ATT_EXCHANGE_MTU_REQUEST'', 0xFD02),
      (''VS_ATT_EXCHANGE_MTU_RESPONSE'', 0xFD03),
      (''VS_ATT_FIND_INFORMATION_REQUEST'', 0xFD04),
      (''VS_ATT_FIND_INFORMATION_RESPONSE'', 0xFD05),
      (''VS_ATT_FIND_BY_TYPE_VALUE_REQUEST'', 0xFD06),
      (''VS_ATT_FIND_BY_TYPE_VALUE_RESPONSE'', 0xFD07),
      (''VS_ATT_READ_BY_TYPE_REQUEST'', 0xFD08),
      (''VS_ATT_READ_BY_TYPE_RESPONSE'', 0xFD09),
      (''VS_ATT_READ_REQUEST'', 0xFD0A),
      (''VS_ATT_READ_RESPONSE'', 0xFD0B),
      (''VS_ATT_READ_BLOB_REQUEST'', 0xFD0C),
      (''VS_ATT_READ_BLOB_RESPONSE'', 0xFD0D),
      (''VS_ATT_READ_MULTIPLE_REQUEST'', 0xFD0E),
      (''VS_ATT_READ_MULTIPLE_RESPONSE'', 0xFD0F),
      (''VS_ATT_READ_BY_GROUP_TYPE_REQUEST'', 0xFD10),
      (''VS_ATT_READ_BY_GROUP_TYPE_RESPONSE'', 0xFD11),
      (''VS_ATT_WRITE_REQUEST'', 0xFD12),
      (''VS_ATT_WRITE_RESPONSE'', 0xFD13),
      (''VS_ATT_PREPARE_WRITE_REQUEST'', 0xFD16),
      (''VS_ATT_PREPARE_WRITE_RESPONSE'', 0xFD17),
      (''VS_ATT_EXECUTE_WRITE_REQUEST'', 0xFD18),
      (''VS_ATT_EXECUTE_WRITE_RESPONSE'', 0xFD19),
      (''VS_ATT_HANDLE_VALUE_NOTIFICATION'', 0xFD1B),
      (''VS_ATT_HANDLE_VALUE_INDICATION'', 0xFD1D),
      (''VS_ATT_HANDLE_VALUE_CONFIRMATION'', 0xFD1E)]"

definition vs_gatt_commands :: "(string \<times> u16) list" where
  "vs_gatt_commands =
     [(''VS_GATT_DISCOVER_CHARACTERISTICS_BY_UUID'', 0xFD88),
      (''VS_GATT_WRITE_LONG'', 0xFD96)]"

definition vs_gap_commands :: "(string \<times> u16) list" where
  "vs_gap_commands =
     [(''VS_GAP_DEVICE_INITIALIZATION'', 0xFE00),
      (''VS_GAP_CONFIGURE_DEVICE_ADDRESS'', 0xFE03),
      (''VS_GAP_DEVICE_DISCOVERY_REQUEST'', 0xFE04),
      (''VS_GAP_DEVICE_DISCOVERY_CANCEL'', 0xFE05),
      (''VS_GAP_MAKE_DISCOVERABLE'', 0xFE06),
      (''VS_GAP_UPDATE_ADVERTISING_DATA'', 0xFE07),
      (''VS_GAP_END_DISCOVERABLE'', 0xFE08),
      (''VS_GAP_ESTABLISH_LINK_REQUEST'', 0xFE09),
      (''VS_GAP_TERMINATE_LINK_REQUEST'', 0xFE0A),
      (''VS_GAP_AUTHENTICATE'', 0xFE0B),
      (''VS_GAP_PASSKEY_UPDATE'', 0xFE0C),
      (''VS_GAP_SLAVE_SECURITY_REQUEST'', 0xFE0D),
      (''VS_GAP_SIGNABLE'', 0xFE0E),
      (''VS_GAP_BOND'', 0xFE0F),
      (''VS_GAP_TERMINATE_AUTH'', 0xFE10),
      (''VS_GAP_UPDATE_LINK_PARAMETER_REQUEST'', 0xFE11),
      (''VS_GAP_SET_PARAMETER'', 0xFE30),
      (''VS_GAP_GET_PARAMETER'', 0xFE31),
      (''VS_GAP_RESOLVE_PRIVATE_ADDRESS'', 0xFE32),
      (''VS_GAP_SET_ADVERTISEMENT_TOKEN'', 0xFE33),
      (''VS_GAP_REMOVE_ADVERTISEMENT_TOKEN'', 0xFE34),
      (''VS_GAP_UPDATE_ADVERTISEMENT_TOKENS'', 0xFE35),
      (''VS_GAP_BOND_SET_PARAMETER'', 0xFE36),
      (''VS_GAP_BOND_GET_PARAMETER'', 0xFE37),
      (''VS_UTIL_RESERVED'', 0xFE80),
      (''VS_UTIL_NV_READ'', 0xFE81),
      (''VS_UTIL_NV_WRITE'', 0xFE82),
      (''VS_RESERVED'', 0xFF00),
      (''VS_USER_PROFILES'', 0xFF80)]"

definition gatt_commands :: "(string \<times> u16) list" where
  "gatt_commands =
     [(''GATT_FINDINCLUDEDSERVICES'', 0xFDB0),
      (''GATT_DISCALLCHARS'', 0xFDB2),
      (''GATT_EXCHANGE_MTU'', 0xFD82),
      (''GATT_DISCCHARSBYUUID'', 0xFD88),
      (''GATT_DISCALLCHARDESCS'', 0xFD84),
      (''GATT_READCHARVALUE'', 0xFD8A),
      (''GATT_READUSINGCHARUUID'', 0xFDB4),
      (''GATT_READLONGCHARVALUE'', 0xFD8C),
      (''GATT_READMULTICHARVALUES'', 0xFD8E),
      (''GATT_WRITENORSP'', 0xFDB6),
      (''GATT_SIGNEDWRITENORSP'', 0xFDB8),
      (''GATT_WRITECHARVALUE'', 0xFD92),
      (''GATT_WRITELONGCHARVALUE'', 0xFD96),
      (''GATT_READCHARDESC'', 0xFDBC),
      (''GATT_READLONGCHARDESC'', 0xFDBE),
      (''GATT_WRITECHARDESC'', 0xFDC0),
      (''GATT_WRITELONGCHARDESC'', 0xFDC2),
      (''GATT_NOTIFICATION'', 0xFD9B),
      (''GATT_INDICATION'', 0xFD9D),
      (''GATT_ADDSERVICE'', 0xFDFC),
      (''GATT_DELSERVICE'', 0xFDFD),
      (''GATT_ADDATTRIBUTE'', 0xFDFE)]"

definition gatt_events :: "(string \<times> u16) list" where
  "gatt_events =
     [(''GATT_CLIENTCHARCFGUPDATED'', 0x0580)]"

definition vs_hci_events :: "(string \<times> u16) list" where
  "vs_hci_events =
     [(''EVENT_VS_HCI_EXTENSION_SET_RX_GAIN'', 0x0400),
      (''EVENT_VS_HCI_EXTENSION_SET_TX_POWER'', 0x0401),
      (''EVENT_VS_HCI_EXTENSION_ONE_PACKET_PER_EVENT'', 0x0402),
      (''EVENT_VS_HCI_EXTENSION_CLOCK_DIVIDE_ON_HALT'', 0x0403),
      (''EVENT_VS_HCI_EXTENSION_DECLARE_NV_USAGE'', 0x0404),
      (''EVENT_VS_HCI_EXTENSION_DECRYPT'', 0x0405),
      (''EVENT_VS_HCI_EXTENSION_SET_LOCAL_SUPPORTED_FEATURES'', 0x0406),
      (''EVENT_VS_HCI_EXTENSION_SET_FAST_TX_RESPONSE_TIME'', 0x0407),
      (''EVENT_VS_HCI_EXTENSION_MODEM_TEST_TX'', 0x0408),
      (''EVENT_VS_HCI_EXTENSION_MODEM_HOP_TEST_TX'', 0x0409),
      (''EVENT_VS_HCI_EXTENSION_MODEM_TEST_RX'', 0x040A),
      (''EVENT_VS_HCI_EXTENSION_END_MODEM_TEST'', 0x040B),
      (''EVENT_VS_HCI_EXTENSION_SET_BDADDR'', 0x040C),
      (''EVENT_VS_HCI_EXTENSION_SET_SCA'', 0x040D),
      (''EVENT_VS_HCI_EXTENSION_ENABLE_PTM'', 0x040E),
      (''EVENT_VS_HCI_EXTENSION_SET_FREQUENCY_TUNING'', 0x040F),
      (''EVENT_VS_HCI_EXTENSION_SAVE_FREQUENCY_TUNING'', 0x0410),
      (''EVENT_VS_HCI_EXTENSION_SET_MAX_DTM_TX_POWER'', 0x0411),
      (''EVENT_VS_HCI_EXTENSION_MAP_PM_IO_PORT'', 0x0412),
      (''EVENT_VS_HCI_EXTENSION_DISCONNECT_IMMEDIATE'', 0x0413),
      (''EVENT_VS_HCI_EXTENSION_PACKET_ERROR_RATE'', 0x0414),
      (''EVENT_VS_HCI_EXTENSION_PACKET_ERROR_RATE_BY_CHANNEL'', 0x0415),
      (''EVENT_VS_HCI_EXTENSION_EXTEND_RF_RANGE'', 0x0416),
      (''EVENT_VS_HCI_EXTENSION_ADVERTISER_EVENT_NOTICE'', 0x0417),
      (''EVENT_VS_HCI_EXTENSION_CONNECTION_EVENT_NOTICE'', 0x0418),
      (''EVENT_VS_HCI_EXTENSION_HALT_DURING_RF'', 0x0419),
      (''EVENT_VS_HCI_EXTENSION_SET_SLAVE_LATENCY_OVERRIDE'', 0x041A),
      (''EVENT_VS_HCI_EXTENSION_BUILD_REVISION'', 0x041B),
      (''EVENT_VS_HCI_EXTENSION_DELAY_SLEEP'', 0x041C),
      (''EVENT_VS_HCI_EXTENSION_RESET_SYSTEM'', 0x041D),
      (''EVENT_VS_HCI_EXTENSION_OVERLAPPED_PROCESSING'', 0x041E),
      (''EVENT_VS_HCI_EXTENSION_NUMBER_COMPLETED_PACKETS_LIMIT'', 0x041F),
      (''EVENT_VS_HCI_EXTENSION_GET_CONNECTION_INFORMATION'', 0x0420)]"

definition vs_l2cap_events :: "(string \<times> u16) list" where
  "vs_l2cap_events =
     [(''EVENT_VS_L2CAP_COMMAND_REJECT'', 0x0481),
      (''EVENT_VS_L2CAP_CONNECTION_PARAMETER_UPDATE_RESPONSE'', 0x0493),
      (''EVENT_VS_L2CAP_CONNECTION_REQUEST'', 0x0494),
      (''EVENT_VS_L2CAP_CHANNEL_ESTABLISHED'', 0x04E0),
      (''EVENT_VS_L2CAP_CHANNEL_TERMINATED'', 0x04E1),
      (''EVENT_VS_L2CAP_OUT_OF_CREDIT'', 0x04E2),
      (''EVENT_VS_L2CAP_PEER_CREDIT_THRESHOLD'', 0x04E3),
      (''EVENT_VS_L2CAP_SEND_SDU_DONE'', 0x04E4),
      (''EVENT_VS_L2CAP_DATA'', 0x04F0)]"

definition vs_att_events :: "(string \<times> u16) list" where
  "vs_att_events =
     [(''EVENT_VS_ATT_ERROR_RESPONSE'', 0x0501),
      (''EVENT_VS_ATT_EXCHANGE_MTU_REQUEST'', 0x0502),
      (''EVENT_VS_ATT_EXCHANGE_MTU_RESPONSE'', 0x0503),
      (''EVENT_VS_ATT_FIND_INFORMATION_REQUEST'', 0x0504),
      (''EVENT_VS_ATT_FIND_INFORMATION_REQUEST'', 0x0505),
      (''EVENT_VS_ATT_FIND_BY_TYPE_VALUE_REQUEST'', 0x0506),
      (''EVENT_VS_ATT_FIND_BY_TYPE_VALUE_RESPONSE'', 0x0507),
      (''EVENT_VS_ATT_READ_BY_TYPE_REQUEST'', 0x0508),
      (''EVENT_VS_ATT_READ_REQUEST'', 0x050A),
      (''EVENT_VS_ATT_READ_RESPONSE'', 0x050B),
      (''EVENT_VS_ATT_READ_BLOB_REQUEST'', 0x050C),
      (''EVENT_VS_ATT_READ_BLOB_RESPONSE'', 0x050D),
      (''EVENT_VS_ATT_READ_MULTIPLE_REQUEST'', 0x050E),
      (''EVENT_VS_ATT_READ_MULTIPLE_RESPONSE'', 0x050F),
      (''EVENT_VS_ATT_READ_BY_GROUP_TYPE_REQUEST'', 0x0510),
      (''EVENT_VS_ATT_READ_BY_GROUP_TYPE_RESPONSE'', 0x0511),
      (''EVENT_VS_ATT_WRITE_REQUEST'', 0x0512),
      (''EVENT_VS_ATT_PREPARE_WRITE_REQUEST'', 0x0516),
      (''EVENT_VS_ATT_PREPARE_WRITE_RESPONSE'', 0x0517),
      (''EVENT_VS_ATT_EXECUTE_WRITE_REQUEST'', 0x0518),
      (''EVENT_VS_ATT_EXECUTE_WRITE_RESPONSE'', 0x0519),
      (''EVENT_VS_ATT_HANDLE_VALUE_NOTIFICATION'', 0x051B),
      (''EVENT_VS_ATT_HANDLE_VALUE_INDICATION'', 0x051D),
      (''EVENT_VS_ATT_HANDLE_VALUE_CONFIRMATION'', 0x051E)]"

definition vs_gap_events :: "(string \<times> u16) list" where
  "vs_gap_events =
     [(''VS_GAP_DEVICE_INIT_DONE'', 0x0600),
      (''VS_GAP_DEVICE_DISCOVERY'', 0x0601),
      (''VS_GAP_ADVERT_DATA_UPDATE_DONE'', 0x0602),
      (''VS_GAP_MAKE_DISCOVERABLE_DONE'', 0x0603),
      (''VS_GAP_END_DISCOVERABLE_DONE'', 0x0604),
      (''VS_GAP_LINK_ESTABLISHED'', 0x0605),
      (''VS_GAP_LINK_TERMINATED'', 0x0606),
      (''VS_GAP_LINK_PARAMETER_UPDATE'', 0x0607),
      (''VS_GAP_RANDOM_ADDRESS_CHANGED'', 0x0608),
      (''VS_GAP_SIGNATURE_UPDATED'', 0x0609),
      (''VS_GAP_AUTHENTICATION_COMPLETE'', 0x060A),
      (''VS_GAP_PASSKEY_NEEDED'', 0x060B),
      (''VS_GAP_SLAVE_REQUESTED_SECURITY'', 0x060C),
      (''VS_GAP_DEVICE_INFORMATION'', 0x060D),
      (''VS_GAP_BOND_COMPLETE'', 0x060E),
      (''VS_GAP_PAIRING_REQUESTED'', 0x060F),
      (''VS_COMMAND_STATUS'', 0x067F)]"

definition vs_aliases :: "(string \<times> u16) list" where
  "vs_aliases =
     [(''VS_TI_ATT_READ_BY_TYPE_RESPONSE'', 0x0509),
      (''VS_GATT_WRITE_CHAR_VALUE'', 0xFD92),
      (''VS_GATT_WRITE_NO_RESP'', 0xFDB6),
      (''VS_ATT_WRITE_RESPONSE_EVENT'', 0x0513),
      (''VS_TI_ATT_EXCHANGE_MTU_RESPONSE'', 0x0503)]"

subsection \<open>The header as a whole\<close>

definition is_event :: "u16 \<Rightarrow> bool" where
  "is_event w \<longleftrightarrow> w < 0x0800"

definition vendor_events :: "(string \<times> u16) list" where
  "vendor_events = vs_hci_events @ vs_l2cap_events @ vs_att_events @ vs_gap_events @ gatt_events
     @ filter (\<lambda>(nm, w). is_event w) vs_aliases"

definition header_commands :: "(string \<times> u16) list" where
  "header_commands = bt_commands @ le_commands @ vs_hci_commands @ vs_l2cap_commands
     @ vs_att_commands @ vs_gatt_commands @ vs_gap_commands @ gatt_commands
     @ filter (\<lambda>(nm, w). \<not> is_event w) vs_aliases"

text \<open>A macro that is defined again has its last replacement.\<close>

definition macro_value :: "(string \<times> 'a) list \<Rightarrow> string \<Rightarrow> 'a option" where
  "macro_value tab nm = map_of (rev tab) nm"

text \<open>The event that answers a vendor command, by the convention of the header.\<close>

definition event_of :: "string \<times> u16 \<Rightarrow> string \<times> u16" where
  "event_of c = (''EVENT_'' @ fst c, snd c AND 0x07FF)"

lemmas opcode_tables = bt_commands_def le_commands_def vs_hci_commands_def vs_l2cap_commands_def
  vs_att_commands_def vs_gatt_commands_def vs_gap_commands_def gatt_commands_def vs_aliases_def
  vs_hci_events_def vs_l2cap_events_def vs_att_events_def vs_gap_events_def gatt_events_def

text \<open>The constants of theory HCI are entries of the tables.\<close>

lemma constants_in_tables:
  "(''VS_HCI_EXTENSION_SET_MAX_DATA_LENGTH'', VS_HCI_EXTENSION_SET_MAX_DATA_LENGTH) \<in> set vs_hci_commands"
  "(''VS_GAP_DEVICE_DISCOVERY_REQUEST'', VS_GAP_DEVICE_DISCOVERY_REQUEST) \<in> set vs_gap_commands"
  "(''VS_GAP_ESTABLISH_LINK_REQUEST'', VS_GAP_ESTABLISH_LINK_REQUEST) \<in> set vs_gap_commands"
  "(''GATT_WRITECHARVALUE'', GATT_WRITECHARVALUE) \<in> set gatt_commands"
  "(''VS_GAP_DEVICE_DISCOVERY'', VS_GAP_DEVICE_DISCOVERY) \<in> set vs_gap_events"
  "(''VS_COMMAND_STATUS'', VS_COMMAND_STATUS) \<in> set vs_gap_events"
  by (simp_all add: opcode_tables hci_codes)


subsection \<open>Vendor commands and their events\<close>

lemma hci_events_follow: "map event_of (butlast vs_hci_commands) = vs_hci_events"
  by (simp add: event_of_def opcode_tables)

text \<open>The ATT commands whose event has no \<open>EVENT_\<close> macro, or one under another name.\<close>

definition att_renamed :: "string list" where
  "att_renamed = [''VS_ATT_READ_BY_TYPE_RESPONSE'', ''VS_ATT_WRITE_RESPONSE'']"

definition att_event_name :: "string \<Rightarrow> string" where
  "att_event_name nm =
     (if nm = ''EVENT_VS_ATT_FIND_INFORMATION_RESPONSE'' then ''EVENT_VS_ATT_FIND_INFORMATION_REQUEST''
      else nm)"

lemma att_events_follow:
  "map (\<lambda>c. (att_event_name (fst (event_of c)), snd (event_of c)))
       (filter (\<lambda>c. fst c \<notin> set att_renamed) vs_att_commands) = vs_att_events"
  by (simp add: event_of_def att_renamed_def att_event_name_def opcode_tables)

lemma renamed_att_events:
  "map_of vs_aliases ''VS_TI_ATT_READ_BY_TYPE_RESPONSE'' =
     map_option (\<lambda>w. w AND 0x07FF) (map_of vs_att_commands ''VS_ATT_READ_BY_TYPE_RESPONSE'')"
  "map_of vs_aliases ''VS_ATT_WRITE_RESPONSE_EVENT'' =
     map_option (\<lambda>w. w AND 0x07FF) (map_of vs_att_commands ''VS_ATT_WRITE_RESPONSE'')"
  by (simp_all add: opcode_tables)

lemma find_information_redefined:
  "macro_value vs_att_events ''EVENT_VS_ATT_FIND_INFORMATION_REQUEST'' = Some 0x0505"
  by (simp add: macro_value_def opcode_tables)

text \<open>The vendor event codes of the header follow from its command codes by one rule: the
  event is the command AND 0x07FF, under the command's name with EVENT_ in front.  The HCI
  extension section is exactly the image of its commands (all but the last); the ATT section is
  exactly the image of its commands except two responses that have their own macros with the
  same rule, and one misnamed line: the code of the find-information response is given to the
  name of the request a second time, so that this macro no longer has the code of the request.\<close>

lemma event_codes_follow:
  "map event_of (butlast vs_hci_commands) = vs_hci_events \<and>
   map (\<lambda>c. (att_event_name (fst (event_of c)), snd (event_of c)))
       (filter (\<lambda>c. fst c \<notin> set att_renamed) vs_att_commands) = vs_att_events \<and>
   map_of vs_aliases ''VS_TI_ATT_READ_BY_TYPE_RESPONSE'' =
     map_option (\<lambda>w. w AND 0x07FF) (map_of vs_att_commands ''VS_ATT_READ_BY_TYPE_RESPONSE'') \<and>
   macro_value vs_att_events ''EVENT_VS_ATT_FIND_INFORMATION_REQUEST''
     \<noteq> map_option (\<lambda>w. w AND 0x07FF) (map_of vs_att_commands ''VS_ATT_FIND_INFORMATION_REQUEST'')"
  by (intro conjI hci_events_follow att_events_follow renamed_att_events)
     (simp add: find_information_redefined, simp add: opcode_tables)


subsection \<open>Which events the dispatcher acts on\<close>

definition routed_codes :: "u16 list" where
  "routed_codes = command_events @
     [VS_COMMAND_STATUS, VS_GAP_LINK_TERMINATED, EVENT_VS_ATT_HANDLE_VALUE_NOTIFICATION,
      EVENT_VS_ATT_WRITE_REQUEST, EVENT_VS_ATT_PREPARE_WRITE_REQUEST]"

text \<open>A vendor event with a given code and given bytes 6 and 7.\<close>

definition event_packet :: "u16 \<Rightarrow> u16 \<Rightarrow> u8 list" where
  "event_packet code opc = packet_of [BLE_EVT_PKT, 0xFF, 0, LSBYTEOF16BIT code, MSBYTEOF16BIT code,
     0, LSBYTEOF16BIT opc, MSBYTEOF16BIT opc]"

lemma event_packet_fields [simp]:
  "vendor_event (event_packet code opc)" "event_code (event_packet code opc) = code"
  "event_opcode (event_packet code opc) = opc"
  by (simp_all add: event_packet_def packet_of_def vendor_event_def event_code_def
      event_opcode_def make16_split)

lemma reacts_iff:
  "(\<exists>p. vendor_event p \<and> event_code p = w \<and> dispatch qs p n \<noteq> []) \<longleftrightarrow> w \<in> set routed_codes"
proof
  assume "\<exists>p. vendor_event p \<and> event_code p = w \<and> dispatch qs p n \<noteq> []"
  then obtain p where p: "vendor_event p" "event_code p = w" "dispatch qs p n \<noteq> []" by blast
  then have "\<not> shadowed p" using dispatch_shadowed by blast
  with p show "w \<in> set routed_codes"
    using dispatch_vendor [OF p(1) _ p(2), of qs n] by (auto simp: routed_codes_def split: if_splits)
next
  assume w: "w \<in> set routed_codes"
  let ?p = "event_packet w 0"
  have "\<not> shadowed ?p" by (simp add: shadowed_def)
  moreover have "event_packet w 0 ! 6 = 0" by (simp add: event_packet_def packet_of_def LSBYTEOF16BIT_def)
  ultimately have "dispatch qs ?p n \<noteq> []"
    using w dispatch_vendor [of ?p w qs n]
    by (auto simp: routed_codes_def dispatch_status_def dispatch_link_terminated_def Let_def
        send_pipe_def dispatch_write_request_def hci_codes command_events_def)
  then show "\<exists>p. vendor_event p \<and> event_code p = w \<and> dispatch qs p n \<noteq> []"
    by (intro exI [of _ ?p]) simp
qed


lemmas routed_simps = opcode_tables routed_codes_def command_events_def hci_codes is_event_def

lemma routed_sections:
  "filter (\<lambda>c. snd c \<in> set routed_codes) vs_hci_events = []"
  "filter (\<lambda>c. snd c \<in> set routed_codes) vs_l2cap_events = []"
  "map fst (filter (\<lambda>c. snd c \<in> set routed_codes) vs_att_events) =
     [''EVENT_VS_ATT_EXCHANGE_MTU_REQUEST'', ''EVENT_VS_ATT_READ_BY_TYPE_REQUEST'',
      ''EVENT_VS_ATT_READ_REQUEST'', ''EVENT_VS_ATT_READ_BY_GROUP_TYPE_REQUEST'',
      ''EVENT_VS_ATT_WRITE_REQUEST'', ''EVENT_VS_ATT_PREPARE_WRITE_REQUEST'',
      ''EVENT_VS_ATT_HANDLE_VALUE_NOTIFICATION'']"
  "map fst (filter (\<lambda>c. snd c \<in> set routed_codes) vs_gap_events) =
     [''VS_GAP_DEVICE_DISCOVERY'', ''VS_GAP_LINK_ESTABLISHED'', ''VS_GAP_LINK_TERMINATED'',
      ''VS_GAP_DEVICE_INFORMATION'', ''VS_COMMAND_STATUS'']"
  "filter (\<lambda>c. snd c \<in> set routed_codes) gatt_events = []"
  "map fst (filter (\<lambda>c. snd c \<in> set routed_codes) (filter (\<lambda>(nm, w). is_event w) vs_aliases)) =
     [''VS_TI_ATT_READ_BY_TYPE_RESPONSE'']"
  by (simp_all add: routed_simps)

text \<open>The events the notes of \<open>info.txt\<close> list as messages to the peripheral and to the central side.\<close>

definition info_peripheral_events :: "(string \<times> u16) list" where
  "info_peripheral_events =
     [(''Advertisement data update done'', 0x0602), (''Make Discoverable Done'', 0x0603),
      (''End Discoverable Done'', 0x0604), (''Link Established'', 0x0605), (''Link Terminated'', 0x0606),
      (''ATT_ExchangeRequest'', 0x0502), (''ATT_ReadByTypeRequest'', 0x0508),
      (''ATTReadByGrpTypeRequest'', 0x0510), (''ATTWriteRequest'', 0x0512)]"

definition info_central_events :: "(string \<times> u16) list" where
  "info_central_events =
     [(''GAP_DeviceInformation'', 0x060D), (''GAP_DiscoveryDone'', 0x0601), (''Link Established'', 0x0605),
      (''Link Terminated'', 0x0606), (''ReadByTypeRsp'', 0x0509), (''ATT_WriteRsp'', 0x0513),
      (''GAP_LinkParamUpdate'', 0x0607), (''ExchangeMTURsp'', 0x0503), (''ATT_MtuUpdatedEvt'', 0x057F),
      (''ATT_HandleValueNotification'', 0x051B)]"

text \<open>The receive thread does something for an event: a packet with its code causes an action.\<close>

definition acted_on :: "rx_queues \<Rightarrow> u8 \<Rightarrow> u16 \<Rightarrow> bool" where
  "acted_on qs n code \<longleftrightarrow> (\<exists>p. vendor_event p \<and> event_code p = code \<and> dispatch qs p n \<noteq> [])"

lemma acted_on_iff: "acted_on qs n code \<longleftrightarrow> code \<in> set routed_codes"
  unfolding acted_on_def by (rule reacts_iff)

lemma info_sections:
  "map fst (filter (\<lambda>c. snd c \<notin> set routed_codes) info_peripheral_events) =
     [''Advertisement data update done'', ''Make Discoverable Done'', ''End Discoverable Done'']"
  "map fst (filter (\<lambda>c. snd c \<notin> set routed_codes) info_central_events) =
     [''ATT_WriteRsp'', ''GAP_LinkParamUpdate'', ''ExchangeMTURsp'', ''ATT_MtuUpdatedEvt'']"
  by (simp_all add: info_peripheral_events_def info_central_events_def routed_codes_def command_events_def hci_codes)

lemma core_event_ignored: "p ! 1 \<noteq> 0xFF \<Longrightarrow> dispatch qs p n = []"
  by (intro dispatch_not_vendor) (simp add: vendor_event_def)



subsection \<open>Which commands' status reports reach a thread\<close>

definition silent_status :: "u16 list" where
  "silent_status = [0xFC06, 0xFC21, GATT_DELSERVICE, VS_ATT_WRITE_RESPONSE, 0xFDB6, 0xFE30, 0xFDFC,
     0xFDFE, 0xFE06, 0xFE07]"

definition write_status :: "u16 list" where
  "write_status = [0xFD9B, 0xFD92]"

lemma status_sends:
  assumes "vendor_event p" and "event_code p = VS_COMMAND_STATUS"
  shows "dispatch qs p n =
     (if event_opcode p \<in> set silent_status then []
      else if event_opcode p \<in> set write_status then [Mq_Send (RX_WRITE_RSP_ID qs) p n]
      else [Mq_Send (CommandRespQId qs) p n])"
proof (cases "shadowed p")
  case True
  then show ?thesis
    using dispatch_shadowed [OF assms(1)] by (auto simp: silent_status_def shadowed_def)
next
  case False
  then have "dispatch qs p n = dispatch_status qs p n"
    using dispatch_vendor [OF assms(1) False assms(2), of qs n]
    by (simp add: command_events_def hci_codes)
  with False show ?thesis
    by (auto simp: silent_status_def write_status_def dispatch_status_def shadowed_def Let_def hci_codes)
qed

lemma status_to_central:
  assumes "CommandRespQId qs \<noteq> RX_WRITE_RSP_ID qs"
  shows "(\<exists>p. vendor_event p \<and> event_code p = VS_COMMAND_STATUS \<and> event_opcode p = w \<and>
            dispatch qs p n = [Mq_Send (CommandRespQId qs) p n]) \<longleftrightarrow>
         w \<notin> set (silent_status @ write_status)"
proof
  assume "w \<notin> set (silent_status @ write_status)"
  then show "\<exists>p. vendor_event p \<and> event_code p = VS_COMMAND_STATUS \<and> event_opcode p = w \<and>
            dispatch qs p n = [Mq_Send (CommandRespQId qs) p n]"
    by (intro exI [of _ "event_packet VS_COMMAND_STATUS w"]) (simp add: status_sends)
qed (use assms in \<open>auto simp: status_sends split: if_splits\<close>)

lemmas status_simps = opcode_tables silent_status_def write_status_def hci_codes is_event_def

lemma lost_sections:
  "filter (\<lambda>c. snd c \<in> set (silent_status @ write_status)) bt_commands = []"
  "filter (\<lambda>c. snd c \<in> set (silent_status @ write_status)) le_commands = []"
  "map fst (filter (\<lambda>c. snd c \<in> set (silent_status @ write_status)) vs_hci_commands) =
     [''VS_HCI_EXTENSION_SET_LOCAL_SUPPORTED_FEATURES'', ''VS_HCI_EXTENSION_SET_MAX_DATA_LENGTH'']"
  "filter (\<lambda>c. snd c \<in> set (silent_status @ write_status)) vs_l2cap_commands = []"
  "map fst (filter (\<lambda>c. snd c \<in> set (silent_status @ write_status)) vs_att_commands) =
     [''VS_ATT_WRITE_RESPONSE'']"
  "filter (\<lambda>c. snd c \<in> set (silent_status @ write_status)) vs_gatt_commands = []"
  "map fst (filter (\<lambda>c. snd c \<in> set (silent_status @ write_status)) vs_gap_commands) =
     [''VS_GAP_MAKE_DISCOVERABLE'', ''VS_GAP_UPDATE_ADVERTISING_DATA'', ''VS_GAP_SET_PARAMETER'']"
  "map fst (filter (\<lambda>c. snd c \<in> set (silent_status @ write_status)) gatt_commands) =
     [''GATT_WRITENORSP'', ''GATT_WRITECHARVALUE'', ''GATT_NOTIFICATION'', ''GATT_ADDSERVICE'',
      ''GATT_DELSERVICE'', ''GATT_ADDATTRIBUTE'']"
  "map fst (filter (\<lambda>c. snd c \<in> set (silent_status @ write_status)) (filter (\<lambda>(nm, w). \<not> is_event w) vs_aliases)) =
     [''VS_GATT_WRITE_CHAR_VALUE'', ''VS_GATT_WRITE_NO_RESP'']"
  by (simp_all add: status_simps)

text \<open>The status report of a command reaches the central thread for every command the header
  names except fourteen: the reports of write-characteristic (two names) and notification go to
  the write-response queue, those of the other eleven names (the data-length, parameter,
  advertising and service commands, write without response) go nowhere.\<close>

lemma status_reports_routed:
  assumes "CommandRespQId qs \<noteq> RX_WRITE_RSP_ID qs"
  shows "map fst (filter (\<lambda>c. \<not> (\<exists>p. vendor_event p \<and> event_code p = VS_COMMAND_STATUS \<and>
             event_opcode p = snd c \<and> dispatch qs p n = [Mq_Send (CommandRespQId qs) p n])) header_commands) =
     [''VS_HCI_EXTENSION_SET_LOCAL_SUPPORTED_FEATURES'', ''VS_HCI_EXTENSION_SET_MAX_DATA_LENGTH'',
      ''VS_ATT_WRITE_RESPONSE'',
      ''VS_GAP_MAKE_DISCOVERABLE'', ''VS_GAP_UPDATE_ADVERTISING_DATA'', ''VS_GAP_SET_PARAMETER'',
      ''GATT_WRITENORSP'', ''GATT_WRITECHARVALUE'', ''GATT_NOTIFICATION'', ''GATT_ADDSERVICE'',
      ''GATT_DELSERVICE'', ''GATT_ADDATTRIBUTE'',
      ''VS_GATT_WRITE_CHAR_VALUE'', ''VS_GATT_WRITE_NO_RESP'']"
  by (simp only: status_to_central [OF assms] not_not header_commands_def filter_append map_append
      lost_sections, simp)

lemma status_reports_routed_witness:
  "length (filter (\<lambda>c. \<not> (\<exists>p. vendor_event p \<and> event_code p = VS_COMMAND_STATUS \<and>
      event_opcode p = snd c \<and> dispatch demo_queues p 12 = [Mq_Send 0 p 12])) header_commands) = 14"
  using arg_cong [OF status_reports_routed [of demo_queues 12], of length]
  by (simp add: demo_queues_def)

end
