(* ===== verification/C_Strings.thy ===== *)
theory C_Strings
  imports Prelude
begin

text \<open>
  C strings and the library functions on them that the LED programs, the GPIO driver and the
  MQTT clients use: characters are bytes, a string is the list of its bytes without the NUL.
  \<open>atoi\<close> follows the C library of the target: the value is clamped to a \<open>long\<close> and converted
  to a 32-bit \<open>int\<close>.
\<close>

subsection \<open>Arrays of characters\<close>

definition bytes_of :: "string \<Rightarrow> u8 list" where
  "bytes_of s = map (\<lambda>c. word_of_nat (of_char c)) s"

text \<open>A \<open>sprintf\<close> of a result without its NUL into a buffer of \<open>cap\<close> bytes.\<close>

definition sprintf_into :: "nat \<Rightarrow> u8 list \<Rightarrow> u8 list outcome" where
  "sprintf_into cap s = (if length s < cap then Returns s else Fault (Overflow cap (Suc (length s))))"

text \<open>The C string at the start of an array; reading on past the array is a fault.\<close>

definition c_string :: "u8 list \<Rightarrow> u8 list outcome" where
  "c_string arr =
     (if 0 \<in> set arr then Returns (takeWhile (\<lambda>c. c \<noteq> 0) arr)
      else Fault (Index_Range (length arr) (int (length arr))))"

definition is_digit :: "u8 \<Rightarrow> bool" where
  "is_digit c \<longleftrightarrow> 48 \<le> c \<and> c \<le> 57"

definition is_space :: "u8 \<Rightarrow> bool" where
  "is_space c \<longleftrightarrow> c = 32 \<or> 9 \<le> c \<and> c \<le> 13"

definition digits_value :: "u8 list \<Rightarrow> int" where
  "digits_value ds = foldl (\<lambda>n c. 10 * n + (uint c - 48)) 0 ds"

text \<open>\<open>sscanf(s, "%d", &n)\<close>: nothing is stored when no number is found.\<close>

definition scan_int :: "u8 list \<Rightarrow> int option" where
  "scan_int s =
     (let s1 = dropWhile is_space s;
          sign = (s1 \<noteq> [] \<and> hd s1 \<in> {43, 45});
          ds = takeWhile is_digit (if sign then tl s1 else s1) in
      if ds = [] then None
      else Some (if sign \<and> hd s1 = 45 then - digits_value ds else digits_value ds))"

definition atoi :: "u8 list \<Rightarrow> int" where
  "atoi s =
     (case scan_int s of
        None \<Rightarrow> 0
      | Some n \<Rightarrow> signed_take_bit 31 (max (-(2 ^ 63)) (min (2 ^ 63 - 1) n)))"

text \<open>\<open>%d\<close> of an \<open>int\<close>.\<close>

fun decimal_nat :: "nat \<Rightarrow> u8 list" where
  "decimal_nat n =
     (if n < 10 then [word_of_nat (48 + n)] else decimal_nat (n div 10) @ [word_of_nat (48 + n mod 10)])"

definition decimal :: "int \<Rightarrow> u8 list" where
  "decimal i = (if i < 0 then 45 # decimal_nat (nat (- i)) else decimal_nat (nat i))"


subsection \<open>Facts\<close>

lemma length_bytes_of [simp]: "length (bytes_of s) = length s"
  by (simp add: bytes_of_def)

lemma digit_range: "is_digit c \<longleftrightarrow> 48 \<le> unat c \<and> unat c \<le> 57"
  by (simp add: is_digit_def word_le_nat_alt)

lemma digit_plain: "is_digit c \<Longrightarrow> \<not> is_space c \<and> c \<noteq> 43 \<and> c \<noteq> 45 \<and> c \<noteq> 0 \<and> c \<noteq> 126"
  unfolding digit_range is_space_def word_le_nat_alt by auto

lemma scan_digits: "ds \<noteq> [] \<Longrightarrow> list_all is_digit ds \<Longrightarrow> scan_int ds = Some (digits_value ds)"
proof -
  assume "ds \<noteq> []" and digits: "list_all is_digit ds"
  then obtain d ds' where ds: "ds = d # ds'" by (cases ds) auto
  have t: "takeWhile is_digit ds = ds"
    using digits by (simp add: takeWhile_eq_all_conv list_all_iff)
  have "dropWhile is_space ds = ds" and "hd ds \<notin> {43, 45}"
    using digits ds digit_plain [of d] by simp_all
  with \<open>ds \<noteq> []\<close> show ?thesis by (simp add: scan_int_def Let_def t)
qed

lemma digit_uint: "is_digit c \<Longrightarrow> 0 \<le> uint c - 48 \<and> uint c - 48 \<le> 9"
proof -
  assume "is_digit c"
  then have "48 \<le> unat c" "unat c \<le> 57" by (simp_all add: digit_range)
  moreover have "uint c = int (unat c)" by simp
  ultimately show ?thesis by linarith
qed

declare decimal_nat.simps [simp del]

lemma decimal_nat_length: "n < 10 ^ k \<Longrightarrow> 0 < k \<Longrightarrow> length (decimal_nat n) \<le> k"
proof (induction k arbitrary: n)
  case (Suc k)
  show ?case
  proof (cases "n < 10")
    case False
    with Suc.prems have "n div 10 < 10 ^ k" and "0 < k"
      by (auto simp: less_mult_imp_div_less mult.commute intro: gr0I)
    with Suc.IH [of "n div 10"] False show ?thesis by (subst decimal_nat.simps) simp
  qed (subst decimal_nat.simps, simp)
qed simp

lemma decimal_length:
  assumes "\<bar>i\<bar> < 10 ^ 10"
  shows "length (decimal i) \<le> 11"
proof -
  have "nat (- i) < 10 ^ 10" "nat i < 10 ^ 10" using assms by simp_all
  then have "length (decimal_nat (nat (- i))) \<le> 10" "length (decimal_nat (nat i)) \<le> 10"
    by (simp_all add: decimal_nat_length)
  then show ?thesis by (simp add: decimal_def)
qed

lemma unat_small: "m < 256 \<Longrightarrow> unat (word_of_nat m :: u8) = m"
  by (simp add: unat_of_nat)

lemma small_digit:
  assumes "n < 10"
  shows "is_digit (word_of_nat (48 + n)) \<and> uint (word_of_nat (48 + n) :: u8) = int n + 48"
proof -
  define m where "m = 48 + n"
  have u: "unat (word_of_nat m :: u8) = m" using assms by (intro unat_small) (simp add: m_def)
  have "uint (word_of_nat m :: u8) = int (unat (word_of_nat m :: u8))" by simp
  also have "\<dots> = int n + 48" unfolding u by (simp add: m_def)
  finally have "uint (word_of_nat m :: u8) = int n + 48" .
  moreover have "is_digit (word_of_nat m)" unfolding digit_range u using assms by (simp add: m_def)
  ultimately show ?thesis unfolding m_def by simp
qed

lemma decimal_nat_digits: "list_all is_digit (decimal_nat n) \<and> decimal_nat n \<noteq> [] \<and> digits_value (decimal_nat n) = int n"
proof (induction n rule: decimal_nat.induct)
  case (1 n)
  show ?case
  proof (cases "n < 10")
    case True
    with small_digit [OF True] show ?thesis by (subst (1 2 3) decimal_nat.simps) (simp add: digits_value_def)
  next
    case False
    have "int n = 10 * int (n div 10) + int (n mod 10)" by (simp add: zdiv_int zmod_int)
    with False 1 small_digit [of "n mod 10"] show ?thesis
      by (subst (1 2 3) decimal_nat.simps) (simp add: digits_value_def)
  qed
qed

lemma atoi_decimal: "n < 2 ^ 31 \<Longrightarrow> atoi (decimal_nat n) = int n"
proof -
  assume "n < 2 ^ 31"
  moreover have "scan_int (decimal_nat n) = Some (int n)"
    using decimal_nat_digits [of n] scan_digits [of "decimal_nat n"] by simp
  ultimately show ?thesis by (simp add: atoi_def signed_take_bit_int_eq_self)
qed

end
