(* ===== verification/Mosq_Socks.thy ===== *)
theory Mosq_Socks
  imports C_Strings
begin

text \<open>
  The proxy-URL parser of the MQTT clients (\<open>mosquitto_client/client_shared.c\<close>):
  \<open>mosquitto__urldecode\<close>, which rewrites a string in place, and
  \<open>mosquitto__parse_socks_url\<close>.  Strings are lists of bytes without the NUL, so a list has the
  length \<open>strlen\<close> computes; allocation succeeds.  The four results are written to the
  configuration on success only; \<open>None\<close> is the return value 1.
\<close>

subsection \<open>Decoding in place\<close>

text \<open>The loop \<open>for (j = i+1; j < len; j++) str[j] = str[j+2]\<close>, \<open>n\<close> iterations from \<open>j\<close> on.\<close>

primrec shift_down :: "'a list \<Rightarrow> nat \<Rightarrow> nat \<Rightarrow> 'a list" where
  "shift_down str j 0 = str"
| "shift_down str j (Suc n) = shift_down (str[j := str ! (j + 2)]) (Suc j) n"

text \<open>Replace the three characters at \<open>i\<close> by \<open>c\<close>: store, shorten by 2, shift, terminate.\<close>

definition replace_code :: "u8 list \<Rightarrow> nat \<Rightarrow> u8 \<Rightarrow> u8 list" where
  "replace_code str i c =
     (let len = length str - 2 in take len (shift_down (str[i := c]) (i + 1) (len - (i + 1))))"

lemma length_shift_down [simp]: "length (shift_down str j n) = length str"
  by (induction n arbitrary: str j) auto

function urldecode_from :: "u8 list \<Rightarrow> nat \<Rightarrow> u8 list option" where
  "urldecode_from str i =
     (if i < length str then
        if str ! i = 37 then
          if i + 2 \<ge> length str then None
          else if str ! (i + 1) = 50 \<and> str ! (i + 2) = 53 then urldecode_from (replace_code str i 37) (i + 1)
          else if str ! (i + 1) = 51 \<and> (str ! (i + 2) = 65 \<or> str ! (i + 2) = 97)
            then urldecode_from (replace_code str i 58) (i + 1)
          else if str ! (i + 1) = 52 \<and> str ! (i + 2) = 48 then urldecode_from (replace_code str i 58) (i + 1)
          else None
        else urldecode_from str (i + 1)
      else Some str)"
  by pat_completeness auto
termination
  by (relation "measure (\<lambda>(str, i). length str - i)") (auto simp: replace_code_def Let_def)

declare urldecode_from.simps [simp del]

definition mosquitto__urldecode :: "u8 list option \<Rightarrow> u8 list option option" where
  "mosquitto__urldecode str =
     (case str of
        None \<Rightarrow> Some None
      | Some s \<Rightarrow> if 37 \<notin> set s then Some (Some s) else map_option Some (urldecode_from s 0))"


subsection \<open>Parsing the URL\<close>

record socks_scan =
  sk_username :: "u8 list option"
  sk_password :: "u8 list option"
  sk_host :: "u8 list option"
  sk_username_or_host :: "u8 list option"
  sk_start :: nat
  sk_have_auth :: bool

definition slice :: "'a list \<Rightarrow> nat \<Rightarrow> nat \<Rightarrow> 'a list" where
  "slice str a b = take (b - a) (drop a str)"

text \<open>The body of the loop for index \<open>i\<close>; \<open>None\<close> is \<open>goto cleanup\<close>.\<close>

definition socks_char :: "u8 list \<Rightarrow> nat \<Rightarrow> socks_scan \<Rightarrow> socks_scan option" where
  "socks_char str i st =
     (if str ! i = 58 then
        if i = sk_start st then None
        else if sk_have_auth st then
          if sk_host st \<noteq> None then None
          else Some (st\<lparr>sk_host := Some (slice str (sk_start st) i), sk_start := i + 1\<rparr>)
        else if sk_username_or_host st = None then
          Some (st\<lparr>sk_username_or_host := Some (slice str (sk_start st) i), sk_start := i + 1\<rparr>)
        else Some st
      else if str ! i = 64 then
        if i = sk_start st then None
        else
          (let st = st\<lparr>sk_have_auth := True\<rparr> in
           if sk_username_or_host st \<noteq> None then
             Some (st\<lparr>sk_username := sk_username_or_host st, sk_username_or_host := None,
                      sk_password := Some (slice str (sk_start st) i), sk_start := i + 1\<rparr>)
           else if sk_username st \<noteq> None then None
           else Some (st\<lparr>sk_username := Some (slice str (sk_start st) i), sk_start := i + 1\<rparr>))
      else Some st)"

primrec socks_run :: "u8 list \<Rightarrow> nat list \<Rightarrow> socks_scan \<Rightarrow> socks_scan option" where
  "socks_run str [] st = Some st"
| "socks_run str (i # is) st = Option.bind (socks_char str i st) (socks_run str is)"

text \<open>The code after the loop, where \<open>i = strlen(str)\<close>: the remainder, decoding and the port.\<close>

definition socks_remainder :: "u8 list \<Rightarrow> socks_scan \<Rightarrow> socks_scan \<times> u8 list option" where
  "socks_remainder str st =
     (if length str > sk_start st then
        (let rest = slice str (sk_start st) (length str) in
         if sk_host st \<noteq> None then (st, Some rest)
         else if sk_username_or_host st \<noteq> None then
           (st\<lparr>sk_host := sk_username_or_host st, sk_username_or_host := None\<rparr>, Some rest)
         else (st\<lparr>sk_host := Some rest\<rparr>, None))
      else (st, None))"

record socks_config =
  socks5_username :: "u8 list option"
  socks5_password :: "u8 list option"
  socks5_host :: "u8 list"
  socks5_port :: int

definition socks_finish :: "socks_scan \<Rightarrow> u8 list option \<Rightarrow> socks_config option" where
  "socks_finish st port =
     (case sk_host st of
        None \<Rightarrow> None
      | Some host \<Rightarrow>
          (case mosquitto__urldecode (sk_username st) of
             None \<Rightarrow> None
           | Some username \<Rightarrow>
               (case mosquitto__urldecode (sk_password st) of
                  None \<Rightarrow> None
                | Some password \<Rightarrow>
                    (case port of
                       None \<Rightarrow> Some \<lparr>socks5_username = username, socks5_password = password,
                                     socks5_host = host, socks5_port = 1080\<rparr>
                     | Some p \<Rightarrow>
                         (let port_int = atoi p in
                          if port_int < 1 \<or> port_int > 65535 then None
                          else Some \<lparr>socks5_username = username, socks5_password = password,
                                     socks5_host = host, socks5_port = port_int\<rparr>)))))"

definition SOCKS_PREFIX :: "u8 list" where
  "SOCKS_PREFIX = bytes_of ''socks5h://''"

definition mosquitto__parse_socks_url :: "u8 list \<Rightarrow> socks_config option" where
  "mosquitto__parse_socks_url url =
     (if take (length SOCKS_PREFIX) url = SOCKS_PREFIX then
        (let str = drop (length SOCKS_PREFIX) url in
         (case socks_run str [0..<length str]
             \<lparr>sk_username = None, sk_password = None, sk_host = None, sk_username_or_host = None,
              sk_start = 0, sk_have_auth = False\<rparr> of
            None \<Rightarrow> None
          | Some st \<Rightarrow> (let (st', port) = socks_remainder str st in socks_finish st' port)))
      else None)"

subsection \<open>Decoding\<close>

lemma shift_down_two:
  "take (length pre + length r) (shift_down (pre @ x # y # r) (length pre) (length r)) = pre @ r"
proof (induction r arbitrary: pre x y)
  case (Cons z r)
  show ?case using Cons.IH [of "pre @ [z]" y z] by (simp add: list_update_append nth_append)
qed simp

lemma replace_code_at:
  "replace_code (pre @ p # a # b # r) (length pre) c = pre @ c # r"
  using shift_down_two [of "pre @ [c]" r a b] by (simp add: replace_code_def Let_def list_update_append)

text \<open>What the loop computes: a byte per character, one per three-character code.\<close>

definition code_char :: "u8 \<Rightarrow> u8 \<Rightarrow> u8 option" where
  "code_char a b =
     (if a = 50 \<and> b = 53 then Some 37
      else if a = 51 \<and> (b = 65 \<or> b = 97) then Some 58
      else if a = 52 \<and> b = 48 then Some 58
      else None)"

fun decode :: "u8 list \<Rightarrow> u8 list option" where
  "decode [] = Some []"
| "decode (c # r) =
     (if c = 37 then
        (case r of
           a # b # r' \<Rightarrow> Option.bind (code_char a b) (\<lambda>d. map_option (Cons d) (decode r'))
         | _ \<Rightarrow> None)
      else map_option (Cons c) (decode r))"

lemma urldecode_from_decode:
  "urldecode_from (pre @ s) (length pre) = map_option (append pre) (decode s)"
proof (induction s arbitrary: pre rule: decode.induct)
  case 1
  show ?case by (subst urldecode_from.simps) simp
next
  case (2 c r)
  show ?case
  proof (cases "c = 37")
    case False
    have "urldecode_from (pre @ c # r) (length pre) = urldecode_from ((pre @ [c]) @ r) (length (pre @ [c]))"
      using False by (subst urldecode_from.simps) (simp add: nth_append)
    also have "\<dots> = map_option (append (pre @ [c])) (decode r)" using 2(2) [OF False] .
    finally show ?thesis using False by (cases "decode r") simp_all
  next
    case True
    show ?thesis
    proof (cases "\<exists>a b r'. r = a # b # r'")
      case False
      then have "length r < 2" by (cases r; cases "tl r") auto
      then show ?thesis using True False
        by (subst urldecode_from.simps) (auto simp: nth_append split: list.splits)
    next
      case *: True
      then obtain a b r' where r: "r = a # b # r'" by blast
      have step: "urldecode_from (pre @ c # r) (length pre) =
          Option.bind (code_char a b) (\<lambda>d. urldecode_from (pre @ d # r') (Suc (length pre)))"
        using True unfolding r
        by (subst urldecode_from.simps) (auto simp: nth_append code_char_def replace_code_at)
      show ?thesis
      proof (cases "code_char a b")
        case None
        with step True r show ?thesis by simp
      next
        case (Some d)
        have "urldecode_from ((pre @ [d]) @ r') (length (pre @ [d])) = map_option (append (pre @ [d])) (decode r')"
          using 2(1) [OF True r refl Some] .
        with step Some True r show ?thesis by (cases "decode r'") simp_all
      qed
    qed
  qed
qed

lemma decode_plain: "37 \<notin> set s \<Longrightarrow> decode s = Some s"
  by (induction s) auto


lemma urldecode_eq:
  "mosquitto__urldecode str =
     (case str of None \<Rightarrow> Some None | Some s \<Rightarrow> map_option Some (decode s))"
proof (cases str)
  case (Some s)
  have "urldecode_from s 0 = decode s"
    using urldecode_from_decode [of "[]" s] by (cases "decode s") simp_all
  with Some show ?thesis by (simp add: mosquitto__urldecode_def decode_plain)
qed (simp add: mosquitto__urldecode_def)

text \<open>C39: the in-place loop of \<open>mosquitto__urldecode\<close>, with its shifting and its shrinking
  length, computes the left-to-right decoding of the string; it fails exactly where the decoding
  meets an incomplete or unknown code, and a NULL pointer is left alone.\<close>

theorem urldecode_decodes:
  "mosquitto__urldecode str =
     (case str of None \<Rightarrow> Some None | Some s \<Rightarrow> map_option Some (decode s))"
  by (rule urldecode_eq)

text \<open>The writer's side: a string is put into a URL with its reserved characters coded.\<close>

definition escape :: "u8 list \<Rightarrow> u8 list" where
  "escape s = concat (map (\<lambda>c.
     if c = 37 then [37, 50, 53] else if c = 58 then [37, 51, 65]
     else if c = 64 then [37, 52, 48] else [c]) s)"

lemma decode_escape: "decode (escape s) = Some (map (\<lambda>c. if c = 64 then 58 else c) s)"
  by (induction s) (simp_all add: escape_def code_char_def)

lemma urldecode_escape:
  "mosquitto__urldecode (Some (escape s)) = Some (Some (map (\<lambda>c. if c = 64 then 58 else c) s))"
  using urldecode_from_decode [of "[]" "escape s"] decode_plain [of "escape s"]
  by (simp add: mosquitto__urldecode_def decode_escape)

text \<open>Decoding a user name that was escaped for the URL gives it back with every \<open>@\<close> turned
  into \<open>:\<close>: the comment above \<open>mosquitto__urldecode\<close> promises \<open>%40 -> @\<close>, the code stores
  a colon.  All other characters make the round trip, so the result is the original exactly when it
  has no \<open>@\<close>.\<close>

lemma escape_roundtrip:
  "mosquitto__urldecode (Some (escape s)) = Some (Some (map (\<lambda>c. if c = 64 then 58 else c) s)) \<and>
   (mosquitto__urldecode (Some (escape s)) = Some (Some s) \<longleftrightarrow> 64 \<notin> set s)"
proof -
  note urldecode_escape [of s]
  moreover have "map (\<lambda>c. if c = (64 :: u8) then 58 else c) s = s \<longleftrightarrow> 64 \<notin> set s"
    by (induction s) auto
  ultimately show ?thesis by simp
qed


subsection \<open>The URL forms\<close>

lemma socks_run_append:
  "socks_run str (is @ js) st = Option.bind (socks_run str is st) (socks_run str js)"
  by (induction "is" arbitrary: st) (auto split: bind_splits)

definition plain :: "u8 list \<Rightarrow> bool" where
  "plain s \<longleftrightarrow> s \<noteq> [] \<and> 58 \<notin> set s \<and> 64 \<notin> set s"

text \<open>Characters other than the two separators leave the scan as it is.\<close>

lemma run_plain:
  "58 \<notin> set s \<Longrightarrow> 64 \<notin> set s \<Longrightarrow> str = pre @ s @ suf \<Longrightarrow>
   socks_run str [length pre..<length pre + length s] st = Some st"
proof (induction s arbitrary: pre)
  case (Cons c s)
  have str: "str = (pre @ [c]) @ s @ suf" using Cons.prems(3) by simp
  have "socks_char str (length pre) st = Some st"
    using Cons.prems by (simp add: socks_char_def nth_append)
  then show ?case using Cons.IH [of "pre @ [c]"] Cons.prems(1,2) str
    by (simp add: upt_conv_Cons del: upt_Suc)
qed simp

lemma run_range:
  "58 \<notin> set s \<Longrightarrow> 64 \<notin> set s \<Longrightarrow> str = pre @ s @ suf \<Longrightarrow> a = length pre \<Longrightarrow>
   b = a + length s \<Longrightarrow> socks_run str [a..<b] st = Some st"
  using run_plain by blast

lemma slice_mid: "slice (pre @ s @ suf) (length pre) (length pre + length s) = s"
  by (simp add: slice_def)

text \<open>A component and the separator that ends it.\<close>

lemma run_part:
  assumes "plain s" "str = pre @ s @ c # suf"
  shows "socks_run str [length pre..<length pre + length s + 1] st =
    socks_char str (length pre + length s) st"
proof -
  have "[length pre..<length pre + length s + 1] = [length pre..<length pre + length s] @ [length pre + length s]"
    by simp
  moreover have "socks_run str [length pre..<length pre + length s] st = Some st"
    using assms run_plain [of s str pre "c # suf"] by (simp add: plain_def)
  ultimately show ?thesis
    by (cases "socks_char str (length pre + length s) st") (simp_all add: socks_run_append)
qed


definition scan_start :: socks_scan where
  "scan_start = \<lparr>sk_username = None, sk_password = None, sk_host = None,
     sk_username_or_host = None, sk_start = 0, sk_have_auth = False\<rparr>"

lemma parse_socks_parts:
  "mosquitto__parse_socks_url (SOCKS_PREFIX @ str) =
     Option.bind (socks_run str [0..<length str] scan_start)
       (\<lambda>st. let (st', port) = socks_remainder str st in socks_finish st' port)"
  by (simp add: mosquitto__parse_socks_url_def scan_start_def split: option.splits)

lemma upt_cut: "i \<le> j \<Longrightarrow> j \<le> k \<Longrightarrow> [i..<k] = [i..<j] @ [j..<k]"
  by (metis le_add_diff_inverse upt_add_eq_append)

lemma run_full:
  assumes "plain u" "plain p" "plain h" "plain q"
    "str = u @ 58 # p @ 64 # h @ 58 # q"
  shows "socks_run str [0..<length str] scan_start = Some (scan_start\<lparr>sk_username := Some u,
    sk_password := Some p, sk_host := Some h, sk_have_auth := True,
    sk_start := length u + length p + length h + 3\<rparr>)"
proof -
  let ?u = "length u" let ?p = "?u + 1" let ?h = "?p + length p + 1" let ?q = "?h + length h + 1"
  have ne: "0 < length u" "0 < length p" "0 < length h"
    using assms(1-3) by (simp_all add: plain_def)
  have split: "[0..<length str] = [0..<0 + length u + 1] @ [?p..<?p + length p + 1] @
      [?h..<?h + length h + 1] @ [?q..<?q + length q]"
    using upt_cut [of 0 ?p "length str"] upt_cut [of ?p ?h "length str"] upt_cut [of ?h ?q "length str"]
    by (simp add: assms(5) add.assoc del: upt_Suc)
  have 1: "socks_run str [0..<0 + length u + 1] st = socks_char str (0 + length u) st" for st
    using run_part [OF assms(1), of str "[]" 58] assms(5) by simp
  have 2: "socks_run str [?p..<?p + length p + 1] st = socks_char str (?p + length p) st" for st
    using run_part [OF assms(2), of str "u @ [58]" 64] assms(5) by simp
  have 3: "socks_run str [?h..<?h + length h + 1] st = socks_char str (?h + length h) st" for st
    using run_part [OF assms(3), of str "u @ [58] @ p @ [64]" 58] assms(5) by simp
  have 4: "socks_run str [?q..<?q + length q] st = Some st" for st
    by (rule run_range [where pre = "u @ [58] @ p @ [64] @ h @ [58]" and suf = "[]"])
      (use assms(4,5) in \<open>simp_all add: plain_def\<close>)
  have c1: "str ! (0 + length u) = 58" and c2: "str ! (?p + length p) = 64"
    and c3: "str ! (?h + length h) = 58"
    by (simp_all add: assms(5) nth_append)
  have s1: "slice str 0 (0 + length u) = u" using slice_mid [of "[]" u] assms(5) by simp
  have s2: "slice str ?p (?p + length p) = p"
    using slice_mid [of "u @ [58]" p] assms(5) by simp
  have s3: "slice str ?h (?h + length h) = h"
    using slice_mid [of "u @ [58] @ p @ [64]" h] assms(5) by simp
  show ?thesis
    unfolding split socks_run_append 1 2 3 4
    using ne c1 c2 c3 s1 s2 s3
    by (simp add: socks_char_def scan_start_def Let_def del: upt_Suc)
qed

lemma plain_escape: "s \<noteq> [] \<Longrightarrow> plain (escape s)"
proof -
  assume "s \<noteq> []"
  then have "escape s \<noteq> []" by (cases s) (simp_all add: escape_def)
  moreover have "58 \<notin> set (escape s) \<and> 64 \<notin> set (escape s)"
    by (induction s) (simp_all add: escape_def)
  ultimately show ?thesis by (simp add: plain_def)
qed

lemma digits_plain: "list_all is_digit ds \<Longrightarrow> ds \<noteq> [] \<Longrightarrow> plain ds"
  by (auto simp: plain_def list_all_iff digit_range)

text \<open>C38: A full proxy URL, with user name and password escaped, gives the host and the port back, the
  port accepted exactly in the range 1 to 65535; user name and password come back with every
  \<open>@\<close> turned into \<open>:\<close>, because \<open>%40\<close> is decoded to a colon and not to the \<open>@\<close> the comment
  of the decoder names.\<close>

theorem socks_url_full:
  assumes "u \<noteq> []" "p \<noteq> []" "plain h" "n < 2 ^ 31"
  shows "mosquitto__parse_socks_url
      (SOCKS_PREFIX @ escape u @ 58 # escape p @ 64 # h @ 58 # decimal_nat n) =
    (if 1 \<le> n \<and> n \<le> 65535 then
       Some \<lparr>socks5_username = Some (map (\<lambda>c. if c = 64 then 58 else c) u),
             socks5_password = Some (map (\<lambda>c. if c = 64 then 58 else c) p),
             socks5_host = h, socks5_port = int n\<rparr>
     else None)"
proof -
  let ?q = "decimal_nat n"
  let ?str = "escape u @ 58 # escape p @ 64 # h @ 58 # ?q"
  have q: "plain ?q" using decimal_nat_digits [of n] digits_plain by blast
  have dec: "mosquitto__urldecode (Some (escape s)) = Some (Some (map (\<lambda>c. if c = 64 then 58 else c) s))" for s
    using urldecode_escape .
  have rest: "slice ?str (length (escape u) + length (escape p) + length h + 3) (length ?str) = ?q"
    using slice_mid [of "escape u @ [58] @ escape p @ [64] @ h @ [58]" ?q "[]"] by (simp add: numeral_3_eq_3 add.assoc)
  have len: "length (escape u) + length (escape p) + length h + 3 < length ?str"
    using q by (simp add: plain_def)
  show ?thesis
    unfolding parse_socks_parts
      run_full [OF plain_escape [OF assms(1)] plain_escape [OF assms(2)] assms(3) q refl]
    using len rest
    by (simp add: socks_remainder_def socks_finish_def scan_start_def dec atoi_decimal [OF assms(4)] Let_def)
qed

theorem socks_url_full_witness:
  "mosquitto__parse_socks_url (SOCKS_PREFIX @ escape [97, 64] @ 58 # escape [112] @ 64 # [104] @ 58 # decimal_nat 1883) =
    Some \<lparr>socks5_username = Some [97, 58], socks5_password = Some [112], socks5_host = [104], socks5_port = 1883\<rparr>"
proof -
  have "(1883 :: nat) < 2 ^ 31" by simp
  from socks_url_full [OF _ _ _ this, of "[97, 64]" "[112]" "[104]"] show ?thesis
    by (simp add: plain_def)
qed

text \<open>Every part the scan has cut out is non-empty, and a password comes with a user name.\<close>

definition scan_ok :: "nat \<Rightarrow> socks_scan \<Rightarrow> bool" where
  "scan_ok i st \<longleftrightarrow> sk_start st \<le> i \<and> sk_username st \<noteq> Some [] \<and> sk_password st \<noteq> Some [] \<and>
     sk_host st \<noteq> Some [] \<and> sk_username_or_host st \<noteq> Some [] \<and>
     (sk_password st \<noteq> None \<longrightarrow> sk_username st \<noteq> None)"

lemma slice_nonempty: "a < b \<Longrightarrow> b \<le> length str \<Longrightarrow> slice str a b \<noteq> []"
  by (simp add: slice_def)

lemma scan_char_ok:
  assumes "scan_ok i st" "i < length str" "socks_char str i st = Some st'"
  shows "scan_ok (Suc i) st'"
proof -
  have "i \<noteq> sk_start st \<Longrightarrow> slice str (sk_start st) i \<noteq> []"
    using assms(1,2) by (intro slice_nonempty) (simp_all add: scan_ok_def)
  with assms(1,3) show ?thesis
    by (auto simp: socks_char_def scan_ok_def Let_def split: if_splits)
qed

lemma scan_run_ok:
  "scan_ok i st \<Longrightarrow> k \<le> length str \<Longrightarrow> i \<le> k \<Longrightarrow> socks_run str [i..<k] st = Some st' \<Longrightarrow> scan_ok k st'"
proof (induction "k - i" arbitrary: i st)
  case (Suc d)
  then have "i < k" by simp
  with Suc.prems(4) obtain st1 where st1: "socks_char str i st = Some st1"
      "socks_run str [Suc i..<k] st1 = Some st'"
    by (auto simp: upt_conv_Cons bind_eq_Some_conv)
  with Suc.prems(1,2) \<open>i < k\<close> have "scan_ok (Suc i) st1" using scan_char_ok [of i st str st1] by simp
  with Suc.hyps(1) [of "Suc i" st1] Suc.hyps(2) Suc.prems(2) \<open>i < k\<close> st1(2) show ?case by simp
qed simp

lemma decode_nonempty: "decode s = Some t \<Longrightarrow> s \<noteq> [] \<Longrightarrow> t \<noteq> []"
  by (cases s) (auto simp: bind_eq_Some_conv split: if_splits list.splits)

text \<open>Whatever URL the option is given, a configuration is written only with a non-empty host,
  a port between 1 and 65535, no empty user name or password, and no password without a user
  name; in every other case the parser returns 1 and leaves the configuration as it is.\<close>

lemma socks_url_safe:
  assumes "mosquitto__parse_socks_url url = Some c"
  shows "socks5_host c \<noteq> [] \<and> 1 \<le> socks5_port c \<and> socks5_port c \<le> 65535 \<and>
    socks5_password c \<noteq> Some [] \<and>
    (case socks5_username c of None \<Rightarrow> socks5_password c = None | Some u \<Rightarrow> u \<noteq> [])"
proof -
  from assms have "take (length SOCKS_PREFIX) url = SOCKS_PREFIX"
    by (simp add: mosquitto__parse_socks_url_def split: if_splits)
  then obtain str where url: "url = SOCKS_PREFIX @ str" by (metis append_take_drop_id)
  with assms obtain st where st: "socks_run str [0..<length str] scan_start = Some st"
    and fin: "socks_finish (fst (socks_remainder str st)) (snd (socks_remainder str st)) = Some c"
    by (auto simp: parse_socks_parts bind_eq_Some_conv case_prod_beta)
  have "scan_ok 0 scan_start" by (simp add: scan_ok_def scan_start_def)
  with st have ok: "scan_ok (length str) st" using scan_run_ok [of 0 scan_start "length str" str st] by simp
  then have ok': "scan_ok (length str) (fst (socks_remainder str st))"
    using slice_nonempty [of "sk_start st" "length str" str]
    by (auto simp: socks_remainder_def scan_ok_def Let_def)
  let ?st = "fst (socks_remainder str st)"
  have "mosquitto__urldecode x = Some y \<Longrightarrow> (y = None \<longleftrightarrow> x = None) \<and> (x \<noteq> Some [] \<longrightarrow> y \<noteq> Some [])" for x y
    using decode_nonempty urldecode_eq [of x] by (auto split: option.splits)
  with fin ok' show ?thesis
    by (fastforce simp: socks_finish_def scan_ok_def Let_def split: option.splits if_splits)
qed

lemma socks_url_safe_witness:
  "mosquitto__parse_socks_url (SOCKS_PREFIX @ [104]) = Some \<lparr>socks5_username = None, socks5_password = None,
      socks5_host = [104], socks5_port = 1080\<rparr> \<and> ([104] :: u8 list) \<noteq> []"
proof -
  have url: "mosquitto__parse_socks_url (SOCKS_PREFIX @ [104]) = Some \<lparr>socks5_username = None,
      socks5_password = None, socks5_host = [104], socks5_port = 1080\<rparr>"
    by (simp add: parse_socks_parts scan_start_def socks_char_def socks_remainder_def socks_finish_def
      slice_def mosquitto__urldecode_def Let_def)
  from socks_url_safe [OF this] url show ?thesis by simp
qed

end
