(* ===== verification/Mosq_Config.thy ===== *)
theory Mosq_Config
  imports Mosq_Socks
begin

text \<open>
  The configuration of the MQTT clients (\<open>mosquitto_client/client_shared.c\<close> and \<open>.h\<close>):
  the option parser \<open>client_config_line_proc\<close>, the loader with its default configuration file,
  the checks after it, \<open>client_config_cleanup\<close> and the generated client id.  The model is that
  of a build with \<open>WITH_TLS\<close>, \<open>WITH_TLS_PSK\<close>, \<open>WITH_SRV\<close> and \<open>WITH_SOCKS\<close> on a
  POSIX system; allocation succeeds.  Strings are lists of characters; a \<open>char *\<close> that may be
  NULL is an option.  The topic checks of libmosquitto are the record \<open>topic_checks\<close>: whether
  \<open>mosquitto_pub_topic_check\<close> and \<open>mosquitto_sub_topic_check\<close> return something other
  than \<open>MOSQ_ERR_INVAL\<close>.
\<close>

subsection \<open>The configuration\<close>

datatype client = CLIENT_PUB | CLIENT_SUB

datatype msgmode =
    MSGMODE_NONE | MSGMODE_CMD | MSGMODE_STDIN_LINE | MSGMODE_STDIN_FILE | MSGMODE_FILE | MSGMODE_NULL

datatype protocol = MQTT_PROTOCOL_V31 | MQTT_PROTOCOL_V311

text \<open>A pointer to characters: from \<open>strdup\<close>, or to a string literal of the program.\<close>

datatype chars = Heap string | Literal string

record topic_checks =
  pub_topic_ok :: "string \<Rightarrow> bool"
  sub_topic_ok :: "string \<Rightarrow> bool"

record mosq_config =
  cf_id :: "string option"
  cf_id_prefix :: "string option"
  cf_protocol_version :: protocol
  cf_keepalive :: int
  cf_host :: "chars option"
  cf_port :: int
  cf_qos :: int
  cf_retain :: bool
  cf_pub_mode :: msgmode
  cf_file_input :: "string option"
  cf_message :: "string option"
  cf_msglen :: int
  cf_topic :: "string option"
  cf_bind_address :: "string option"
  cf_use_srv :: bool
  cf_debug :: bool
  cf_quiet :: bool
  cf_max_inflight :: "32 word"
  cf_username :: "string option"
  cf_password :: "string option"
  cf_will_topic :: "string option"
  cf_will_payload :: "string option"
  cf_will_payloadlen :: int
  cf_will_qos :: int
  cf_will_retain :: bool
  cf_cafile :: "string option"
  cf_capath :: "string option"
  cf_certfile :: "string option"
  cf_keyfile :: "string option"
  cf_ciphers :: "string option"
  cf_insecure :: bool
  cf_tls_version :: "string option"
  cf_psk :: "string option"
  cf_psk_identity :: "string option"
  cf_clean_session :: bool
  cf_topics :: "string list"
  cf_no_retain :: bool
  cf_filter_outs :: "string list"
  cf_verbose :: bool
  cf_eol :: bool
  cf_msg_count :: int
  cf_socks :: "socks_config option"

text \<open>\<open>memset\<close> to zero, then the defaults.\<close>

definition init_config :: mosq_config where
  "init_config = \<lparr>cf_id = None, cf_id_prefix = None, cf_protocol_version = MQTT_PROTOCOL_V31,
     cf_keepalive = 60, cf_host = None, cf_port = 1883, cf_qos = 0, cf_retain = False,
     cf_pub_mode = MSGMODE_NONE, cf_file_input = None, cf_message = None, cf_msglen = 0,
     cf_topic = None, cf_bind_address = None, cf_use_srv = False, cf_debug = False,
     cf_quiet = False, cf_max_inflight = 20, cf_username = None, cf_password = None,
     cf_will_topic = None, cf_will_payload = None, cf_will_payloadlen = 0, cf_will_qos = 0,
     cf_will_retain = False, cf_cafile = None, cf_capath = None, cf_certfile = None,
     cf_keyfile = None, cf_ciphers = None, cf_insecure = False, cf_tls_version = None,
     cf_psk = None, cf_psk_identity = None, cf_clean_session = True, cf_topics = [],
     cf_no_retain = False, cf_filter_outs = [], cf_verbose = False, cf_eol = True,
     cf_msg_count = 0, cf_socks = None\<rparr>"


subsection \<open>One option\<close>

text \<open>
  What the chain of comparisons does with \<open>argv[i]\<close>: it goes on with the next argument
  (\<open>Flag\<close>), it has used the following one too (\<open>Took\<close>), or the function returns.
  \<open>arg\<close> is \<open>argv[i+1]\<close>, \<open>None\<close> when \<open>i == argc-1\<close>.
\<close>

datatype opt_step = Flag mosq_config | Took mosq_config | Stop mosq_config int

definition with_arg :: "mosq_config \<Rightarrow> string option \<Rightarrow> (string \<Rightarrow> opt_step) \<Rightarrow> opt_step" where
  "with_arg cfg arg f = (case arg of None \<Rightarrow> Stop cfg 1 | Some a \<Rightarrow> f a)"

definition string_atoi :: "string \<Rightarrow> int" where
  "string_atoi s = atoi (bytes_of s)"

text \<open>The end of the chain: \<open>-T\<close>, \<open>--tls-version\<close>, credentials, the will, and the
  subscriber's flags; anything else is unknown.\<close>

definition opt_rest :: "topic_checks \<Rightarrow> client \<Rightarrow> mosq_config \<Rightarrow> string \<Rightarrow> string option \<Rightarrow> opt_step" where
  "opt_rest lib who cfg opt arg =
     (if opt = ''-T'' \<or> opt = ''--filter-out'' then
        if who = CLIENT_PUB then Stop cfg 1
        else with_arg cfg arg (\<lambda>a.
          if \<not> sub_topic_ok lib a then Stop cfg 1
          else Took (cfg\<lparr>cf_filter_outs := cf_filter_outs cfg @ [a]\<rparr>))
      else if opt = ''--tls-version'' then with_arg cfg arg (\<lambda>a. Took (cfg\<lparr>cf_tls_version := Some a\<rparr>))
      else if opt = ''-u'' \<or> opt = ''--username'' then
        with_arg cfg arg (\<lambda>a. Took (cfg\<lparr>cf_username := Some a\<rparr>))
      else if opt = ''-P'' \<or> opt = ''--pw'' then
        with_arg cfg arg (\<lambda>a. Took (cfg\<lparr>cf_password := Some a\<rparr>))
      else if opt = ''--will-payload'' then
        with_arg cfg arg (\<lambda>a. Took (cfg\<lparr>cf_will_payload := Some a, cf_will_payloadlen := int (length a)\<rparr>))
      else if opt = ''--will-qos'' then
        with_arg cfg arg (\<lambda>a. let cfg = cfg\<lparr>cf_will_qos := string_atoi a\<rparr> in
          if cf_will_qos cfg < 0 \<or> cf_will_qos cfg > 2 then Stop cfg 1 else Took cfg)
      else if opt = ''--will-retain'' then Flag (cfg\<lparr>cf_will_retain := True\<rparr>)
      else if opt = ''--will-topic'' then
        with_arg cfg arg (\<lambda>a.
          if \<not> pub_topic_ok lib a then Stop cfg 1 else Took (cfg\<lparr>cf_will_topic := Some a\<rparr>))
      else if opt = ''-c'' \<or> opt = ''--disable-clean-session'' then
        if who = CLIENT_PUB then Stop cfg 1 else Flag (cfg\<lparr>cf_clean_session := False\<rparr>)
      else if opt = ''-N'' then
        if who = CLIENT_PUB then Stop cfg 1 else Flag (cfg\<lparr>cf_eol := False\<rparr>)
      else if opt = ''-R'' then
        if who = CLIENT_PUB then Stop cfg 1 else Flag (cfg\<lparr>cf_no_retain := True\<rparr>)
      else if opt = ''-v'' \<or> opt = ''--verbose'' then
        if who = CLIENT_PUB then Stop cfg 1 else Flag (cfg\<lparr>cf_verbose := True\<rparr>)
      else Stop cfg 1)"

text \<open>From \<open>--psk\<close> to \<open>-t\<close>.\<close>

definition opt_quality :: "topic_checks \<Rightarrow> client \<Rightarrow> mosq_config \<Rightarrow> string \<Rightarrow> string option \<Rightarrow> opt_step" where
  "opt_quality lib who cfg opt arg =
     (if opt = ''--psk'' then with_arg cfg arg (\<lambda>a. Took (cfg\<lparr>cf_psk := Some a\<rparr>))
      else if opt = ''--psk-identity'' then with_arg cfg arg (\<lambda>a. Took (cfg\<lparr>cf_psk_identity := Some a\<rparr>))
      else if opt = ''-q'' \<or> opt = ''--qos'' then
        with_arg cfg arg (\<lambda>a. let cfg = cfg\<lparr>cf_qos := string_atoi a\<rparr> in
          if cf_qos cfg < 0 \<or> cf_qos cfg > 2 then Stop cfg 1 else Took cfg)
      else if opt = ''--quiet'' then Flag (cfg\<lparr>cf_quiet := True\<rparr>)
      else if opt = ''-r'' \<or> opt = ''--retain'' then
        if who = CLIENT_SUB then Stop cfg 1 else Flag (cfg\<lparr>cf_retain := True\<rparr>)
      else if opt = ''-s'' \<or> opt = ''--stdin-file'' then
        if who = CLIENT_SUB then Stop cfg 1
        else if cf_pub_mode cfg \<noteq> MSGMODE_NONE then Stop cfg 1
        else Flag (cfg\<lparr>cf_pub_mode := MSGMODE_STDIN_FILE\<rparr>)
      else if opt = ''-S'' then Flag (cfg\<lparr>cf_use_srv := True\<rparr>)
      else if opt = ''-t'' \<or> opt = ''--topic'' then
        with_arg cfg arg (\<lambda>a.
          if who = CLIENT_PUB then
            if \<not> pub_topic_ok lib a then Stop cfg 1 else Took (cfg\<lparr>cf_topic := Some a\<rparr>)
          else if \<not> sub_topic_ok lib a then Stop cfg 1
          else Took (cfg\<lparr>cf_topics := cf_topics cfg @ [a]\<rparr>))
      else opt_rest lib who cfg opt arg)"

text \<open>From \<open>-l\<close> to \<open>--proxy\<close>.\<close>

definition opt_message :: "topic_checks \<Rightarrow> client \<Rightarrow> mosq_config \<Rightarrow> string \<Rightarrow> string option \<Rightarrow> opt_step" where
  "opt_message lib who cfg opt arg =
     (if opt = ''-l'' \<or> opt = ''--stdin-line'' then
        if who = CLIENT_SUB then Stop cfg 1
        else if cf_pub_mode cfg \<noteq> MSGMODE_NONE then Stop cfg 1
        else Flag (cfg\<lparr>cf_pub_mode := MSGMODE_STDIN_LINE\<rparr>)
      else if opt = ''-m'' \<or> opt = ''--message'' then
        if who = CLIENT_SUB then Stop cfg 1
        else if cf_pub_mode cfg \<noteq> MSGMODE_NONE then Stop cfg 1
        else with_arg cfg arg (\<lambda>a.
          Took (cfg\<lparr>cf_message := Some a, cf_msglen := int (length a), cf_pub_mode := MSGMODE_CMD\<rparr>))
      else if opt = ''-M'' then
        with_arg cfg arg (\<lambda>a. Took (cfg\<lparr>cf_max_inflight := word_of_int (string_atoi a)\<rparr>))
      else if opt = ''-n'' \<or> opt = ''--null-message'' then
        if who = CLIENT_SUB then Stop cfg 1
        else if cf_pub_mode cfg \<noteq> MSGMODE_NONE then Stop cfg 1
        else Flag (cfg\<lparr>cf_pub_mode := MSGMODE_NULL\<rparr>)
      else if opt = ''-V'' \<or> opt = ''--protocol-version'' then
        with_arg cfg arg (\<lambda>a.
          if a = ''mqttv31'' then Took (cfg\<lparr>cf_protocol_version := MQTT_PROTOCOL_V31\<rparr>)
          else if a = ''mqttv311'' then Took (cfg\<lparr>cf_protocol_version := MQTT_PROTOCOL_V311\<rparr>)
          else Stop cfg 1)
      else if opt = ''--proxy'' then
        with_arg cfg arg (\<lambda>a.
          case mosquitto__parse_socks_url (bytes_of a) of
            None \<Rightarrow> Stop cfg 1
          | Some s \<Rightarrow> Took (cfg\<lparr>cf_socks := Some s\<rparr>))
      else opt_quality lib who cfg opt arg)"

text \<open>From \<open>-C\<close> to \<open>--key\<close>.\<close>

definition opt_identity :: "topic_checks \<Rightarrow> client \<Rightarrow> mosq_config \<Rightarrow> string \<Rightarrow> string option \<Rightarrow> opt_step" where
  "opt_identity lib who cfg opt arg =
     (if opt = ''-C'' then
        if who = CLIENT_PUB then Stop cfg 1
        else with_arg cfg arg (\<lambda>a. let cfg = cfg\<lparr>cf_msg_count := string_atoi a\<rparr> in
          if cf_msg_count cfg < 1 then Stop cfg 1 else Took cfg)
      else if opt = ''-d'' \<or> opt = ''--debug'' then Flag (cfg\<lparr>cf_debug := True\<rparr>)
      else if opt = ''-f'' \<or> opt = ''--file'' then
        if who = CLIENT_SUB then Stop cfg 1
        else if cf_pub_mode cfg \<noteq> MSGMODE_NONE then Stop cfg 1
        else with_arg cfg arg (\<lambda>a. Took (cfg\<lparr>cf_pub_mode := MSGMODE_FILE, cf_file_input := Some a\<rparr>))
      else if opt = ''--help'' then Stop cfg 2
      else if opt = ''-h'' \<or> opt = ''--host'' then
        with_arg cfg arg (\<lambda>a. Took (cfg\<lparr>cf_host := Some (Heap a)\<rparr>))
      else if opt = ''--insecure'' then Flag (cfg\<lparr>cf_insecure := True\<rparr>)
      else if opt = ''-i'' \<or> opt = ''--id'' then
        if cf_id_prefix cfg \<noteq> None then Stop cfg 1
        else with_arg cfg arg (\<lambda>a. Took (cfg\<lparr>cf_id := Some a\<rparr>))
      else if opt = ''-I'' \<or> opt = ''--id-prefix'' then
        if cf_id cfg \<noteq> None then Stop cfg 1
        else with_arg cfg arg (\<lambda>a. Took (cfg\<lparr>cf_id_prefix := Some a\<rparr>))
      else if opt = ''-k'' \<or> opt = ''--keepalive'' then
        with_arg cfg arg (\<lambda>a. let cfg = cfg\<lparr>cf_keepalive := string_atoi a\<rparr> in
          if cf_keepalive cfg > 65535 then Stop cfg 1 else Took cfg)
      else if opt = ''--key'' then with_arg cfg arg (\<lambda>a. Took (cfg\<lparr>cf_keyfile := Some a\<rparr>))
      else opt_message lib who cfg opt arg)"

text \<open>The head of the chain: \<open>-p\<close> to \<open>--ciphers\<close>.\<close>

definition option_step :: "topic_checks \<Rightarrow> client \<Rightarrow> mosq_config \<Rightarrow> string \<Rightarrow> string option \<Rightarrow> opt_step" where
  "option_step lib who cfg opt arg =
     (if opt = ''-p'' \<or> opt = ''--port'' then
        with_arg cfg arg (\<lambda>a. let cfg = cfg\<lparr>cf_port := string_atoi a\<rparr> in
          if cf_port cfg < 1 \<or> cf_port cfg > 65535 then Stop cfg 1 else Took cfg)
      else if opt = ''-A'' then with_arg cfg arg (\<lambda>a. Took (cfg\<lparr>cf_bind_address := Some a\<rparr>))
      else if opt = ''--cafile'' then with_arg cfg arg (\<lambda>a. Took (cfg\<lparr>cf_cafile := Some a\<rparr>))
      else if opt = ''--capath'' then with_arg cfg arg (\<lambda>a. Took (cfg\<lparr>cf_capath := Some a\<rparr>))
      else if opt = ''--cert'' then with_arg cfg arg (\<lambda>a. Took (cfg\<lparr>cf_certfile := Some a\<rparr>))
      else if opt = ''--ciphers'' then with_arg cfg arg (\<lambda>a. Took (cfg\<lparr>cf_ciphers := Some a\<rparr>))
      else opt_identity lib who cfg opt arg)"

text \<open>The loop over \<open>argv[1]\<close> to \<open>argv[argc-1]\<close>: the configuration it leaves and the value
  it returns.\<close>

fun client_config_line_proc :: "topic_checks \<Rightarrow> client \<Rightarrow> mosq_config \<Rightarrow> string list \<Rightarrow> mosq_config \<times> int" where
  "client_config_line_proc lib who cfg [] = (cfg, 0)"
| "client_config_line_proc lib who cfg [opt] =
     (case option_step lib who cfg opt None of
        Flag cfg' \<Rightarrow> (cfg', 0) | Took cfg' \<Rightarrow> (cfg', 0) | Stop cfg' rc \<Rightarrow> (cfg', rc))"
| "client_config_line_proc lib who cfg (opt # arg # args) =
     (case option_step lib who cfg opt (Some arg) of
        Flag cfg' \<Rightarrow> client_config_line_proc lib who cfg' (arg # args)
      | Took cfg' \<Rightarrow> client_config_line_proc lib who cfg' args
      | Stop cfg' rc \<Rightarrow> (cfg', rc))"


subsection \<open>Loading\<close>

text \<open>The end-of-line characters of a configuration line; on a line of nothing else the loop
  reads \<open>line[-1]\<close>.\<close>

fun strip_eol :: "string \<Rightarrow> string outcome" where
  "strip_eol line =
     (if line = [] then Fault (Index_Range 1024 (-1))
      else if last line = CHR 0x0A \<or> last line = CHR 0x0D then strip_eol (butlast line)
      else Returns line)"

declare strip_eol.simps [simp del]

definition strtok :: "string \<Rightarrow> (string \<times> string) option" where
  "strtok s =
     (let t = dropWhile (\<lambda>c. c = CHR '' '') s in
      if t = [] then None
      else Some (takeWhile (\<lambda>c. c \<noteq> CHR '' '') t, drop 1 (dropWhile (\<lambda>c. c \<noteq> CHR '' '') t)))"

definition line_args :: "string \<Rightarrow> string list" where
  "line_args line =
     (case strtok line of
        None \<Rightarrow> []
      | Some (a1, rest) \<Rightarrow> (case strtok rest of None \<Rightarrow> [a1] | Some (a2, _) \<Rightarrow> [a1, a2]))"

text \<open>The default configuration file, a list of what \<open>fgets\<close> returns.\<close>

fun config_lines :: "topic_checks \<Rightarrow> client \<Rightarrow> mosq_config \<Rightarrow> string list \<Rightarrow> (mosq_config \<times> int) outcome" where
  "config_lines lib who cfg [] = Returns (cfg, 0)"
| "config_lines lib who cfg (line # ls) =
     (if line \<noteq> [] \<and> hd line = CHR ''#'' then config_lines lib who cfg ls
      else outcome_bind (strip_eol line) (\<lambda>line.
        case line_args line of
          [] \<Rightarrow> config_lines lib who cfg ls
        | args \<Rightarrow>
            (let (cfg', rc) = client_config_line_proc lib who cfg args in
             if rc \<noteq> 0 then Returns (cfg', rc) else config_lines lib who cfg' ls)))"

definition config_checks :: "client \<Rightarrow> mosq_config \<Rightarrow> bool" where
  "config_checks who cfg \<longleftrightarrow>
     \<not> (cf_will_payload cfg \<noteq> None \<and> cf_will_topic cfg = None) \<and>
     \<not> (cf_will_retain cfg \<and> cf_will_topic cfg = None) \<and>
     \<not> (cf_certfile cfg \<noteq> None \<and> cf_keyfile cfg = None \<or> cf_keyfile cfg \<noteq> None \<and> cf_certfile cfg = None) \<and>
     \<not> ((cf_cafile cfg \<noteq> None \<or> cf_capath cfg \<noteq> None) \<and> cf_psk cfg \<noteq> None) \<and>
     \<not> (cf_psk cfg \<noteq> None \<and> cf_psk_identity cfg = None) \<and>
     \<not> (who = CLIENT_SUB \<and>
        (cf_clean_session cfg = False \<and> (cf_id_prefix cfg \<noteq> None \<or> cf_id cfg = None) \<or>
         length (cf_topics cfg) = 0))"

definition client_config_load ::
    "topic_checks \<Rightarrow> client \<Rightarrow> string list option \<Rightarrow> string list \<Rightarrow> (mosq_config \<times> int) outcome" where
  "client_config_load lib who conf argv =
     outcome_bind (case conf of None \<Rightarrow> Returns (init_config, 0) | Some ls \<Rightarrow> config_lines lib who init_config ls)
       (\<lambda>(cfg, rc). if rc \<noteq> 0 then Returns (cfg, rc) else
          (let (cfg, rc) = client_config_line_proc lib who cfg argv in
           if rc \<noteq> 0 then Returns (cfg, rc)
           else if \<not> config_checks who cfg then Returns (cfg, 1)
           else if cf_host cfg = None then Returns (cfg\<lparr>cf_host := Some (Literal ''localhost'')\<rparr>, 0)
           else Returns (cfg, 0)))"

text \<open>\<open>client_config_cleanup\<close>: \<open>free\<close> of every pointer of the configuration in turn.
  All of them come from \<open>strdup\<close> or \<open>malloc\<close>, the host may be a literal.\<close>

definition free_chars :: "chars option \<Rightarrow> unit outcome" where
  "free_chars p = (case p of Some (Literal s) \<Rightarrow> Fault Invalid_Free | _ \<Rightarrow> Returns ())"

primrec free_all :: "chars option list \<Rightarrow> unit outcome" where
  "free_all [] = Returns ()"
| "free_all (p # ps) = outcome_bind (free_chars p) (\<lambda>_. free_all ps)"

definition socks_chars :: "u8 list option \<Rightarrow> chars option" where
  "socks_chars p = map_option (\<lambda>s. Heap (map (\<lambda>b. char_of (unat b)) s)) p"

definition client_config_cleanup :: "mosq_config \<Rightarrow> unit outcome" where
  "client_config_cleanup cfg = free_all
     (map (map_option Heap) [cf_id cfg, cf_id_prefix cfg] @ [cf_host cfg] @
      map (map_option Heap)
        ([cf_file_input cfg, cf_message cfg, cf_topic cfg, cf_bind_address cfg, cf_username cfg,
          cf_password cfg, cf_will_topic cfg, cf_will_payload cfg, cf_cafile cfg, cf_capath cfg,
          cf_certfile cfg, cf_keyfile cfg, cf_ciphers cfg, cf_tls_version cfg, cf_psk cfg,
          cf_psk_identity cfg] @ map Some (cf_topics cfg) @ map Some (cf_filter_outs cfg)) @
      map socks_chars
        (case cf_socks cfg of None \<Rightarrow> []
         | Some s \<Rightarrow> [Some (socks5_host s), socks5_username s, socks5_password s]))"

subsection \<open>What holds after every option\<close>

definition no_literal :: "mosq_config \<Rightarrow> bool" where
  "no_literal cfg \<longleftrightarrow> (case cf_host cfg of Some (Literal s) \<Rightarrow> False | _ \<Rightarrow> True)"

definition in_bounds :: "mosq_config \<Rightarrow> bool" where
  "in_bounds cfg \<longleftrightarrow> 1 \<le> cf_port cfg \<and> cf_port cfg \<le> 65535 \<and> cf_keepalive cfg \<le> 65535 \<and>
     0 \<le> cf_qos cfg \<and> cf_qos cfg \<le> 2 \<and> 0 \<le> cf_will_qos cfg \<and> cf_will_qos cfg \<le> 2 \<and> 0 \<le> cf_msg_count cfg"

definition names_ok :: "mosq_config \<Rightarrow> bool" where
  "names_ok cfg \<longleftrightarrow> (cf_id cfg = None \<or> cf_id_prefix cfg = None) \<and>
     (cf_pub_mode cfg = MSGMODE_FILE \<longleftrightarrow> cf_file_input cfg \<noteq> None) \<and>
     (cf_pub_mode cfg = MSGMODE_CMD \<longleftrightarrow> cf_message cfg \<noteq> None) \<and>
     cf_msglen cfg = (case cf_message cfg of None \<Rightarrow> 0 | Some m \<Rightarrow> int (length m))"

definition role_ok :: "topic_checks \<Rightarrow> client \<Rightarrow> mosq_config \<Rightarrow> bool" where
  "role_ok lib who cfg \<longleftrightarrow>
     (case cf_will_topic cfg of None \<Rightarrow> True | Some t \<Rightarrow> pub_topic_ok lib t) \<and>
     list_all (sub_topic_ok lib) (cf_topics cfg) \<and> list_all (sub_topic_ok lib) (cf_filter_outs cfg) \<and>
     (case who of
        CLIENT_PUB \<Rightarrow> (case cf_topic cfg of None \<Rightarrow> True | Some t \<Rightarrow> pub_topic_ok lib t) \<and>
          cf_topics cfg = [] \<and> cf_filter_outs cfg = [] \<and> cf_clean_session cfg \<and> cf_msg_count cfg = 0
      | CLIENT_SUB \<Rightarrow> cf_topic cfg = None \<and> cf_pub_mode cfg = MSGMODE_NONE \<and> \<not> cf_retain cfg)"

definition options_ok :: "topic_checks \<Rightarrow> client \<Rightarrow> mosq_config \<Rightarrow> bool" where
  "options_ok lib who cfg \<longleftrightarrow> no_literal cfg \<and> in_bounds cfg \<and> names_ok cfg \<and> role_ok lib who cfg"

lemmas options_defs = options_ok_def no_literal_def in_bounds_def names_ok_def role_ok_def

primrec step_ok :: "(mosq_config \<Rightarrow> bool) \<Rightarrow> (mosq_config \<Rightarrow> bool) \<Rightarrow> opt_step \<Rightarrow> bool" where
  "step_ok P Q (Flag cfg) = P cfg"
| "step_ok P Q (Took cfg) = P cfg"
| "step_ok P Q (Stop cfg rc) = (Q cfg \<and> rc \<noteq> 0)"

lemma step_ok_arg: "Q cfg \<Longrightarrow> (\<And>a. step_ok P Q (f a)) \<Longrightarrow> step_ok P Q (with_arg cfg arg f)"
  by (cases arg) (simp_all add: with_arg_def)

lemma step_ok_if: "(b \<Longrightarrow> step_ok P Q x) \<Longrightarrow> (\<not> b \<Longrightarrow> step_ok P Q y) \<Longrightarrow> step_ok P Q (if b then x else y)"
  by simp

lemma step_ok_found:
  "Q cfg \<Longrightarrow> (\<And>s. step_ok P Q (f s)) \<Longrightarrow>
   step_ok P Q (case x of None \<Rightarrow> Stop cfg 1 | Some s \<Rightarrow> f s)"
  by (cases x) simp_all

lemma rest_ok: "options_ok lib who cfg \<Longrightarrow> step_ok (options_ok lib who) no_literal (opt_rest lib who cfg opt arg)"
  unfolding opt_rest_def Let_def
  by (intro step_ok_if step_ok_arg; simp add: options_defs split: client.splits)

lemma quality_ok: "options_ok lib who cfg \<Longrightarrow> step_ok (options_ok lib who) no_literal (opt_quality lib who cfg opt arg)"
  unfolding opt_quality_def Let_def
  by (intro step_ok_if step_ok_arg rest_ok; simp add: options_defs split: client.splits)

lemma message_ok: "options_ok lib who cfg \<Longrightarrow> step_ok (options_ok lib who) no_literal (opt_message lib who cfg opt arg)"
  unfolding opt_message_def Let_def
  by (intro step_ok_if step_ok_arg step_ok_found quality_ok; simp add: options_defs split: client.splits)

lemma identity_ok: "options_ok lib who cfg \<Longrightarrow> step_ok (options_ok lib who) no_literal (opt_identity lib who cfg opt arg)"
  unfolding opt_identity_def Let_def
  by (intro step_ok_if step_ok_arg message_ok; simp add: options_defs split: client.splits)

lemma option_ok: "options_ok lib who cfg \<Longrightarrow> step_ok (options_ok lib who) no_literal (option_step lib who cfg opt arg)"
  unfolding option_step_def Let_def
  by (intro step_ok_if step_ok_arg identity_ok; simp add: options_defs split: client.splits)

lemma line_ok:
  "options_ok lib who cfg \<Longrightarrow> client_config_line_proc lib who cfg args = (cfg', rc) \<Longrightarrow>
   (rc = 0 \<longrightarrow> options_ok lib who cfg') \<and> (rc \<noteq> 0 \<longrightarrow> no_literal cfg')"
proof (induction lib who cfg args rule: client_config_line_proc.induct)
  case (2 lib who cfg opt)
  then show ?case using option_ok [OF 2(1), of opt None] by (auto split: opt_step.splits)
next
  case (3 lib who cfg opt arg args)
  show ?case using option_ok [OF 3(3), of opt "Some arg"] 3 by (auto split: opt_step.splits)
qed simp

lemma lines_ok:
  "options_ok lib who cfg \<Longrightarrow> config_lines lib who cfg ls = Returns (cfg', rc) \<Longrightarrow>
   (rc = 0 \<longrightarrow> options_ok lib who cfg') \<and> (rc \<noteq> 0 \<longrightarrow> no_literal cfg')"
proof (induction ls arbitrary: cfg)
  case (Cons line ls)
  show ?case
  proof (cases "line \<noteq> [] \<and> hd line = CHR ''#''")
    case True
    with Cons show ?thesis by simp
  next
    case False
    with Cons.prems(2) obtain l where l: "strip_eol line = Returns l" by (auto simp: c_access)
    have step: "config_lines lib who cfg (line # ls) =
        (case line_args l of [] \<Rightarrow> config_lines lib who cfg ls
         | args \<Rightarrow> (let (cfg', rc) = client_config_line_proc lib who cfg args in
             if rc \<noteq> 0 then Returns (cfg', rc) else config_lines lib who cfg' ls))"
      using False by (simp only: config_lines.simps if_False l outcome_bind.simps)
    show ?thesis
    proof (cases "line_args l")
      case Nil
      with step Cons show ?thesis by simp
    next
      case (Cons a as)
      obtain cfg1 rc1 where r: "client_config_line_proc lib who cfg (a # as) = (cfg1, rc1)" by fastforce
      note ok = line_ok [OF Cons.prems(1) r]
      show ?thesis
      proof (cases "rc1 = 0")
        case True
        with step Cons r Cons.prems(2) have "config_lines lib who cfg1 ls = Returns (cfg', rc)" by simp
        with Cons.IH ok True show ?thesis by blast
      next
        case rc: False
        with step Cons r Cons.prems(2) ok show ?thesis by simp
      qed
    qed
  qed
qed simp

lemma init_fields [simp]:
  "cf_id init_config = None" "cf_id_prefix init_config = None" "cf_keepalive init_config = 60"
  "cf_host init_config = None" "cf_port init_config = 1883" "cf_qos init_config = 0"
  "cf_retain init_config = False" "cf_pub_mode init_config = MSGMODE_NONE"
  "cf_file_input init_config = None" "cf_message init_config = None" "cf_msglen init_config = 0"
  "cf_topic init_config = None" "cf_will_topic init_config = None" "cf_will_payload init_config = None"
  "cf_will_qos init_config = 0" "cf_will_retain init_config = False" "cf_certfile init_config = None"
  "cf_keyfile init_config = None" "cf_cafile init_config = None" "cf_capath init_config = None"
  "cf_psk init_config = None" "cf_clean_session init_config" "cf_topics init_config = []"
  "cf_filter_outs init_config = []" "cf_msg_count init_config = 0"
  by (simp_all add: init_config_def)

lemma init_ok: "options_ok lib who init_config"
  by (simp add: options_defs split: client.splits)

lemma host_set:
  "in_bounds (c\<lparr>cf_host := h\<rparr>) = in_bounds c" "names_ok (c\<lparr>cf_host := h\<rparr>) = names_ok c"
  "role_ok lib who (c\<lparr>cf_host := h\<rparr>) = role_ok lib who c"
  "config_checks who (c\<lparr>cf_host := h\<rparr>) = config_checks who c"
  by (cases who; simp add: in_bounds_def names_ok_def role_ok_def config_checks_def)+

lemma checks_imp:
  assumes "config_checks who cfg"
  shows "(cf_will_topic cfg = None \<longrightarrow> cf_will_payload cfg = None \<and> \<not> cf_will_retain cfg) \<and>
    (cf_certfile cfg = None \<longleftrightarrow> cf_keyfile cfg = None) \<and>
    (cf_psk cfg \<noteq> None \<longrightarrow> cf_psk_identity cfg \<noteq> None \<and> cf_cafile cfg = None \<and> cf_capath cfg = None) \<and>
    (who = CLIENT_SUB \<longrightarrow> cf_topics cfg \<noteq> [] \<and> (cf_clean_session cfg \<or> cf_id cfg \<noteq> None))"
  using assms unfolding config_checks_def length_0_conv by (auto simp del: not_None_eq)

text \<open>What a successful load guarantees.\<close>

definition config_valid :: "topic_checks \<Rightarrow> client \<Rightarrow> mosq_config \<Rightarrow> bool" where
  "config_valid lib who cfg \<longleftrightarrow>
     in_bounds cfg \<and> names_ok cfg \<and> role_ok lib who cfg \<and> cf_host cfg \<noteq> None \<and>
     (cf_will_topic cfg = None \<longrightarrow> cf_will_payload cfg = None \<and> \<not> cf_will_retain cfg) \<and>
     (cf_certfile cfg = None \<longleftrightarrow> cf_keyfile cfg = None) \<and>
     (cf_psk cfg \<noteq> None \<longrightarrow> cf_psk_identity cfg \<noteq> None \<and> cf_cafile cfg = None \<and> cf_capath cfg = None) \<and>
     (who = CLIENT_SUB \<longrightarrow> cf_topics cfg \<noteq> [] \<and> (cf_clean_session cfg \<or> cf_id cfg \<noteq> None))"

lemma load_cases:
  assumes "client_config_load lib who conf argv = Returns (cfg, rc)"
  shows "(rc \<noteq> 0 \<and> no_literal cfg) \<or>
    (\<exists>c. rc = 0 \<and> options_ok lib who c \<and> config_checks who c \<and>
       cfg = (if cf_host c = None then c\<lparr>cf_host := Some (Literal ''localhost'')\<rparr> else c))"
proof -
  let ?file = "case conf of None \<Rightarrow> Returns (init_config, 0) | Some ls \<Rightarrow> config_lines lib who init_config ls"
  from assms obtain c1 rc1 where f: "?file = Returns (c1, rc1)"
    by (auto simp: client_config_load_def c_access)
  have ok1: "(rc1 = 0 \<longrightarrow> options_ok lib who c1) \<and> (rc1 \<noteq> 0 \<longrightarrow> no_literal c1)"
    using f init_ok lines_ok [OF init_ok] by (cases conf) auto
  obtain c2 rc2 where r: "client_config_line_proc lib who c1 argv = (c2, rc2)" by fastforce
  show ?thesis
  proof (cases "rc1 = 0")
    case False
    with assms f ok1 show ?thesis by (simp add: client_config_load_def)
  next
    case True
    with ok1 line_ok r have ok2: "(rc2 = 0 \<longrightarrow> options_ok lib who c2) \<and> (rc2 \<noteq> 0 \<longrightarrow> no_literal c2)"
      by blast
    moreover have "options_ok lib who c2 \<Longrightarrow> no_literal c2" by (simp add: options_ok_def)
    ultimately show ?thesis using assms f r True
      by (auto simp: client_config_load_def split: if_splits)
  qed
qed

lemma load_valid:
  assumes "client_config_load lib who conf argv = Returns (cfg, 0)"
  shows "config_valid lib who cfg"
proof -
  from load_cases [OF assms] obtain c where c: "options_ok lib who c" "config_checks who c"
    "cfg = (if cf_host c = None then c\<lparr>cf_host := Some (Literal ''localhost'')\<rparr> else c)" by auto
  have "in_bounds cfg \<and> names_ok cfg \<and> role_ok lib who cfg \<and> cf_host cfg \<noteq> None \<and> config_checks who cfg"
    using c by (simp add: options_ok_def host_set)
  then show ?thesis unfolding config_valid_def using checks_imp [of who cfg] by blast
qed

text \<open>C33: whatever the configuration file and the arguments are, a load that returns 0 leaves a
  valid configuration: port, keep-alive, QoS values and message count in their ranges, never both
  a client id and an id prefix, a message length that is the length of the message, every topic
  accepted by libmosquitto's check for its role, a host, certificate and key together, no
  pre-shared key beside certificates, a will only with a topic, and for the subscriber at least one
  topic, a client id whenever the session is not clean, and none of the publisher's options.\<close>

theorem config_load_valid:
  assumes "client_config_load lib who conf argv = Returns (cfg, 0)"
  shows "config_valid lib who cfg"
  by (rule load_valid [OF assms])

theorem config_load_valid_witness:
  "config_valid \<lparr>pub_topic_ok = \<lambda>_. True, sub_topic_ok = \<lambda>_. True\<rparr> CLIENT_SUB
     (init_config\<lparr>cf_topics := [''led''], cf_host := Some (Literal ''localhost'')\<rparr>)"
proof -
  let ?lib = "\<lparr>pub_topic_ok = \<lambda>_. True, sub_topic_ok = \<lambda>_. True\<rparr>"
  have step: "option_step ?lib CLIENT_SUB c ''-t'' (Some a) = Took (c\<lparr>cf_topics := cf_topics c @ [a]\<rparr>)" for c a
    by (simp add: option_step_def opt_identity_def opt_message_def opt_quality_def with_arg_def)
  have "strip_eol (''-t led'' @ [CHR 0x0A]) = Returns ''-t led''"
    by (subst strip_eol.simps, simp, subst strip_eol.simps, simp)
  moreover have "line_args ''-t led'' = [''-t'', ''led'']" by (simp add: line_args_def strtok_def)
  ultimately have lines: "config_lines ?lib CLIENT_SUB init_config [''-t led'' @ [CHR 0x0A]] =
      Returns (init_config\<lparr>cf_topics := [''led'']\<rparr>, 0)"
    by (simp add: step)
  have "config_checks CLIENT_SUB (init_config\<lparr>cf_topics := [''led'']\<rparr>)" by (simp add: config_checks_def)
  with lines have "client_config_load ?lib CLIENT_SUB (Some [''-t led'' @ [CHR 0x0A]]) [] =
      Returns (init_config\<lparr>cf_topics := [''led''], cf_host := Some (Literal ''localhost'')\<rparr>, 0)"
    by (simp add: client_config_load_def del: config_lines.simps)
  from config_load_valid [OF this] show ?thesis .
qed

lemma free_heap: "free_all (map (map_option Heap) ps @ qs) = free_all qs" "free_all (map socks_chars ss) = Returns ()"
proof -
  have "free_chars (map_option Heap p) = Returns ()" "free_chars (socks_chars q) = Returns ()" for p q
    by (cases p; cases q; simp add: free_chars_def socks_chars_def)+
  then show "free_all (map (map_option Heap) ps @ qs) = free_all qs" "free_all (map socks_chars ss) = Returns ()"
    by (induction ps, simp_all) (induction ss, simp_all)
qed

lemma cleanup_no_literal:
  "client_config_cleanup cfg = (if no_literal cfg then Returns () else Fault Invalid_Free)"
proof -
  have "free_chars (cf_host cfg) = (if no_literal cfg then Returns () else Fault Invalid_Free)"
    by (simp add: free_chars_def no_literal_def split: option.splits chars.splits)
  then show ?thesis
    unfolding client_config_cleanup_def by (simp only: free_heap append_Cons append_Nil free_all.simps) simp
qed

text \<open>\<open>client_config_cleanup\<close> can be called exactly after a load that failed: there every
  pointer it frees was allocated.  After a successful load without \<open>-h\<close> the host is the string
  literal \<open>"localhost"\<close>, and freeing the configuration would be undefined; the two clients call
  it on the error path only.\<close>

lemma config_cleanup_safe:
  assumes "client_config_load lib who conf argv = Returns (cfg, rc)"
  shows "client_config_cleanup cfg =
    (if rc = 0 \<and> cf_host cfg = Some (Literal ''localhost'') then Fault Invalid_Free else Returns ())"
proof -
  from load_cases [OF assms]
  have "no_literal cfg \<longleftrightarrow> \<not> (rc = 0 \<and> cf_host cfg = Some (Literal ''localhost''))"
    by (auto simp: options_ok_def no_literal_def split: if_splits option.splits)
  then show ?thesis by (simp add: cleanup_no_literal)
qed

lemma config_cleanup_safe_witness:
  "client_config_cleanup (init_config\<lparr>cf_will_retain := True\<rparr>) = Returns () \<and> (1 :: int) \<noteq> 0"
proof -
  have step: "option_step lib CLIENT_PUB c ''--will-retain'' None = Flag (c\<lparr>cf_will_retain := True\<rparr>)" for lib c
    by (simp add: option_step_def opt_identity_def opt_message_def opt_quality_def opt_rest_def)
  have "\<not> config_checks CLIENT_PUB (init_config\<lparr>cf_will_retain := True\<rparr>)"
    by (simp add: config_checks_def)
  with step have "client_config_load \<lparr>pub_topic_ok = \<lambda>_. True, sub_topic_ok = \<lambda>_. True\<rparr> CLIENT_PUB None
      [''--will-retain''] = Returns (init_config\<lparr>cf_will_retain := True\<rparr>, 1)"
    by (simp add: client_config_load_def)
  from config_cleanup_safe [OF this] show ?thesis by simp
qed

lemma strip_all: "set line \<subseteq> {CHR 0x0A, CHR 0x0D} \<Longrightarrow> strip_eol line = Fault (Index_Range 1024 (-1))"
proof (induction line rule: strip_eol.induct)
  case (1 line)
  show ?case
  proof (cases "line = []")
    case False
    moreover from False 1 have "last line \<in> {CHR 0x0A, CHR 0x0D}" and "set (butlast line) \<subseteq> {CHR 0x0A, CHR 0x0D}"
      by (auto dest: in_set_butlastD last_in_set)
    ultimately show ?thesis using 1 by (subst strip_eol.simps) auto
  qed (subst strip_eol.simps, simp)
qed

text \<open>A configuration file whose first line other than a comment is empty makes both clients
  read \<open>line[-1]\<close> before any option is looked at, whatever follows and whatever the arguments
  are.\<close>

lemma blank_config_line:
  assumes "list_all (\<lambda>l. take 1 l = ''#'') comments" "set blank \<subseteq> {CHR 0x0A, CHR 0x0D}"
  shows "client_config_load lib who (Some (comments @ blank # rest)) argv = Fault (Index_Range 1024 (-1))"
proof -
  have "config_lines lib who cfg (comments @ blank # rest) = Fault (Index_Range 1024 (-1))" for cfg
    using assms(1)
  proof (induction comments)
    case Nil
    have "\<not> (blank \<noteq> [] \<and> hd blank = CHR ''#'')" using assms(2) by (cases blank) auto
    then show ?case by (simp only: append_Nil config_lines.simps if_False strip_all [OF assms(2)] outcome_bind.simps)
  next
    case (Cons c cs)
    then show ?case by (cases c) simp_all
  qed
  then show ?thesis by (simp add: client_config_load_def)
qed

lemma blank_config_line_witness:
  "client_config_load \<lparr>pub_topic_ok = \<lambda>_. True, sub_topic_ok = \<lambda>_. True\<rparr> CLIENT_PUB
     (Some [''#'', [CHR 0x0A], ''-q 1'']) [''--help''] = Fault (Index_Range 1024 (-1))"
  using blank_config_line [of "[''#'']" "[CHR 0x0A]" "\<lparr>pub_topic_ok = \<lambda>_. True, sub_topic_ok = \<lambda>_. True\<rparr>"
    CLIENT_PUB "[''-q 1'']" "[''--help'']"] by simp

end
