(* ===== verification/Mosq_Pub.thy ===== *)
theory Mosq_Pub
  imports Mosq_Config
begin

text \<open>
  The publishing client (\<open>mosquitto_client/pub_client.c\<close>): reading the message from a file or
  from standard input, the callbacks libmosquitto makes, and the loop of \<open>main\<close>, which in the mode
  \<open>-l\<close> publishes standard input line by line while the library's own thread makes the callbacks.
  Standard input is the list of characters still to be read, complete from the start; messages
  on \<open>stderr\<close> are left out and allocation succeeds.

  libmosquitto is a parameter: \<open>lib i\<close> is what \<open>mosquitto_publish\<close> returns after \<open>i\<close> calls of the
  library and, if it stores one, the message id; the callbacks are steps the environment makes, the
  one for a finished message only with an id that was handed out.
\<close>

subsection \<open>State\<close>

datatype pub_status = STATUS_CONNECTING | STATUS_CONNACK_RECVD | STATUS_WAITING

datatype pub_call =
    Publish "string option" string int bool   \<comment> \<open>topic, payload, QoS, retain\<close>
  | Disconnect

text \<open>The globals of the file, the locals of \<open>main\<close> its loop uses, and the calls made so far.\<close>

record pub =
  pb_topic :: "string option"
  pb_message :: "string option"
  pb_msglen :: int
  pb_qos :: int
  pb_retain :: bool
  pb_mode :: msgmode
  pb_status :: pub_status
  pb_mid_sent :: int
  pb_last_mid :: int
  pb_last_mid_sent :: int
  pb_connected :: bool
  pb_disconnect_sent :: bool
  pb_buf :: string          \<comment> \<open>the C string in \<open>buf\<close>\<close>
  pb_buf_len :: nat
  pb_input :: string        \<comment> \<open>what is left of \<open>stdin\<close>\<close>
  pb_calls :: "pub_call list"
  pb_mids :: "int list"     \<comment> \<open>the ids the library has handed out\<close>

definition pub_globals :: "string \<Rightarrow> pub" where
  "pub_globals input = \<lparr>pb_topic = None, pb_message = None, pb_msglen = 0, pb_qos = 0,
     pb_retain = False, pb_mode = MSGMODE_NONE, pb_status = STATUS_CONNECTING, pb_mid_sent = 0,
     pb_last_mid = -1, pb_last_mid_sent = -1, pb_connected = True, pb_disconnect_sent = False,
     pb_buf = [], pb_buf_len = 1024, pb_input = input, pb_calls = [], pb_mids = []\<rparr>"


subsection \<open>Reading the message\<close>

text \<open>\<open>load_stdin\<close>: blocks of 1024 characters until \<open>fread\<close> meets the end of the file; the first
  result is the return value.\<close>

function stdin_blocks :: "string \<Rightarrow> string \<Rightarrow> string" where
  "stdin_blocks message input =
     (let rlen = min 1024 (length input);
          message = message @ take rlen input in
      if rlen < 1024 then message else stdin_blocks message (drop rlen input))"
  by pat_completeness auto
termination
  by (relation "measure (length o snd)") auto

declare stdin_blocks.simps [simp del]

definition load_stdin :: "pub \<Rightarrow> int \<times> pub" where
  "load_stdin p =
     (let message = stdin_blocks [] (pb_input p);
          p = p\<lparr>pb_mode := MSGMODE_STDIN_FILE, pb_message := Some message,
                pb_msglen := int (length message), pb_input := []\<rparr> in
      (if pb_msglen p = 0 then 1 else 0, p))"

text \<open>\<open>load_file\<close>: the file is the size \<open>ftell\<close> reports and the characters it has.  \<open>fread\<close>
  returns fewer characters than asked for only at the end of the file, and then the loop does
  not end: \<open>None\<close>.\<close>

partial_function (option) read_file :: "nat \<Rightarrow> string \<Rightarrow> string \<Rightarrow> string option" where
  "read_file msglen message content =
     (if length message < msglen
      then read_file msglen (message @ take (msglen - length message) content)
             (drop (msglen - length message) content)
      else Some message)"

definition load_file :: "(int \<times> string) option \<Rightarrow> pub \<Rightarrow> (int \<times> pub) option" where
  "load_file file p =
     (case file of
        None \<Rightarrow> Some (1, p)
      | Some (sz, content) \<Rightarrow>
          (let p = p\<lparr>pb_mode := MSGMODE_FILE, pb_msglen := sz\<rparr> in
           if pb_msglen p > 268435455 then Some (1, p)
           else if pb_msglen p = 0 then Some (1, p)
           else if pb_msglen p < 0 then Some (1, p)
           else map_option (\<lambda>m. (0, p\<lparr>pb_message := Some m\<rparr>))
                  (read_file (nat (pb_msglen p)) [] content)))"

text \<open>\<open>main\<close> up to the check of topic and mode: the exit code and the globals.\<close>

definition pub_setup :: "mosq_config \<Rightarrow> (int \<times> string) option \<Rightarrow> pub \<Rightarrow> (int \<times> pub) option" where
  "pub_setup cfg file p =
     (let p = p\<lparr>pb_topic := cf_topic cfg, pb_message := cf_message cfg, pb_msglen := cf_msglen cfg,
                pb_qos := cf_qos cfg, pb_retain := cf_retain cfg, pb_mode := cf_pub_mode cfg\<rparr> in
      Option.bind
        (if cf_pub_mode cfg = MSGMODE_STDIN_FILE then Some (load_stdin p)
         else if cf_file_input cfg \<noteq> None then load_file file p
         else Some (0, p))
        (\<lambda>(rc, p). Some
          (if rc \<noteq> 0 then 1 else if pb_topic p = None \<or> pb_mode p = MSGMODE_NONE then 1 else 0, p)))"


subsection \<open>Publishing and the callbacks\<close>

text \<open>\<open>mosquitto_publish(mosq, &mid_sent, topic, n, payload, qos, retain)\<close>.\<close>

definition publish :: "(nat \<Rightarrow> int \<times> int option) \<Rightarrow> string \<Rightarrow> pub \<Rightarrow> int \<times> pub" where
  "publish lib payload p =
     (let (rc, mid) = lib (length (pb_calls p));
          p = p\<lparr>pb_calls := pb_calls p @ [Publish (pb_topic p) payload (pb_qos p) (pb_retain p)]\<rparr> in
      case mid of
        None \<Rightarrow> (rc, p)
      | Some m \<Rightarrow> (rc, p\<lparr>pb_mid_sent := m, pb_mids := pb_mids p @ [m]\<rparr>))"

definition disconnect :: "pub \<Rightarrow> pub" where
  "disconnect p = p\<lparr>pb_calls := pb_calls p @ [Disconnect]\<rparr>"

text \<open>The payload of the configured message: \<open>msglen\<close> characters from \<open>message\<close>.\<close>

definition message_payload :: "pub \<Rightarrow> string" where
  "message_payload p = (case pb_message p of None \<Rightarrow> [] | Some m \<Rightarrow> take (nat (pb_msglen p)) m)"

definition my_connect_callback :: "(nat \<Rightarrow> int \<times> int option) \<Rightarrow> int \<Rightarrow> pub \<Rightarrow> pub" where
  "my_connect_callback lib result p =
     (if result = 0 then
        (let (rc, p) =
           (case pb_mode p of
              MSGMODE_CMD \<Rightarrow> publish lib (message_payload p) p
            | MSGMODE_FILE \<Rightarrow> publish lib (message_payload p) p
            | MSGMODE_STDIN_FILE \<Rightarrow> publish lib (message_payload p) p
            | MSGMODE_NULL \<Rightarrow> publish lib [] p
            | MSGMODE_STDIN_LINE \<Rightarrow> (0, p\<lparr>pb_status := STATUS_CONNACK_RECVD\<rparr>)
            | MSGMODE_NONE \<Rightarrow> (0, p)) in
         if rc \<noteq> 0 then disconnect p else p)
      else p)"

definition my_disconnect_callback :: "pub \<Rightarrow> pub" where
  "my_disconnect_callback p = p\<lparr>pb_connected := False\<rparr>"

definition my_publish_callback :: "int \<Rightarrow> pub \<Rightarrow> pub" where
  "my_publish_callback mid p =
     (let p = p\<lparr>pb_last_mid_sent := mid\<rparr> in
      if pb_mode p = MSGMODE_STDIN_LINE then
        (if mid = pb_last_mid p then (disconnect p)\<lparr>pb_disconnect_sent := True\<rparr> else p)
      else if \<not> pb_disconnect_sent p then (disconnect p)\<lparr>pb_disconnect_sent := True\<rparr>
      else p)"


subsection \<open>Reading a line\<close>

text \<open>\<open>fgets(s, n, stdin)\<close>: the characters stored, what is left, and whether the end of the file
  was met.  No character stored is the return value NULL.\<close>

definition fgets :: "nat \<Rightarrow> string \<Rightarrow> string \<times> string \<times> bool" where
  "fgets n input =
     (let block = take (n - 1) input;
          chunk = takeWhile (\<lambda>c. c \<noteq> CHR 0x0A) block @ (if CHR 0x0A \<in> set block then [CHR 0x0A] else []) in
      (chunk, drop (length chunk) input, CHR 0x0A \<notin> set block \<and> length block < n - 1))"

lemma fgets_split:
  assumes "fgets n input = (chunk, rest, eof)"
  shows "input = chunk @ rest" and "length chunk \<le> n - 1"
proof -
  let ?block = "take (n - 1) input"
  let ?tw = "takeWhile (\<lambda>c. c \<noteq> CHR 0x0A) ?block"
  have "\<exists>post. ?block = chunk @ post"
  proof (cases "CHR 0x0A \<in> set ?block")
    case True
    then obtain ys where "dropWhile (\<lambda>c. c \<noteq> CHR 0x0A) ?block = CHR 0x0A # ys"
      by (cases "dropWhile (\<lambda>c. c \<noteq> CHR 0x0A) ?block") (auto simp: dropWhile_eq_Nil_conv dropWhile_eq_Cons_conv)
    with takeWhile_dropWhile_id [of "\<lambda>c. c \<noteq> CHR 0x0A" ?block] have "?block = (?tw @ [CHR 0x0A]) @ ys"
      by (metis append_Cons append_Nil append_assoc)
    with True assms show ?thesis by (simp add: fgets_def Let_def)
  next
    case False
    then have "?tw = ?block" by (subst takeWhile_eq_all_conv) auto
    with False assms show ?thesis by (simp add: fgets_def Let_def)
  qed
  then obtain post where post: "?block = chunk @ post" ..
  have rest: "rest = drop (length chunk) input" using assms by (auto simp: fgets_def Let_def)
  have "take (length chunk) input = chunk"
    using post by (metis append_eq_conv_conj length_append le_add1 length_take min.boundedE take_take min.absorb1)
  with rest show "input = chunk @ rest" by (metis append_take_drop_id)
  have "length chunk \<le> length ?block" unfolding post by simp
  then show "length chunk \<le> n - 1" by simp
qed

record line_read =
  lr_line :: "string option"   \<comment> \<open>the payload when a line was completed\<close>
  lr_buf :: string
  lr_buf_len :: nat
  lr_input :: string
  lr_eof :: bool

text \<open>The inner loop of \<open>main\<close>, from a call of \<open>fgets\<close> at \<open>buf[pos]\<close>: the buffer has \<open>buf_len\<close>
  bytes.  A line that starts with a NUL makes it look at \<open>buf[-1]\<close>.\<close>

function read_line :: "nat \<Rightarrow> nat \<Rightarrow> nat \<Rightarrow> string \<Rightarrow> string \<Rightarrow> line_read outcome" where
  "read_line pos read_len buf_len buf input =
     (let (chunk, rest, eof) = fgets read_len input in
      if pos + length chunk + 1 > buf_len then Fault (Overflow buf_len (pos + length chunk + 1))
      else if chunk = [] then
        Returns \<lparr>lr_line = None, lr_buf = buf, lr_buf_len = buf_len, lr_input = rest, lr_eof = eof\<rparr>
      else
        (let buf = take pos buf @ chunk;
             buf_len_actual = length (takeWhile (\<lambda>c. c \<noteq> CHR 0x00) buf) in
         if buf_len_actual = 0 then Fault (Index_Range buf_len (-1))
         else if buf ! (buf_len_actual - 1) = CHR 0x0A then
           (let line = take (buf_len_actual - 1) buf in
            Returns \<lparr>lr_line = Some line, lr_buf = line, lr_buf_len = buf_len, lr_input = rest, lr_eof = eof\<rparr>)
         else read_line (pos + 1023) 1024 (buf_len + 1024) buf rest))"
  by pat_completeness auto
termination
  by (relation "measure (\<lambda>(pos, read_len, buf_len, buf, input). length input)")
    (auto dest!: fgets_split(1) [OF sym])

declare read_line.simps [simp del]


subsection \<open>The loop of \<open>main\<close>\<close>

text \<open>One iteration in the mode \<open>-l\<close>; in the other modes it is a call of \<open>mosquitto_loop\<close>,
  which only makes callbacks.\<close>

definition pub_iteration :: "(nat \<Rightarrow> int \<times> int option) \<Rightarrow> pub \<Rightarrow> pub outcome" where
  "pub_iteration lib p =
     (if pb_mode p = MSGMODE_STDIN_LINE then
        (case pb_status p of
           STATUS_CONNACK_RECVD \<Rightarrow>
             outcome_bind (read_line 0 (pb_buf_len p) (pb_buf_len p) (pb_buf p) (pb_input p)) (\<lambda>r.
               let p = p\<lparr>pb_buf := lr_buf r, pb_buf_len := lr_buf_len r, pb_input := lr_input r\<rparr>;
                   p = (case lr_line r of
                          None \<Rightarrow> p
                        | Some line \<Rightarrow>
                            (let (rc2, p) = publish lib line p in if rc2 \<noteq> 0 then disconnect p else p)) in
               Returns (if lr_eof r then p\<lparr>pb_last_mid := pb_mid_sent p, pb_status := STATUS_WAITING\<rparr> else p))
         | STATUS_WAITING \<Rightarrow>
             Returns (if pb_last_mid_sent p = pb_last_mid p \<and> \<not> pb_disconnect_sent p
                      then (disconnect p)\<lparr>pb_disconnect_sent := True\<rparr> else p)
         | STATUS_CONNECTING \<Rightarrow> Returns p)
      else Returns p)"

text \<open>The program after the connection was requested: it runs, or it has reached undefined
  behaviour.  The callbacks are steps of the environment; \<open>main\<close> takes part while the client
  counts as connected.\<close>

datatype pub_state = Pub_Running pub | Pub_Crashed fault

definition pub_result :: "pub outcome \<Rightarrow> pub_state" where
  "pub_result m = (case m of Returns p \<Rightarrow> Pub_Running p | Blocks \<Rightarrow> Pub_Crashed Uninitialised | Fault e \<Rightarrow> Pub_Crashed e)"

inductive pub_step :: "(nat \<Rightarrow> int \<times> int option) \<Rightarrow> pub_state \<Rightarrow> pub_state \<Rightarrow> bool"
  for lib :: "nat \<Rightarrow> int \<times> int option" where
  pub_main: "pb_connected p \<Longrightarrow> pub_step lib (Pub_Running p) (pub_result (pub_iteration lib p))"
| pub_connected: "pub_step lib (Pub_Running p) (Pub_Running (my_connect_callback lib result p))"
| pub_published: "mid \<in> set (pb_mids p) \<Longrightarrow> pub_step lib (Pub_Running p) (Pub_Running (my_publish_callback mid p))"
| pub_closed: "pub_step lib (Pub_Running p) (Pub_Running (my_disconnect_callback p))"

inductive_cases pub_stepE: "pub_step lib (Pub_Running p) s"
inductive_simps pub_step_Crashed: "pub_step lib (Pub_Crashed e) s"

subsection \<open>Lines\<close>

lemma takeWhile_not: "x \<notin> set s \<Longrightarrow> takeWhile (\<lambda>c. c \<noteq> x) s = s"
  by (subst takeWhile_eq_all_conv) auto

lemma takeWhile_upto: "x \<notin> set s \<Longrightarrow> takeWhile (\<lambda>c. c \<noteq> x) (s @ x # r) = s"
  by (induction s) auto

lemma fgets_line:
  assumes "CHR 0x0A \<notin> set s" "length s < n - 1"
  shows "fgets n (s @ CHR 0x0A # rest) = (s @ [CHR 0x0A], rest, False)"
proof -
  obtain m where m: "n - 1 - length s = Suc m" using assms(2) by (metis Suc_diff_Suc)
  have "take (n - 1) (s @ CHR 0x0A # rest) = s @ CHR 0x0A # take m rest"
    using assms(2) by (simp only: take_append m take_Suc_Cons) simp
  then show ?thesis using assms(1) by (simp add: fgets_def Let_def takeWhile_upto)
qed

lemma fgets_block:
  assumes "CHR 0x0A \<notin> set s" "n - 1 \<le> length s"
  shows "fgets n (s @ r) = (take (n - 1) s, drop (n - 1) s @ r, False)"
proof -
  have "CHR 0x0A \<notin> set (take (n - 1) s)" using assms(1) by (meson in_set_takeD)
  with assms(2) show ?thesis by (simp add: fgets_def Let_def takeWhile_not)
qed

lemma fgets_tail:
  assumes "CHR 0x0A \<notin> set s" "length s < n - 1"
  shows "fgets n s = (s, [], True)"
  using assms by (simp add: fgets_def Let_def takeWhile_not)

text \<open>A call of \<open>fgets\<close> that does not complete the line.\<close>

lemma read_line_more:
  assumes "fgets n s = (c, r, e)" "c \<noteq> []" "pos + length c + 1 \<le> bl"
    "CHR 0x00 \<notin> set (take pos buf @ c)" "last c \<noteq> CHR 0x0A"
  shows "read_line pos n bl buf s = read_line (pos + 1023) 1024 (bl + 1024) (take pos buf @ c) r"
proof -
  define b where "b = take pos buf @ c"
  have "b \<noteq> []" "last b \<noteq> CHR 0x0A" using assms(2,5) by (simp_all add: b_def)
  then have "b ! (length b - 1) \<noteq> CHR 0x0A" by (simp add: last_conv_nth)
  moreover have "CHR 0x00 \<notin> set b" using assms(4) by (simp add: b_def)
  ultimately show ?thesis using assms(1-3) \<open>b \<noteq> []\<close>
    by (subst read_line.simps) (simp add: Let_def takeWhile_not flip: b_def)
qed

text \<open>A line goes into the buffer behind \<open>take pos buf\<close>, in blocks of 1023 characters.\<close>

lemma read_line_next:
  assumes "CHR 0x0A \<notin> set s" "CHR 0x00 \<notin> set s" "CHR 0x00 \<notin> set (take pos buf)"
    "pos \<le> length buf" "pos + 1024 \<le> bl"
  shows "read_line pos 1024 bl buf (s @ CHR 0x0A # rest) =
    Returns \<lparr>lr_line = Some (take pos buf @ s), lr_buf = take pos buf @ s,
      lr_buf_len = bl + 1024 * (length s div 1023), lr_input = rest, lr_eof = False\<rparr>"
  using assms
proof (induction "length s" arbitrary: s pos buf bl rule: less_induct)
  case less
  show ?case
  proof (cases "length s < 1023")
    case True
    then show ?thesis using less.prems
      by (subst read_line.simps) (simp add: fgets_line takeWhile_not nth_append Let_def)
  next
    case False
    let ?buf = "take pos buf @ take 1023 s"
    have len: "length ?buf = pos + 1023" using False less.prems(4) by simp
    have nul: "CHR 0x00 \<notin> set ?buf" using less.prems(2,3) by (auto dest: in_set_takeD)
    have lf: "last (take 1023 s) \<noteq> CHR 0x0A"
      using False less.prems(1) by (metis in_set_takeD last_in_set list.size(3) take_eq_Nil zero_less_numeral zero_neq_numeral)
    have "read_line pos 1024 bl buf (s @ CHR 0x0A # rest) =
        read_line (pos + 1023) 1024 (bl + 1024) ?buf (drop 1023 s @ CHR 0x0A # rest)"
      by (rule read_line_more) (use False less.prems(1,4,5) nul lf in \<open>auto simp: fgets_block\<close>)
    also have "\<dots> = Returns \<lparr>lr_line = Some (take (pos + 1023) ?buf @ drop 1023 s),
        lr_buf = take (pos + 1023) ?buf @ drop 1023 s,
        lr_buf_len = bl + 1024 + 1024 * (length (drop 1023 s) div 1023), lr_input = rest, lr_eof = False\<rparr>"
      using less.prems nul len False
      by (intro less.hyps) (auto dest: in_set_dropD in_set_takeD)
    also have "take (pos + 1023) ?buf @ drop 1023 s = take pos buf @ s"
      using len by (metis append_assoc append_take_drop_id take_all le_refl)
    finally show ?thesis using False by (simp add: le_div_geq)
  qed
qed

lemma line_returns:
  assumes "CHR 0x0A \<notin> set line" "CHR 0x00 \<notin> set line" "1024 \<le> n"
  shows "\<exists>p bl. p = (if length line < n - 1 then line else take 1023 line @ drop (n - 1) line) \<and> n \<le> bl \<and>
    read_line 0 n n buf (line @ CHR 0x0A # rest) =
      Returns \<lparr>lr_line = Some p, lr_buf = p, lr_buf_len = bl, lr_input = rest, lr_eof = False\<rparr>"
proof (cases "length line < n - 1")
  case True
  then have "n \<ge> length line + 2" by simp
  with True assms show ?thesis
    by (subst read_line.simps) (simp add: fgets_line takeWhile_not nth_append Let_def)
next
  case False
  let ?buf = "take (n - 1) line"
  have len: "length ?buf = n - 1" using False by simp
  have nul: "CHR 0x00 \<notin> set ?buf" using assms(2) by (auto dest: in_set_takeD)
  have ne: "?buf \<noteq> []" using len assms(3) by (cases "?buf") auto
  then have lf: "last ?buf \<noteq> CHR 0x0A" using assms(1) by (metis in_set_takeD last_in_set)
  have step: "read_line 0 n n buf (line @ CHR 0x0A # rest) =
      read_line 1023 1024 (n + 1024) ?buf (drop (n - 1) line @ CHR 0x0A # rest)"
    using read_line_more [OF fgets_block ne, of 0 n buf] False assms(1,3) lf len nul by simp
  have "CHR 0x00 \<notin> set (take 1023 ?buf)" using nul by (meson in_set_takeD)
  with assms len have "read_line 1023 1024 (n + 1024) ?buf (drop (n - 1) line @ CHR 0x0A # rest) =
      Returns \<lparr>lr_line = Some (take 1023 ?buf @ drop (n - 1) line), lr_buf = take 1023 ?buf @ drop (n - 1) line,
        lr_buf_len = n + 1024 + 1024 * (length (drop (n - 1) line) div 1023), lr_input = rest, lr_eof = False\<rparr>"
    by (intro read_line_next) (auto dest: in_set_dropD)
  moreover have "take 1023 ?buf = take 1023 line" using assms(3) by (simp add: min.absorb1)
  ultimately show ?thesis using step False by simp
qed


text \<open>C24: What \<open>-l\<close> publishes for one line of standard input.  With the buffer at \<open>n\<close> bytes, a
  line of up to \<open>n - 2\<close> characters is published as it is.  From a longer one the client
  loses the characters 1023 to \<open>n - 2\<close>, because the position of the second \<open>fgets\<close> is always
  1023: with the initial 1024 bytes nothing is lost, with a buffer grown by an earlier line
  1024 characters or more are.  No line without a NUL reaches undefined behaviour.\<close>

theorem line_published:
  assumes "CHR 0x0A \<notin> set line" "CHR 0x00 \<notin> set line" "1024 \<le> n"
  shows "\<exists>p bl. p = (if length line < n - 1 then line else take 1023 line @ drop (n - 1) line) \<and> n \<le> bl \<and>
    read_line 0 n n buf (line @ CHR 0x0A # rest) =
      Returns \<lparr>lr_line = Some p, lr_buf = p, lr_buf_len = bl, lr_input = rest, lr_eof = False\<rparr>"
  by (rule line_returns [OF assms])

theorem line_published_witness:
  "\<exists>p bl. p = ''no'' \<and> 1024 \<le> bl \<and>
    read_line 0 1024 1024 [] (''no'' @ CHR 0x0A # ''x'') =
      Returns \<lparr>lr_line = Some p, lr_buf = p, lr_buf_len = bl, lr_input = ''x'', lr_eof = False\<rparr>"
  using line_published [of "''no''" 1024 "[]" "''x''"] by simp

text \<open>A line that starts with a NUL makes the loop look at the byte before the buffer.\<close>

lemma nul_line_faults:
  assumes "CHR 0x0A \<notin> set l" and "length l + 2 < n"
  shows "read_line 0 n n buf (CHR 0x00 # l @ CHR 0x0A # rest) = Fault (Index_Range n (-1))"
  using fgets_line [of "CHR 0x00 # l" n rest] assms
  by (subst read_line.simps) (simp add: Let_def)

text \<open>What is left without a newline at the end of the file is read and dropped.\<close>

lemma read_line_tail_next:
  assumes "CHR 0x0A \<notin> set s" "CHR 0x00 \<notin> set s" "CHR 0x00 \<notin> set (take pos buf)"
    "CHR 0x0A \<notin> set (take pos buf)" "pos \<le> length buf" "pos + 1024 \<le> bl"
  shows "\<exists>b bl'. bl \<le> bl' \<and> read_line pos 1024 bl buf s =
    Returns \<lparr>lr_line = None, lr_buf = b, lr_buf_len = bl', lr_input = [], lr_eof = True\<rparr>"
  using assms
proof (induction "length s" arbitrary: s pos buf bl rule: less_induct)
  case less
  show ?case
  proof (cases "s = []")
    case True
    then show ?thesis using less.prems(6)
      by (subst read_line.simps) (simp add: fgets_tail)
  next
    case ne: False
    let ?c = "take 1023 s"
    let ?buf = "take pos buf @ ?c"
    have no: "CHR 0x00 \<notin> set ?buf" "CHR 0x0A \<notin> set ?buf"
      using less.prems(1-4) by (auto dest: in_set_takeD)
    have last: "last ?c \<noteq> CHR 0x0A"
      using no(2) ne by (metis Un_iff last_in_set set_append take_eq_Nil zero_neq_numeral)
    obtain e where "fgets 1024 s = (?c, drop 1023 s, e)"
      using less.prems(1) fgets_tail [of s 1024] fgets_block [of s 1024 "[]"] by (cases "length s < 1023") auto
    then have "read_line pos 1024 bl buf s = read_line (pos + 1023) 1024 (bl + 1024) ?buf (drop 1023 s)"
      by (rule read_line_more) (use less.prems(5,6) ne no last in auto)
    moreover have "\<exists>b bl'. bl + 1024 \<le> bl' \<and> read_line (pos + 1023) 1024 (bl + 1024) ?buf (drop 1023 s) =
        Returns \<lparr>lr_line = None, lr_buf = b, lr_buf_len = bl', lr_input = [], lr_eof = True\<rparr>"
    proof (cases "length s < 1023")
      case True
      then have "drop 1023 s = []" by simp
      then show ?thesis using less.prems(5,6) by (subst read_line.simps) (simp add: fgets_tail)
    next
      case False
      show ?thesis
        by (rule less.hyps) (use False ne no less.prems in \<open>auto dest: in_set_dropD in_set_takeD\<close>)
    qed
    ultimately show ?thesis by (metis add_leD1)
  qed
qed

lemma read_line_tail:
  assumes "CHR 0x0A \<notin> set s" "CHR 0x00 \<notin> set s" "1024 \<le> n"
  shows "\<exists>b bl. n \<le> bl \<and> read_line 0 n n buf s =
    Returns \<lparr>lr_line = None, lr_buf = b, lr_buf_len = bl, lr_input = [], lr_eof = True\<rparr>"
proof (cases "s = []")
  case True
  with assms(3) show ?thesis by (subst read_line.simps) (simp add: fgets_tail)
next
  case ne: False
  let ?c = "take (n - 1) s"
  have c: "?c \<noteq> []" using ne assms(3) by (cases s) auto
  have no: "CHR 0x0A \<notin> set ?c" "CHR 0x00 \<notin> set ?c" using assms(1,2) by (auto dest: in_set_takeD)
  have last: "last ?c \<noteq> CHR 0x0A" using no(1) c by (metis last_in_set)
  obtain e where "fgets n s = (?c, drop (n - 1) s, e)"
    using assms(1,3) fgets_tail [of s n] fgets_block [of s n "[]"] by (cases "length s < n - 1") auto
  then have step: "read_line 0 n n buf s = read_line 1023 1024 (n + 1024) ?c (drop (n - 1) s)"
    using read_line_more [of n s ?c "drop (n - 1) s" e 0 n buf] assms(3) c no last by simp
  show ?thesis
  proof (cases "1023 \<le> length ?c")
    case True
    then have "\<exists>b bl. n + 1024 \<le> bl \<and> read_line 1023 1024 (n + 1024) ?c (drop (n - 1) s) =
        Returns \<lparr>lr_line = None, lr_buf = b, lr_buf_len = bl, lr_input = [], lr_eof = True\<rparr>"
      by (intro read_line_tail_next) (use assms no in \<open>auto dest: in_set_takeD in_set_dropD\<close>)
    with step show ?thesis by (metis add_leD1)
  next
    case False
    with assms(3) have "drop (n - 1) s = []" by (auto simp: min_def split: if_splits)
    with step assms(3) show ?thesis by (subst (asm) (2) read_line.simps) (auto simp: fgets_tail)
  qed
qed

text \<open>The complete lines of standard input.\<close>

function stdin_lines :: "string \<Rightarrow> string list" where
  "stdin_lines input =
     (if CHR 0x0A \<in> set input
      then takeWhile (\<lambda>c. c \<noteq> CHR 0x0A) input # stdin_lines (tl (dropWhile (\<lambda>c. c \<noteq> CHR 0x0A) input))
      else [])"
  by pat_completeness auto
termination
proof (relation "measure length", simp_all)
  fix input :: string
  assume "CHR 0x0A \<in> set input"
  then have "dropWhile (\<lambda>c. c \<noteq> CHR 0x0A) input \<noteq> []" by (auto simp: dropWhile_eq_Nil_conv)
  moreover have "length (dropWhile (\<lambda>c. c \<noteq> CHR 0x0A) input) \<le> length input" by (rule length_dropWhile_le)
  ultimately show "length (dropWhile (\<lambda>c. c \<noteq> CHR 0x0A) input) - Suc 0 < length input"
    by (cases "dropWhile (\<lambda>c. c \<noteq> CHR 0x0A) input") auto
qed

declare stdin_lines.simps [simp del]

lemma stdin_lines_Cons: "CHR 0x0A \<notin> set l \<Longrightarrow> stdin_lines (l @ CHR 0x0A # r) = l # stdin_lines r"
  by (subst stdin_lines.simps) (simp add: takeWhile_upto dropWhile_append)

lemma stdin_lines_none: "CHR 0x0A \<notin> set s \<Longrightarrow> stdin_lines s = []"
  by (subst stdin_lines.simps) simp

lemma stdin_cases:
  obtains (tail) "CHR 0x0A \<notin> set s"
  | (line) l r where "s = l @ CHR 0x0A # r" "CHR 0x0A \<notin> set l"
  by (metis split_list_first)

text \<open>Standard input that keeps within the initial buffer.\<close>

definition short_lines :: "string \<Rightarrow> bool" where
  "short_lines input \<longleftrightarrow> CHR 0x00 \<notin> set input \<and> list_all (\<lambda>l. length l < 1023) (stdin_lines input)"

lemma short_lines_Cons:
  "CHR 0x0A \<notin> set l \<Longrightarrow>
   short_lines (l @ CHR 0x0A # r) \<longleftrightarrow> CHR 0x00 \<notin> set l \<and> length l < 1023 \<and> short_lines r"
  by (auto simp: short_lines_def stdin_lines_Cons)

definition published :: "pub_call list \<Rightarrow> string list" where
  "published calls = concat (map (\<lambda>c. case c of Publish t p q r \<Rightarrow> [p] | Disconnect \<Rightarrow> []) calls)"

lemma published_simps [simp]:
  "published [] = []" "published (cs @ [Publish t p q r]) = published cs @ [p]"
  "published (cs @ [Disconnect]) = published cs"
  by (simp_all add: published_def)

text \<open>The library accepts every message and hands out positive ids.\<close>

definition lib_accepts :: "(nat \<Rightarrow> int \<times> int option) \<Rightarrow> bool" where
  "lib_accepts lib \<longleftrightarrow> (\<forall>i. \<exists>m > 0. lib i = (0, Some m))"

text \<open>A client started with \<open>-l\<close>.\<close>

definition line_start :: "string \<Rightarrow> pub_state \<Rightarrow> bool" where
  "line_start input s \<longleftrightarrow> (\<exists>t q r. s = Pub_Running
     ((pub_globals input)\<lparr>pb_topic := t, pb_qos := q, pb_retain := r, pb_mode := MSGMODE_STDIN_LINE\<rparr>))"

definition line_inv :: "string \<Rightarrow> pub \<Rightarrow> bool" where
  "line_inv input p \<longleftrightarrow>
     pb_mode p = MSGMODE_STDIN_LINE \<and> 1024 \<le> pb_buf_len p \<and> short_lines (pb_input p) \<and>
     published (pb_calls p) @ stdin_lines (pb_input p) = stdin_lines input \<and>
     (\<forall>m \<in> set (pb_mids p). 0 < m) \<and>
     (published (pb_calls p) = [] \<longrightarrow> pb_mids p = [] \<and> pb_mid_sent p = 0) \<and>
     (published (pb_calls p) \<noteq> [] \<longrightarrow> pb_mid_sent p \<in> set (pb_mids p)) \<and>
     pb_last_mid_sent p \<in> insert (-1) (set (pb_mids p)) \<and>
     (pb_last_mid p = -1 \<and> pb_status p \<noteq> STATUS_WAITING \<or> pb_last_mid p = pb_mid_sent p \<and> pb_input p = []) \<and>
     (Disconnect \<in> set (pb_calls p) \<longrightarrow> pb_input p = [] \<and> published (pb_calls p) \<noteq> []) \<and>
     (pb_disconnect_sent p \<longrightarrow> Disconnect \<in> set (pb_calls p))"

text \<open>One iteration of \<open>main\<close> after the connection: it publishes the next line, or finds the end.\<close>

definition line_ready :: "pub \<Rightarrow> bool" where
  "line_ready p \<longleftrightarrow> pb_mode p = MSGMODE_STDIN_LINE \<and> 1024 \<le> pb_buf_len p \<and> short_lines (pb_input p)"

lemma line_inv_ready: "line_inv input p \<Longrightarrow> line_ready p"
  by (simp add: line_inv_def line_ready_def)

lemma line_iteration_last:
  assumes inv: "line_ready p" and st: "pb_status p = STATUS_CONNACK_RECVD" and tail: "CHR 0x0A \<notin> set (pb_input p)"
  shows "\<exists>b bl. pb_buf_len p \<le> bl \<and> pub_iteration lib p =
    Returns (p\<lparr>pb_buf := b, pb_buf_len := bl, pb_input := [], pb_last_mid := pb_mid_sent p, pb_status := STATUS_WAITING\<rparr>)"
proof -
  have "CHR 0x00 \<notin> set (pb_input p)" "1024 \<le> pb_buf_len p" "pb_mode p = MSGMODE_STDIN_LINE"
    using inv by (simp_all add: line_ready_def short_lines_def)
  moreover from this obtain b bl where "pb_buf_len p \<le> bl"
    "read_line 0 (pb_buf_len p) (pb_buf_len p) (pb_buf p) (pb_input p) =
      Returns \<lparr>lr_line = None, lr_buf = b, lr_buf_len = bl, lr_input = [], lr_eof = True\<rparr>"
    using read_line_tail tail by blast
  ultimately show ?thesis using st by (auto simp: pub_iteration_def)
qed

lemma line_iteration_next:
  assumes inv: "line_ready p" and st: "pb_status p = STATUS_CONNACK_RECVD" and lib: "lib_accepts lib"
    and line: "pb_input p = l @ CHR 0x0A # r" "CHR 0x0A \<notin> set l"
  shows "\<exists>bl m. pb_buf_len p \<le> bl \<and> 0 < m \<and> lib (length (pb_calls p)) = (0, Some m) \<and> pub_iteration lib p =
    Returns (p\<lparr>pb_buf := l, pb_buf_len := bl, pb_input := r,
      pb_calls := pb_calls p @ [Publish (pb_topic p) l (pb_qos p) (pb_retain p)],
      pb_mid_sent := m, pb_mids := pb_mids p @ [m]\<rparr>)"
proof -
  have n: "1024 \<le> pb_buf_len p" and mode: "pb_mode p = MSGMODE_STDIN_LINE" using inv by (simp_all add: line_ready_def)
  have short: "CHR 0x00 \<notin> set l" "length l < 1023" using inv line by (simp_all add: line_ready_def short_lines_Cons)
  then have "length l < pb_buf_len p - 1" using n by simp
  then obtain bl where "pb_buf_len p \<le> bl"
    and "read_line 0 (pb_buf_len p) (pb_buf_len p) (pb_buf p) (pb_input p) =
      Returns \<lparr>lr_line = Some l, lr_buf = l, lr_buf_len = bl, lr_input = r, lr_eof = False\<rparr>"
    using line_returns [OF line(2) short(1) n, of "pb_buf p" r] line(1) by auto
  moreover obtain m where "0 < m" "lib (length (pb_calls p)) = (0, Some m)" using lib by (auto simp: lib_accepts_def)
  ultimately show ?thesis using mode st by (auto simp: pub_iteration_def publish_def)
qed

lemma line_inv_main:
  assumes inv: "line_inv input p" and lib: "lib_accepts lib"
  shows "\<exists>p'. pub_iteration lib p = Returns p' \<and> line_inv input p'"
proof (cases "pb_status p")
  case STATUS_CONNECTING
  with inv show ?thesis by (simp add: pub_iteration_def line_inv_def)
next
  case STATUS_WAITING
  with inv show ?thesis
    by (auto simp: pub_iteration_def line_inv_def disconnect_def stdin_lines_none)
next
  case STATUS_CONNACK_RECVD
  show ?thesis
  proof (cases "pb_input p" rule: stdin_cases)
    case tail
    with line_iteration_last [OF line_inv_ready [OF inv] STATUS_CONNACK_RECVD tail, of lib] inv STATUS_CONNACK_RECVD show ?thesis
      by (auto simp: line_inv_def stdin_lines_none short_lines_def)
  next
    case (line l r)
    have "pb_last_mid p = -1" using inv line(1) by (auto simp: line_inv_def)
    with line_iteration_next [OF line_inv_ready [OF inv] STATUS_CONNACK_RECVD lib line] inv line STATUS_CONNACK_RECVD show ?thesis
      by (auto simp: line_inv_def stdin_lines_Cons short_lines_Cons)
  qed
qed

lemma line_inv_callbacks:
  assumes "line_inv input p"
  shows "line_inv input (my_connect_callback lib result p)"
    and "line_inv input (my_disconnect_callback p)"
    and "mid \<in> set (pb_mids p) \<Longrightarrow> line_inv input (my_publish_callback mid p)"
proof -
  show "line_inv input (my_connect_callback lib result p)"
    using assms by (auto simp: line_inv_def my_connect_callback_def)
  show "line_inv input (my_disconnect_callback p)"
    using assms by (simp add: line_inv_def my_disconnect_callback_def)
  assume "mid \<in> set (pb_mids p)"
  with assms show "line_inv input (my_publish_callback mid p)"
    by (auto simp: line_inv_def my_publish_callback_def disconnect_def Let_def)
qed

definition line_run_ok :: "(nat \<Rightarrow> int \<times> int option) \<Rightarrow> string \<Rightarrow> pub_state \<Rightarrow> bool" where
  "line_run_ok lib input s \<longleftrightarrow>
     (short_lines input \<and> lib_accepts lib \<longrightarrow> (\<exists>p. s = Pub_Running p \<and> line_inv input p))"

lemma line_start_inv: "line_start input s \<Longrightarrow> line_run_ok lib input s"
  by (clarsimp simp: line_run_ok_def line_start_def line_inv_def pub_globals_def)

lemma line_step_inv: "pub_step lib s t \<Longrightarrow> line_run_ok lib input s \<Longrightarrow> line_run_ok lib input t"
proof -
  assume step: "pub_step lib s t" and ok: "line_run_ok lib input s"
  show ?thesis
  proof (cases "short_lines input \<and> lib_accepts lib")
    case True
    with ok obtain p where s: "s = Pub_Running p" and inv: "line_inv input p" by (auto simp: line_run_ok_def)
    from step show ?thesis unfolding s
    proof (cases rule: pub_step.cases)
      case pub_main
      with line_inv_main [OF inv, of lib] True show ?thesis by (auto simp: line_run_ok_def pub_result_def)
    qed (auto simp: line_run_ok_def inv line_inv_callbacks)
  qed (auto simp: line_run_ok_def)
qed

interpretation line_run: step_invariant "line_start input" "pub_step lib" "line_run_ok lib input"
  for input :: string and lib :: "nat \<Rightarrow> int \<times> int option"
  by unfold_locales (auto intro: line_start_inv line_step_inv)

text \<open>C20: Publishing standard input with \<open>-l\<close>, in every interleaving of the loop of \<open>main\<close> with
  the library's callbacks, for lines that fit the initial buffer and a library that accepts
  every message: the client never reaches undefined behaviour, what it has published and the
  complete lines it has not read yet are the complete lines of standard input in order, and it
  disconnects only when all of them are published and there was at least one.  So text after the
  last newline is never published, and without a complete line the client never disconnects.\<close>

theorem lines_published_in_order:
  assumes "reaches (line_start input) (pub_step lib) s" "short_lines input" "lib_accepts lib"
  shows "\<exists>p. s = Pub_Running p \<and>
    published (pb_calls p) @ stdin_lines (pb_input p) = stdin_lines input \<and>
    (if Disconnect \<in> set (pb_calls p) then published (pb_calls p) = stdin_lines input \<and> stdin_lines input \<noteq> []
     else True)"
proof -
  obtain p where "s = Pub_Running p" "line_inv input p"
    using line_run.reaches_inv [OF assms(1)] assms(2,3) by (auto simp: line_run_ok_def)
  then show ?thesis by (auto simp: line_inv_def stdin_lines_none)
qed

definition demo_lib :: "nat \<Rightarrow> int \<times> int option" where
  "demo_lib i = (0, Some (int i + 1))"

definition demo_pub :: pub where
  "demo_pub = (pub_globals (''on'' @ [CHR 0x0A]))\<lparr>pb_topic := Some ''led'', pb_mode := MSGMODE_STDIN_LINE\<rparr>"

lemma demo_line_run:
  "reaches (line_start (''on'' @ [CHR 0x0A])) (pub_step demo_lib) (Pub_Running (my_connect_callback demo_lib 0 demo_pub))"
  "short_lines (''on'' @ [CHR 0x0A])" "lib_accepts demo_lib"
proof -
  have "demo_pub = (pub_globals (''on'' @ [CHR 0x0A]))\<lparr>pb_topic := Some ''led'', pb_qos := 0, pb_retain := False,
      pb_mode := MSGMODE_STDIN_LINE\<rparr>"
    by (simp add: demo_pub_def pub_globals_def)
  then have "line_start (''on'' @ [CHR 0x0A]) (Pub_Running demo_pub)" unfolding line_start_def by blast
  then show "reaches (line_start (''on'' @ [CHR 0x0A])) (pub_step demo_lib)
      (Pub_Running (my_connect_callback demo_lib 0 demo_pub))"
    by (blast intro: reaches.intros pub_connected)
  have "short_lines (''on'' @ CHR 0x0A # [])"
    by (subst short_lines_Cons) (simp_all add: short_lines_def stdin_lines_none)
  then show "short_lines (''on'' @ [CHR 0x0A])" .
  show "lib_accepts demo_lib" by (auto simp: lib_accepts_def demo_lib_def)
qed

theorem lines_published_in_order_witness:
  "\<exists>p. Pub_Running (my_connect_callback demo_lib 0 demo_pub) = Pub_Running p \<and>
    published (pb_calls p) @ stdin_lines (pb_input p) = stdin_lines (''on'' @ [CHR 0x0A]) \<and>
    (if Disconnect \<in> set (pb_calls p) then published (pb_calls p) = stdin_lines (''on'' @ [CHR 0x0A]) \<and>
       stdin_lines (''on'' @ [CHR 0x0A]) \<noteq> [] else True)"
  by (rule lines_published_in_order [OF demo_line_run])

subsection \<open>The message as a whole\<close>

lemma stdin_blocks_all: "stdin_blocks m input = m @ input"
proof (induction m input rule: stdin_blocks.induct)
  case (1 m input)
  show ?case
  proof (cases "length input < 1024")
    case True
    then show ?thesis by (subst stdin_blocks.simps) (simp add: Let_def min_def)
  next
    case False
    with 1 show ?thesis by (subst stdin_blocks.simps) (simp add: Let_def min_def)
  qed
qed

text \<open>The loop of \<open>load_file\<close> ends exactly when the file has the size that was measured.\<close>

lemma read_file_enough:
  "n \<le> length m + length c \<Longrightarrow> read_file n m c = Some (m @ take (n - length m) c)"
  by (subst read_file.simps, cases "length m < n") (simp_all add: read_file.simps [of n "m @ take (n - length m) c"])

lemma read_file_short: "read_file n m c = Some y \<Longrightarrow> n \<le> length m + length c"
  by (rule read_file.raw_induct [where P = "\<lambda>n m c y. n \<le> length m + length c"])
    (force split: if_splits, assumption)

lemma read_file_iff:
  "read_file n [] c = (if n \<le> length c then Some (take n c) else None)"
  using read_file_enough [of n "[]" c] read_file_short [of n "[]" c] by (cases "read_file n [] c") auto

text \<open>\<open>load_file\<close> returns unless the file has fewer characters than the size \<open>ftell\<close> reported
  (it shrinks while it is read, or it cannot be read): then the loop around \<open>fread\<close> never ends.
  It fails on a missing, empty or oversized file and otherwise loads exactly the reported size.\<close>

lemma load_file_returns:
  "load_file file p =
     (case file of
        None \<Rightarrow> Some (1, p)
      | Some (sz, content) \<Rightarrow>
          if sz \<le> 0 \<or> 268435455 < sz then Some (1, p\<lparr>pb_mode := MSGMODE_FILE, pb_msglen := sz\<rparr>)
          else if nat sz \<le> length content then
            Some (0, p\<lparr>pb_mode := MSGMODE_FILE, pb_msglen := sz, pb_message := Some (take (nat sz) content)\<rparr>)
          else None)"
  by (auto simp: load_file_def read_file_iff Let_def split: option.splits)

text \<open>The payload the options ask for.\<close>

definition wanted_payload :: "mosq_config \<Rightarrow> (int \<times> string) option \<Rightarrow> string \<Rightarrow> string" where
  "wanted_payload cfg file input =
     (case cf_pub_mode cfg of
        MSGMODE_CMD \<Rightarrow> (case cf_message cfg of None \<Rightarrow> [] | Some m \<Rightarrow> m)
      | MSGMODE_STDIN_FILE \<Rightarrow> input
      | MSGMODE_FILE \<Rightarrow> (case file of None \<Rightarrow> [] | Some (sz, content) \<Rightarrow> take (nat sz) content)
      | _ \<Rightarrow> [])"

lemma setup_message:
  assumes ok: "names_ok cfg" and su: "pub_setup cfg file (pub_globals input) = Some (0, p)"
  shows "pb_topic p = cf_topic cfg \<and> cf_topic cfg \<noteq> None \<and> pb_qos p = cf_qos cfg \<and> pb_retain p = cf_retain cfg \<and>
    pb_mode p = cf_pub_mode cfg \<and> cf_pub_mode cfg \<noteq> MSGMODE_NONE \<and> pb_calls p = [] \<and>
    (pb_mode p \<in> {MSGMODE_CMD, MSGMODE_STDIN_FILE, MSGMODE_FILE} \<longrightarrow>
     message_payload p = wanted_payload cfg file input)"
proof (cases "cf_pub_mode cfg")
  case MSGMODE_FILE
  then obtain f where "cf_file_input cfg = Some f" using ok by (auto simp: names_ok_def)
  with su MSGMODE_FILE show ?thesis
    by (auto simp: pub_setup_def load_file_def read_file_iff Let_def pub_globals_def message_payload_def
        wanted_payload_def bind_eq_Some_conv split: if_splits option.splits)
next
  case MSGMODE_STDIN_FILE
  with su show ?thesis
    by (auto simp: pub_setup_def load_stdin_def stdin_blocks_all Let_def pub_globals_def message_payload_def
        wanted_payload_def split: if_splits)
next
  case MSGMODE_CMD
  with ok have "cf_file_input cfg = None" "cf_message cfg \<noteq> None"
    "cf_msglen cfg = (case cf_message cfg of None \<Rightarrow> 0 | Some m \<Rightarrow> int (length m))" by (auto simp: names_ok_def)
  with su MSGMODE_CMD show ?thesis
    by (auto simp: pub_setup_def Let_def pub_globals_def message_payload_def wanted_payload_def split: if_splits)
next
  case MSGMODE_NONE
  with ok su show ?thesis by (auto simp: pub_setup_def names_ok_def)
next
  case MSGMODE_STDIN_LINE
  with ok su show ?thesis by (auto simp: pub_setup_def names_ok_def pub_globals_def split: if_splits)
next
  case MSGMODE_NULL
  with ok su show ?thesis by (auto simp: pub_setup_def names_ok_def pub_globals_def split: if_splits)
qed

text \<open>From the command line to the broker: when the options load and \<open>main\<close> gets past its checks,
  the first connection makes the client publish one message, on a topic that libmosquitto's check
  accepts, with a QoS of 0 to 2 and exactly the payload the options ask for (the argument of
  \<open>-m\<close>, all of standard input, the file, nothing); with \<open>-l\<close> it publishes nothing yet.\<close>

lemma options_to_publish:
  assumes "client_config_load lib CLIENT_PUB conf argv = Returns (cfg, 0)"
    and "pub_setup cfg file (pub_globals input) = Some (0, p)"
    and "fst (plib 0) = 0"
  shows "\<exists>t. cf_topic cfg = Some t \<and> pub_topic_ok lib t \<and> 0 \<le> cf_qos cfg \<and> cf_qos cfg \<le> 2 \<and>
    pb_calls (my_connect_callback plib 0 p) =
      (if cf_pub_mode cfg = MSGMODE_STDIN_LINE then []
       else [Publish (Some t) (wanted_payload cfg file input) (cf_qos cfg) (cf_retain cfg)])"
proof -
  have valid: "config_valid lib CLIENT_PUB cfg" by (rule load_valid [OF assms(1)])
  then have "names_ok cfg" by (simp add: config_valid_def)
  note m = setup_message [OF this assms(2)]
  then obtain t where t: "cf_topic cfg = Some t" by auto
  with valid have "pub_topic_ok lib t" "0 \<le> cf_qos cfg" "cf_qos cfg \<le> 2"
    by (simp_all add: config_valid_def role_ok_def in_bounds_def)
  moreover obtain mid where "plib 0 = (0, mid)" using assms(3) by (metis prod.collapse)
  ultimately show ?thesis using m t
    by (cases "cf_pub_mode cfg"; cases mid)
      (simp_all add: my_connect_callback_def publish_def wanted_payload_def)
qed

text \<open>A concrete run: \<open>-t led -n\<close>.\<close>

definition demo_checks :: topic_checks where
  "demo_checks = \<lparr>pub_topic_ok = \<lambda>_. True, sub_topic_ok = \<lambda>_. True\<rparr>"

definition demo_cfg :: mosq_config where
  "demo_cfg = init_config\<lparr>cf_topic := Some ''led'', cf_pub_mode := MSGMODE_NULL,
     cf_host := Some (Literal ''localhost'')\<rparr>"

lemma demo_load:
  "client_config_load demo_checks CLIENT_PUB None [''-t'', ''led'', ''-n''] = Returns (demo_cfg, 0)"
proof -
  let ?cfg = "init_config\<lparr>cf_topic := Some ''led'', cf_pub_mode := MSGMODE_NULL\<rparr>"
  have t: "option_step demo_checks CLIENT_PUB c ''-t'' (Some a) = Took (c\<lparr>cf_topic := Some a\<rparr>)" for c a
    by (simp add: demo_checks_def option_step_def opt_identity_def opt_message_def opt_quality_def with_arg_def)
  have n: "option_step demo_checks CLIENT_PUB c ''-n'' None =
      (if cf_pub_mode c \<noteq> MSGMODE_NONE then Stop c 1 else Flag (c\<lparr>cf_pub_mode := MSGMODE_NULL\<rparr>))" for c
    by (simp add: option_step_def opt_identity_def opt_message_def)
  have "client_config_line_proc demo_checks CLIENT_PUB init_config [''-t'', ''led'', ''-n''] = (?cfg, 0)"
    by (simp add: t n)
  moreover have "config_checks CLIENT_PUB ?cfg" by (simp add: config_checks_def)
  ultimately show ?thesis
    by (simp add: client_config_load_def demo_cfg_def del: client_config_line_proc.simps)
qed

lemma demo_setup:
  "pub_setup demo_cfg None (pub_globals []) =
     Some (0, (pub_globals [])\<lparr>pb_topic := Some ''led'', pb_mode := MSGMODE_NULL\<rparr>)"
  by (simp add: pub_setup_def pub_globals_def demo_cfg_def)

text \<open>In the modes other than \<open>-l\<close> the first finished message makes the client disconnect, once.\<close>

lemma disconnect_once:
  assumes "pb_mode p \<noteq> MSGMODE_STDIN_LINE"
  shows "my_publish_callback m (my_publish_callback n p) = (my_publish_callback n p)\<lparr>pb_last_mid_sent := m\<rparr>"
  using assms by (simp add: my_publish_callback_def disconnect_def Let_def)

end
