(* ===== verification/Pub_Loop.thy ===== *)
theory Pub_Loop
  imports Mosq_Pub
begin

text \<open>
  The event loop of the publisher for any input, lines that are too long or hold a NUL included:
  when exactly it can reach undefined behaviour.  \<open>Mosq_Pub\<close> has the loop; \<open>Mosq_Main\<close> joins
  these facts to what \<open>main\<close> does before.
\<close>

subsection \<open>What the inner loop leaves\<close>

text \<open>A newline is the last character \<open>fgets\<close> stores.\<close>

lemma fgets_newline:
  assumes "fgets n s = (c, r, e)" "CHR 0x0A \<in> set c"
  shows "\<exists>c'. c = c' @ [CHR 0x0A] \<and> CHR 0x0A \<notin> set c'"
  using assms by (auto simp: fgets_def Let_def dest: set_takeWhileD split: if_splits)

lemma fgets_empty: "fgets n s = ([], r, e) \<Longrightarrow> 2 \<le> n \<Longrightarrow> s = [] \<and> r = []"
  using fgets_split [of n s "[]" r e]
  by (cases s) (auto simp: fgets_def Let_def take_Cons' split: if_splits)

text \<open>The inner loop behind \<open>pos\<close> characters, none of them a newline the loop would see: it
  goes wrong only at the start of a line that begins with a NUL, and it leaves nothing to read
  or stops behind a newline.\<close>

definition read_result :: "nat \<Rightarrow> nat \<Rightarrow> string \<Rightarrow> line_read outcome \<Rightarrow> bool" where
  "read_result pos bl s m \<longleftrightarrow>
     (case m of
        Returns r \<Rightarrow> bl \<le> lr_buf_len r \<and>
          (lr_input r = [] \<or> (\<exists>pre. s = pre @ CHR 0x0A # lr_input r))
      | Blocks \<Rightarrow> False
      | Fault f \<Rightarrow> pos = 0 \<and> (\<exists>r. s = CHR 0x00 # r))"

lemma takeWhile_append_LF:
  assumes "last (takeWhile (\<lambda>c. c \<noteq> CHR 0x00) (b @ c' @ [CHR 0x0A])) \<noteq> CHR 0x0A"
    and "CHR 0x0A \<notin> set (takeWhile (\<lambda>c. c \<noteq> CHR 0x00) b)" "CHR 0x0A \<notin> set c'"
  shows "CHR 0x0A \<notin> set (takeWhile (\<lambda>c. c \<noteq> CHR 0x00) (b @ c' @ [CHR 0x0A]))"
proof (cases "CHR 0x00 \<in> set b")
  case True
  then have "takeWhile (\<lambda>c. c \<noteq> CHR 0x00) (b @ c' @ [CHR 0x0A]) = takeWhile (\<lambda>c. c \<noteq> CHR 0x00) b"
    by (intro takeWhile_append1) auto
  with assms(2) show ?thesis by simp
next
  case b: False
  then have tb: "takeWhile (\<lambda>c. c \<noteq> CHR 0x00) (b @ x) = b @ takeWhile (\<lambda>c. c \<noteq> CHR 0x00) x" for x
    by (intro takeWhile_append2) auto
  have nb: "CHR 0x0A \<notin> set b" using assms(2) b by (simp add: takeWhile_not)
  show ?thesis
  proof (cases "CHR 0x00 \<in> set c'")
    case True
    then have "takeWhile (\<lambda>c. c \<noteq> CHR 0x00) (c' @ [CHR 0x0A]) = takeWhile (\<lambda>c. c \<noteq> CHR 0x00) c'"
      by (intro takeWhile_append1) auto
    then show ?thesis using tb nb assms(3) by (auto dest: set_takeWhileD)
  next
    case False
    then have "takeWhile (\<lambda>c. c \<noteq> CHR 0x00) (c' @ [CHR 0x0A]) = c' @ [CHR 0x0A]" by (intro takeWhile_not) auto
    then show ?thesis using tb assms(1) by simp
  qed
qed

lemma takeWhile_append_none:
  assumes "CHR 0x0A \<notin> set (takeWhile (\<lambda>c. c \<noteq> CHR 0x00) b)" "CHR 0x0A \<notin> set c"
  shows "CHR 0x0A \<notin> set (takeWhile (\<lambda>c. c \<noteq> CHR 0x00) (b @ c))"
proof (cases "CHR 0x00 \<in> set b")
  case True
  then have "takeWhile (\<lambda>c. c \<noteq> CHR 0x00) (b @ c) = takeWhile (\<lambda>c. c \<noteq> CHR 0x00) b"
    by (intro takeWhile_append1) auto
  with assms(1) show ?thesis by simp
next
  case False
  then have "takeWhile (\<lambda>c. c \<noteq> CHR 0x00) (b @ c) = b @ takeWhile (\<lambda>c. c \<noteq> CHR 0x00) c"
    by (intro takeWhile_append2) auto
  moreover have "CHR 0x0A \<notin> set b" using assms(1) False by (simp add: takeWhile_not)
  ultimately show ?thesis using assms(2) by (auto dest: set_takeWhileD)
qed

lemma takeWhile_take_subset: "set (takeWhile P (take n xs)) \<subseteq> set (takeWhile P xs)"
  by (induction xs arbitrary: n) (auto simp: take_Cons split: nat.split)

lemma read_line_result:
  assumes "pos + n \<le> bl" "1024 \<le> n" "CHR 0x0A \<notin> set (takeWhile (\<lambda>c. c \<noteq> CHR 0x00) (take pos buf))"
    and "pos = 0 \<or> takeWhile (\<lambda>c. c \<noteq> CHR 0x00) (take pos buf) \<noteq> []"
  shows "read_result pos bl s (read_line pos n bl buf s)"
  using assms
proof (induction "length s" arbitrary: pos n bl buf s rule: less_induct)
  case less
  obtain c r e where f: "fgets n s = (c, r, e)" by (metis prod_cases3)
  note s = fgets_split [OF f]
  let ?b = "take pos buf @ c" and ?tw = "takeWhile (\<lambda>c. c \<noteq> CHR 0x00)"
  have fits: "\<not> bl < pos + length c + 1" using s(2) less.prems(1,2) by linarith
  have unfold: "read_line pos n bl buf s =
      (if c = [] then Returns \<lparr>lr_line = None, lr_buf = buf, lr_buf_len = bl, lr_input = r, lr_eof = e\<rparr>
       else if ?tw ?b = [] then Fault (Index_Range bl (-1))
       else if last (?tw ?b) = CHR 0x0A then
         Returns \<lparr>lr_line = Some (butlast (?tw ?b)), lr_buf = butlast (?tw ?b), lr_buf_len = bl, lr_input = r, lr_eof = e\<rparr>
       else read_line (pos + 1023) 1024 (bl + 1024) ?b r)"
  proof -
    have "take (length (?tw ?b)) ?b = ?tw ?b" by (metis append_eq_conv_conj takeWhile_dropWhile_id)
    then have "take (length (?tw ?b) - 1) ?b = butlast (?tw ?b)"
      by (metis butlast_conv_take take_take min.absorb1 diff_le_self)
    moreover have "?tw ?b \<noteq> [] \<Longrightarrow> ?b ! (length (?tw ?b) - 1) = last (?tw ?b)"
      by (simp add: last_conv_nth takeWhile_nth)
    ultimately show ?thesis using f fits by (subst read_line.simps) (simp add: Let_def)
  qed
  show ?case
  proof (cases "c = []")
    case True
    then have "r = []" using fgets_empty f less.prems(2) by fastforce
    with True show ?thesis by (simp add: unfold read_result_def)
  next
    case c: False
    then have shorter: "length r < length s" using s(1) by simp
    consider (nul) "?tw ?b = []" | (line) "?tw ?b \<noteq> []" "last (?tw ?b) = CHR 0x0A"
      | (more) "?tw ?b \<noteq> []" "last (?tw ?b) \<noteq> CHR 0x0A" by blast
    then show ?thesis
    proof cases
      case nul
      have "take pos buf = []" using nul less.prems(4) by (cases "take pos buf") (auto split: if_splits)
      with nul c less.prems(4) obtain c' where "c = CHR 0x00 # c'" "pos = 0"
        by (cases c) (auto split: if_splits)
      with s(1) nul c show ?thesis unfolding unfold by (simp add: read_result_def)
    next
      case line
      have lf: "CHR 0x0A \<in> set c"
      proof (rule ccontr)
        assume "CHR 0x0A \<notin> set c"
        with less.prems(3) have "CHR 0x0A \<notin> set (?tw ?b)" by (rule takeWhile_append_none)
        with line show False by (metis last_in_set)
      qed
      with fgets_newline [OF f] obtain c' where "c = c' @ [CHR 0x0A]" by blast
      with s(1) have "s = c' @ CHR 0x0A # r" by simp
      with line c show ?thesis unfolding unfold by (auto simp: read_result_def)
    next
      case more
      have no: "CHR 0x0A \<notin> set (?tw ?b)"
      proof (cases "CHR 0x0A \<in> set c")
        case True
        with fgets_newline [OF f] obtain c' where c': "c = c' @ [CHR 0x0A]" "CHR 0x0A \<notin> set c'" by blast
        show ?thesis using takeWhile_append_LF [OF _ less.prems(3) c'(2)] more(2) unfolding c'(1) by blast
      next
        case False
        with less.prems(3) show ?thesis by (rule takeWhile_append_none)
      qed
      have "read_result (pos + 1023) (bl + 1024) r (read_line (pos + 1023) 1024 (bl + 1024) ?b r)"
      proof (rule less.hyps [OF shorter])
        show "CHR 0x0A \<notin> set (?tw (take (pos + 1023) ?b))" using no takeWhile_take_subset by fast
        show "pos + 1023 = 0 \<or> ?tw (take (pos + 1023) ?b) \<noteq> []"
          using more(1) by (cases ?b) (auto simp: take_Cons' split: if_splits)
      qed (use less.prems in auto)
      then have "read_result (pos + 1023) (bl + 1024) r (read_line pos n bl buf s)"
        using more c by (simp add: unfold)
      then show ?thesis using s(1) by (auto simp: read_result_def split: outcome.splits)
    qed
  qed
qed

subsection \<open>The event loop\<close>

text \<open>A line of the input that begins with a NUL.\<close>

definition nul_line :: "string \<Rightarrow> string \<Rightarrow> bool" where
  "nul_line input before \<longleftrightarrow>
     (before = [] \<or> last before = CHR 0x0A) \<and> (\<exists>rest. input = before @ CHR 0x00 # rest)"

text \<open>The input that is left begins at the start of a line, and the buffer has not shrunk.\<close>

definition pub_loop_ok :: "pub \<Rightarrow> pub_state \<Rightarrow> bool" where
  "pub_loop_ok p0 s \<longleftrightarrow>
     (case s of
        Pub_Running p \<Rightarrow> pb_mode p = pb_mode p0 \<and> 1024 \<le> pb_buf_len p \<and>
          (pb_input p = [] \<or> (\<exists>pre. pb_input p0 = pre @ pb_input p \<and> (pre = [] \<or> last pre = CHR 0x0A)))
      | Pub_Crashed f \<Rightarrow> pb_mode p0 = MSGMODE_STDIN_LINE \<and> (\<exists>before. nul_line (pb_input p0) before))"

lemma publish_keeps:
  "publish lib payload p = (rc, q) \<Longrightarrow> pb_mode q = pb_mode p \<and> pb_buf_len q = pb_buf_len p \<and> pb_input q = pb_input p \<and>
     pb_status q = pb_status p \<and> pb_connected q = pb_connected p"
  by (auto simp: publish_def Let_def split: prod.splits option.splits)

lemma callbacks_keep:
  "pb_mode (my_connect_callback lib result p) = pb_mode p" "pb_buf_len (my_connect_callback lib result p) = pb_buf_len p"
  "pb_input (my_connect_callback lib result p) = pb_input p" "pb_connected (my_connect_callback lib result p) = pb_connected p"
  "pb_mode (my_publish_callback mid p) = pb_mode p" "pb_buf_len (my_publish_callback mid p) = pb_buf_len p"
  "pb_input (my_publish_callback mid p) = pb_input p"
  "pb_mode (my_disconnect_callback p) = pb_mode p" "pb_buf_len (my_disconnect_callback p) = pb_buf_len p"
  "pb_input (my_disconnect_callback p) = pb_input p"
  by (auto simp: my_connect_callback_def my_publish_callback_def my_disconnect_callback_def disconnect_def Let_def
      split: msgmode.split prod.splits dest!: publish_keeps)

lemma reading_iteration:
  assumes "pb_mode p = MSGMODE_STDIN_LINE" "pb_status p = STATUS_CONNACK_RECVD"
  shows "case read_line 0 (pb_buf_len p) (pb_buf_len p) (pb_buf p) (pb_input p) of
      Returns r \<Rightarrow> \<exists>q. pub_iteration lib p = Returns q \<and> pb_mode q = pb_mode p \<and> pb_connected q = pb_connected p \<and>
        pb_buf_len q = lr_buf_len r \<and> pb_input q = lr_input r \<and> (lr_eof r \<or> pb_status q = pb_status p)
    | Blocks \<Rightarrow> pub_iteration lib p = Blocks
    | Fault f \<Rightarrow> pub_iteration lib p = Fault f"
proof (cases "read_line 0 (pb_buf_len p) (pb_buf_len p) (pb_buf p) (pb_input p)")
  case (Returns r)
  let ?p = "p\<lparr>pb_buf := lr_buf r, pb_buf_len := lr_buf_len r, pb_input := lr_input r\<rparr>"
  show ?thesis
  proof (cases "lr_line r")
    case None
    with assms Returns show ?thesis by (simp add: pub_iteration_def Let_def)
  next
    case (Some line)
    obtain rc q where q: "publish lib line ?p = (rc, q)" by fastforce
    from publish_keeps [OF q] assms Returns Some q show ?thesis by (simp add: pub_iteration_def disconnect_def Let_def)
  qed
qed (use assms in \<open>simp_all add: pub_iteration_def\<close>)

lemma pub_loop_step:
  assumes ok: "pub_loop_ok p0 s" and st: "pub_step lib s t"
  shows "pub_loop_ok p0 t"
  using st
proof cases
  case (pub_main p)
  note p = ok [unfolded pub_loop_ok_def pub_main(1), simplified]
  show ?thesis
  proof (cases "pb_mode p = MSGMODE_STDIN_LINE \<and> pb_status p = STATUS_CONNACK_RECVD")
    case True
    then have line: "pb_mode p = MSGMODE_STDIN_LINE" "pb_status p = STATUS_CONNACK_RECVD" by simp_all
    let ?m = "read_line 0 (pb_buf_len p) (pb_buf_len p) (pb_buf p) (pb_input p)"
    have rr: "read_result 0 (pb_buf_len p) (pb_input p) ?m" using p by (intro read_line_result) simp_all
    show ?thesis
    proof (cases ?m)
      case (Returns r)
      with rr have r: "pb_buf_len p \<le> lr_buf_len r"
        "lr_input r = [] \<or> (\<exists>pre. pb_input p = pre @ CHR 0x0A # lr_input r)" by (simp_all add: read_result_def)
      obtain q where q: "pub_iteration lib p = Returns q" "pb_mode q = pb_mode p" "pb_buf_len q = lr_buf_len r"
        "pb_input q = lr_input r" using reading_iteration [OF line, of lib] Returns by auto
      have "lr_input r = [] \<or> (\<exists>pre. pb_input p0 = pre @ lr_input r \<and> (pre = [] \<or> last pre = CHR 0x0A))"
      proof (cases "lr_input r = []")
        case False
        with r(2) obtain pre where pre: "pb_input p = pre @ CHR 0x0A # lr_input r" by blast
        then obtain pre0 where "pb_input p0 = pre0 @ pb_input p" using p by auto
        with pre show ?thesis by (intro disjI2 exI [of _ "pre0 @ pre @ [CHR 0x0A]"]) simp
      qed simp
      with p q r(1) show ?thesis by (simp add: pub_loop_ok_def pub_main(2) pub_result_def)
    next
      case (Fault f)
      with rr obtain x where "pb_input p = CHR 0x00 # x" by (auto simp: read_result_def)
      with p have "\<exists>before. nul_line (pb_input p0) before" by (auto simp: nul_line_def)
      with reading_iteration [OF line, of lib] Fault p line show ?thesis
        by (simp add: pub_loop_ok_def pub_main(2) pub_result_def)
    qed (use rr in \<open>simp add: read_result_def\<close>)
  next
    case False
    then have "\<exists>q. pub_iteration lib p = Returns q \<and> pb_mode q = pb_mode p \<and> pb_buf_len q = pb_buf_len p \<and> pb_input q = pb_input p"
      by (cases "pb_status p") (auto simp: pub_iteration_def disconnect_def)
    with p show ?thesis by (auto simp: pub_loop_ok_def pub_main(2) pub_result_def)
  qed
qed (use ok in \<open>simp_all add: pub_loop_ok_def callbacks_keep\<close>)

interpretation pub_loop: step_invariant "(=) (Pub_Running p0)" "pub_step lib"
    "\<lambda>s. 1024 \<le> pb_buf_len p0 \<longrightarrow> pub_loop_ok p0 s"
  for p0 :: pub and lib :: "nat \<Rightarrow> int \<times> int option"
  by unfold_locales (auto simp: pub_loop_ok_def [of _ "Pub_Running p0"] intro: pub_loop_step)

lemma pub_loop_crash_line:
  assumes "reaches ((=) (Pub_Running p)) (pub_step lib) (Pub_Crashed f)" "1024 \<le> pb_buf_len p"
  shows "pb_mode p = MSGMODE_STDIN_LINE \<and> (\<exists>before. nul_line (pb_input p) before)"
  using pub_loop.reaches_inv [OF assms(1)] assms(2) by (simp add: pub_loop_ok_def)

text \<open>The first NUL of the input, when it begins a line, is met by the loop once the client is
  connected.\<close>

lemma nul_line_crash:
  assumes "nul_line (pb_input p) before" "CHR 0x00 \<notin> set before"
    and "pb_mode p = MSGMODE_STDIN_LINE" "pb_status p = STATUS_CONNACK_RECVD" "pb_connected p" "1024 \<le> pb_buf_len p"
    and "reaches init (pub_step lib) (Pub_Running p)"
  shows "\<exists>f. reaches init (pub_step lib) (Pub_Crashed f)"
  using assms
proof (induction "length before" arbitrary: before p rule: less_induct)
  case less
  obtain rest where input: "pb_input p = before @ CHR 0x00 # rest" using less.prems(1) by (auto simp: nul_line_def)
  show ?case
  proof (cases "before = []")
    case True
    obtain c r e where f: "fgets (pb_buf_len p) (CHR 0x00 # rest) = (c, r, e)" by (metis prod_cases3)
    then have "c \<noteq> []" using fgets_empty less.prems(6) by fastforce
    with fgets_split [OF f] obtain c' where c: "c = CHR 0x00 # c'" by (cases c) auto
    have "\<not> pb_buf_len p < length c + 1" using fgets_split(2) [OF f] less.prems(6) by linarith
    with f c input True have "read_line 0 (pb_buf_len p) (pb_buf_len p) (pb_buf p) (pb_input p) =
        Fault (Index_Range (pb_buf_len p) (-1))"
      by (subst read_line.simps) (simp add: Let_def)
    with reading_iteration [OF less.prems(3,4), of lib]
    have "pub_step lib (Pub_Running p) (Pub_Crashed (Index_Range (pb_buf_len p) (-1)))"
      using pub_main [OF less.prems(5), of lib] by (simp add: pub_result_def)
    with less.prems(7) show ?thesis by (blast intro: next_state)
  next
    case False
    with less.prems(1) have "CHR 0x0A \<in> set before" by (auto simp: nul_line_def dest: last_in_set)
    then obtain l b where b: "before = l @ CHR 0x0A # b" "CHR 0x0A \<notin> set l" by (metis split_list_first)
    then have l: "CHR 0x00 \<notin> set l" using less.prems(2) by simp
    obtain w bl where w: "pb_buf_len p \<le> bl" "read_line 0 (pb_buf_len p) (pb_buf_len p) (pb_buf p) (pb_input p) =
        Returns \<lparr>lr_line = Some w, lr_buf = w, lr_buf_len = bl, lr_input = b @ CHR 0x00 # rest, lr_eof = False\<rparr>"
      using line_returns [OF b(2) l less.prems(6), of "pb_buf p" "b @ CHR 0x00 # rest"] input b(1) by auto
    with reading_iteration [OF less.prems(3,4), of lib] obtain q where q: "pub_iteration lib p = Returns q"
      "pb_mode q = MSGMODE_STDIN_LINE" "pb_connected q" "pb_buf_len q = bl" "pb_input q = b @ CHR 0x00 # rest"
      "pb_status q = STATUS_CONNACK_RECVD" using less.prems(3-5) by auto
    have "pub_step lib (Pub_Running p) (Pub_Running q)"
      using pub_main [OF less.prems(5), of lib] q(1) by (simp add: pub_result_def)
    with less.prems(7) have reach: "reaches init (pub_step lib) (Pub_Running q)" by (blast intro: next_state)
    have "nul_line (pb_input q) b" using less.prems(1) b(1) q(5) by (auto simp: nul_line_def split: if_splits)
    moreover have "length b < length before" "CHR 0x00 \<notin> set b" "1024 \<le> pb_buf_len q"
      using b(1) less.prems(2,6) w(1) q(4) by auto
    ultimately show ?thesis using less.hyps q(2,3,6) reach by blast
  qed
qed

lemma pub_loop_crash_reached:
  assumes "pb_mode p = MSGMODE_STDIN_LINE" "nul_line (pb_input p) before" "CHR 0x00 \<notin> set before"
    and "pb_connected p" "1024 \<le> pb_buf_len p"
  shows "\<exists>f. reaches ((=) (Pub_Running p)) (pub_step lib) (Pub_Crashed f)"
proof (rule nul_line_crash)
  let ?q = "my_connect_callback lib 0 p"
  show "nul_line (pb_input ?q) before" "CHR 0x00 \<notin> set before" "pb_mode ?q = MSGMODE_STDIN_LINE" "pb_connected ?q"
    "1024 \<le> pb_buf_len ?q" using assms by (simp_all add: callbacks_keep)
  show "pb_status ?q = STATUS_CONNACK_RECVD" using assms(1) by (simp add: my_connect_callback_def)
  show "reaches ((=) (Pub_Running p)) (pub_step lib) (Pub_Running ?q)"
    by (rule next_state [where s = "Pub_Running p"]) (simp_all add: start pub_connected)
qed

end
