(* ===== verification/Client_Queue.thy ===== *)
theory Client_Queue
  imports Msg_Queue
begin

text \<open>
  The queue wrappers of the MQTT clients, \<open>mosquitto_client/Msg_Def.c\<close>: a copy of the
  scanner's with a text of 35 bytes and without \<open>sys_mq_reset\<close>, which is under \<open>#if 0\<close>.  The
  laws of a queue hold for it by the interpretation \<open>client_queue\<close> of \<open>Msg_Queue\<close>.
\<close>

definition client_mq_init :: "kernel \<Rightarrow> int \<Rightarrow> int \<times> kernel" where [simp]:
  "client_mq_init k msgKey = sys_mq_init k msgKey"

definition client_mq_kill :: "kernel \<Rightarrow> int \<Rightarrow> int \<times> kernel" where [simp]:
  "client_mq_kill k qid = sys_mq_kill k qid"

definition client_mq_send :: "kernel \<Rightarrow> int \<Rightarrow> u8 list \<Rightarrow> u16 \<Rightarrow> (int \<times> kernel) outcome" where [simp]:
  "client_mq_send k mqId buf len = sys_mq_send CLIENT_MTEXT_SIZE k mqId buf len"

definition client_mq_recv ::
  "kernel \<Rightarrow> int \<Rightarrow> u8 list \<Rightarrow> u16 \<Rightarrow> (int \<times> u8 list \<times> u16 \<times> kernel) outcome" where [simp]:
  "client_mq_recv k mqId buf len = sys_mq_recv CLIENT_MTEXT_SIZE k mqId buf len"

text \<open>A message from the scanner's side does not fit: its transfer size is larger than the one the
  client's receive asks for, so \<open>msgrcv\<close> refuses it, leaves it in the queue and every later
  receive finds it again.\<close>

lemma scanner_message_stuck:
  assumes "mq_msgs k q = Some (m # ms)" and "message_ok MTEXT_SIZE m"
  shows "client_mq_recv k q buf n = Returns (-1, buf, n, k)"
  using assms
  by (simp add: client_mq_recv_def sys_mq_recv_def msgrcv_def message_ok_def MQBUFSIZE_def
      MTEXT_SIZE_def CLIENT_MTEXT_SIZE_def)

text \<open>In the other direction the client's messages are accepted, with their bytes and length.\<close>

lemma client_message_received:
  assumes "mq_msgs k q = Some (m # ms)" and "message_ok CLIENT_MTEXT_SIZE m" and "length (m_text m) \<le> length buf"
  shows "sys_mq_recv MTEXT_SIZE k q buf n =
     Returns (0, m_text m @ drop (length (m_text m)) buf, m_length m, k\<lparr>mq_msgs := (mq_msgs k)(q \<mapsto> ms)\<rparr>)"
  using assms
  by (simp add: sys_mq_recv_def msgrcv_def message_ok_def MQBUFSIZE_def MTEXT_SIZE_def CLIENT_MTEXT_SIZE_def)

text \<open>The two sizes of \<open>mtext\<close> make a shared queue one-way: what a client sends is received by a
  scanner thread, bytes and length unchanged; what a scanner thread sends is refused by the
  client's receive, which takes fewer bytes than the message has, and blocks the queue for it.\<close>

lemma queues_one_way:
  assumes ok: "kernel_ok CLIENT_MTEXT_SIZE k" and free: "contents k q = Some []"
    and bytes: "length bytes \<le> CLIENT_MTEXT_SIZE" "length bytes \<le> length buf"
    and r: "room MTEXT_SIZE k q 1" "room CLIENT_MTEXT_SIZE k q 1"
  shows "(\<exists>k1 k2. client_mq_send k q bytes (word_of_nat (length bytes)) = Returns (0, k1) \<and>
       sys_mq_recv MTEXT_SIZE k1 q buf n =
         Returns (0, bytes @ drop (length bytes) buf, word_of_nat (length bytes), k2)) \<and>
     (\<exists>k1. sys_mq_send MTEXT_SIZE k q bytes (word_of_nat (length bytes)) = Returns (0, k1) \<and>
       client_mq_recv k1 q buf n = Returns (-1, buf, n, k1))"
proof -
  have n: "unat (word_of_nat (length bytes) :: u16) = length bytes"
    using bytes(1) by (simp add: CLIENT_MTEXT_SIZE_def unat_of_nat)
  have q: "mq_msgs k q = Some []" using free by (simp add: contents_def)
  let ?m = "\<lambda>cap. \<lparr>m_type = 1, m_size = MQBUFSIZE cap, m_length = word_of_nat (length bytes), m_text = bytes\<rparr>"
  let ?k = "\<lambda>cap. k\<lparr>mq_msgs := (mq_msgs k)(q \<mapsto> [?m cap])\<rparr>"
  have fits: "length bytes \<le> MTEXT_SIZE" using bytes(1) by (simp add: CLIENT_MTEXT_SIZE_def MTEXT_SIZE_def)
  have send: "length bytes \<le> cap \<Longrightarrow> room cap k q 1 \<Longrightarrow>
      sys_mq_send cap k q bytes (word_of_nat (length bytes)) = Returns (0, ?k cap)" for cap
    by (simp add: sys_mq_send_def n msgsnd_def q room_def)
  have m: "length bytes \<le> cap \<Longrightarrow> message_ok cap (?m cap)" for cap by (simp add: message_ok_def n)
  have "sys_mq_recv MTEXT_SIZE (?k CLIENT_MTEXT_SIZE) q buf n =
      Returns (0, bytes @ drop (length bytes) buf, word_of_nat (length bytes),
        (?k CLIENT_MTEXT_SIZE)\<lparr>mq_msgs := (mq_msgs (?k CLIENT_MTEXT_SIZE))(q \<mapsto> [])\<rparr>)"
    using client_message_received [of "?k CLIENT_MTEXT_SIZE" q "?m CLIENT_MTEXT_SIZE" "[]" buf n] m [OF bytes(1)] bytes(2)
    by simp
  moreover have "client_mq_recv (?k MTEXT_SIZE) q buf n = Returns (-1, buf, n, ?k MTEXT_SIZE)"
    by (rule scanner_message_stuck [where m = "?m MTEXT_SIZE" and ms = "[]"]) (simp_all add: m [OF fits])
  ultimately show ?thesis using send [OF bytes(1) r(2)] send [OF fits r(1)] by simp
qed

end
