(* ===== verification/Mosq_Sub.thy ===== *)
theory Mosq_Sub
  imports Mosq_Config Client_Queue
begin

text \<open>
  The subscribing client (\<open>mosquitto_client/sub_client.c\<close>): the callbacks libmosquitto makes and
  the queue they put received payloads into.  A received message is the object its
  \<open>payload\<close> points to, which may be longer than \<open>payloadlen\<close>.  \<open>mosquitto_topic_matches_sub\<close>
  is the parameter \<open>matches\<close>.  What the client prints and the library calls it makes are
  recorded in order.
\<close>

subsection \<open>State\<close>

definition SUB_QUEUE_KEY :: int where "SUB_QUEUE_KEY = 123456"

record mqtt_message =
  mm_topic :: string
  mm_payload :: "u8 list"
  mm_payloadlen :: nat
  mm_retain :: bool

datatype sub_event =
    Data_Line "u8 list"          \<comment> \<open>\<open>printf("data = %s\n", payload)\<close>\<close>
  | Payload_Out "u8 list"        \<comment> \<open>\<open>fwrite\<close> of the payload\<close>
  | Newline_Out
  | Null_Line string             \<comment> \<open>\<open>printf("%s (null)\n", topic)\<close>\<close>
  | Subscribe string int
  | Sub_Disconnect
  | Subscribed_Line int "int list"

record sub =
  sb_cfg :: mosq_config
  sb_process_messages :: bool
  sb_msg_count :: int
  sb_queue_id :: int
  sb_kernel :: kernel
  sb_events :: "sub_event list"

text \<open>The start of \<open>main\<close>: the queue is initialised before the options are read.\<close>

definition sub_start :: "kernel \<Rightarrow> mosq_config \<Rightarrow> sub" where
  "sub_start k cfg =
     (let (qid, k') = client_mq_init k SUB_QUEUE_KEY in
      \<lparr>sb_cfg = cfg, sb_process_messages = True, sb_msg_count = 0, sb_queue_id = qid,
       sb_kernel = k', sb_events = []\<rparr>)"

definition sub_event :: "sub_event \<Rightarrow> sub \<Rightarrow> sub" where
  "sub_event e s = s\<lparr>sb_events := sb_events s @ [e]\<rparr>"


subsection \<open>The callbacks\<close>

text \<open>Printing the payload, with a newline if the option \<open>eol\<close> is set.\<close>

definition print_payload :: "mqtt_message \<Rightarrow> sub \<Rightarrow> sub outcome" where
  "print_payload m s =
     outcome_bind (copy_from (mm_payload m) (mm_payloadlen m)) (\<lambda>bytes.
       let s = sub_event (Payload_Out bytes) s in
       Returns (if cf_eol (sb_cfg s) then sub_event Newline_Out s else s))"

definition print_message :: "mqtt_message \<Rightarrow> sub \<Rightarrow> sub outcome" where
  "print_message m s =
     (if cf_verbose (sb_cfg s) then
        if mm_payloadlen m \<noteq> 0 then print_payload m s
        else Returns (if cf_eol (sb_cfg s) then sub_event (Null_Line (mm_topic m)) s else s)
      else if mm_payloadlen m \<noteq> 0 then
        outcome_bind (c_string (mm_payload m)) (\<lambda>str.
        let s = sub_event (Data_Line str) s in
        outcome_bind (client_mq_send (sb_kernel s) (sb_queue_id s) (mm_payload m) 10) (\<lambda>(r, k).
          print_payload m (s\<lparr>sb_kernel := k\<rparr>)))
      else Returns s)"

definition count_message :: "sub \<Rightarrow> sub" where
  "count_message s =
     (if cf_msg_count (sb_cfg s) > 0 then
        (let s = s\<lparr>sb_msg_count := sb_msg_count s + 1\<rparr> in
         if cf_msg_count (sb_cfg s) = sb_msg_count s
         then sub_event Sub_Disconnect (s\<lparr>sb_process_messages := False\<rparr>) else s)
      else s)"

definition my_message_callback :: "(string \<Rightarrow> string \<Rightarrow> bool) \<Rightarrow> mqtt_message \<Rightarrow> sub \<Rightarrow> sub outcome" where
  "my_message_callback matches m s =
     (if \<not> sb_process_messages s then Returns s
      else if mm_retain m \<and> cf_no_retain (sb_cfg s) then Returns s
      else if list_ex (\<lambda>f. matches f (mm_topic m)) (cf_filter_outs (sb_cfg s)) then Returns s
      else outcome_bind (print_message m s) (\<lambda>s. Returns (count_message s)))"

definition sub_connect_callback :: "int \<Rightarrow> sub \<Rightarrow> sub" where
  "sub_connect_callback result s =
     (if result = 0
      then s\<lparr>sb_events := sb_events s @ map (\<lambda>t. Subscribe t (cf_qos (sb_cfg s))) (cf_topics (sb_cfg s))\<rparr>
      else s)"

text \<open>\<open>granted_qos[0]\<close> is read whatever \<open>qos_count\<close> is.\<close>

definition my_subscribe_callback :: "int \<Rightarrow> int list \<Rightarrow> sub \<Rightarrow> sub outcome" where
  "my_subscribe_callback mid granted_qos s =
     (if cf_quiet (sb_cfg s) then Returns s
      else outcome_bind (load granted_qos 0) (\<lambda>q. Returns (sub_event (Subscribed_Line mid granted_qos) s)))"

lemma subscribed_without_topics:
  "\<not> cf_quiet (sb_cfg s) \<Longrightarrow> my_subscribe_callback mid [] s = Fault (Index_Range 0 0)"
  by (simp add: my_subscribe_callback_def load_def)

text \<open>The end of \<open>main\<close>: the exit code from what \<open>mosquitto_loop_forever\<close> returned;
  \<open>no_conn\<close> is \<open>MOSQ_ERR_NO_CONN\<close>.\<close>

definition sub_exit :: "int \<Rightarrow> int \<Rightarrow> sub \<Rightarrow> int" where
  "sub_exit no_conn rc s = (if cf_msg_count (sb_cfg s) > 0 \<and> rc = no_conn then 0 else rc)"

text \<open>Messages in a row.\<close>

primrec sub_messages :: "(string \<Rightarrow> string \<Rightarrow> bool) \<Rightarrow> mqtt_message list \<Rightarrow> sub \<Rightarrow> sub outcome" where
  "sub_messages matches [] s = Returns s"
| "sub_messages matches (m # ms) s = outcome_bind (my_message_callback matches m s) (sub_messages matches ms)"

subsection \<open>One message\<close>

definition wanted :: "(string \<Rightarrow> string \<Rightarrow> bool) \<Rightarrow> mosq_config \<Rightarrow> mqtt_message \<Rightarrow> bool" where
  "wanted matches cfg m \<longleftrightarrow> \<not> (mm_retain m \<and> cf_no_retain cfg) \<and>
     \<not> list_ex (\<lambda>f. matches f (mm_topic m)) (cf_filter_outs cfg)"

lemma callback_wanted:
  "my_message_callback matches m s =
     (if sb_process_messages s \<and> wanted matches (sb_cfg s) m
      then outcome_bind (print_message m s) (\<lambda>s. Returns (count_message s)) else Returns s)"
  by (simp add: my_message_callback_def wanted_def)

text \<open>A payload the library delivers: the bytes of the message, then a NUL at the latest at the end.\<close>

definition payload_ok :: "mqtt_message \<Rightarrow> bool" where
  "payload_ok m \<longleftrightarrow> mm_payloadlen m \<noteq> 0 \<and> mm_payloadlen m \<le> length (mm_payload m) \<and> 0 \<in> set (mm_payload m)"

lemma print_payload_keeps:
  "print_payload m s = Returns s' \<Longrightarrow>
   sb_cfg s' = sb_cfg s \<and> sb_kernel s' = sb_kernel s \<and> sb_queue_id s' = sb_queue_id s \<and>
   sb_msg_count s' = sb_msg_count s \<and> sb_process_messages s' = sb_process_messages s \<and>
   count_list (sb_events s') Sub_Disconnect = count_list (sb_events s) Sub_Disconnect"
  by (auto simp: print_payload_def copy_from_def sub_event_def Let_def split: if_splits)

lemma print_message_keeps:
  "print_message m s = Returns s' \<Longrightarrow>
   sb_cfg s' = sb_cfg s \<and> sb_queue_id s' = sb_queue_id s \<and>
   sb_msg_count s' = sb_msg_count s \<and> sb_process_messages s' = sb_process_messages s \<and>
   count_list (sb_events s') Sub_Disconnect = count_list (sb_events s) Sub_Disconnect \<and>
   (sb_kernel s' = sb_kernel s \<or>
    (\<exists>r. sys_mq_send CLIENT_MTEXT_SIZE (sb_kernel s) (sb_queue_id s) (mm_payload m) 10 = Returns (r, sb_kernel s')))"
  by (auto simp: print_message_def sub_event_def outcome_bind_eq_Returns split: if_splits
      dest!: print_payload_keeps)

lemma count_message_keeps:
  "sb_cfg (count_message s) = sb_cfg s \<and> sb_queue_id (count_message s) = sb_queue_id s \<and>
   sb_kernel (count_message s) = sb_kernel s"
  by (simp add: count_message_def sub_event_def Let_def)

lemma print_payload_returns:
  "payload_ok m \<Longrightarrow> \<exists>s'. print_payload m s = Returns s'"
  by (simp add: payload_ok_def print_payload_def Let_def)

lemma print_message_send:
  assumes "payload_ok m" "\<not> cf_verbose (sb_cfg s)"
  shows "(case sys_mq_send CLIENT_MTEXT_SIZE (sb_kernel s) (sb_queue_id s) (mm_payload m) 10 of
      Returns (r, k) \<Rightarrow> \<exists>s'. print_message m s = Returns s' \<and> sb_kernel s' = k
    | Blocks \<Rightarrow> print_message m s = Blocks
    | Fault e \<Rightarrow> print_message m s = Fault e)"
proof -
  obtain str where str: "c_string (mm_payload m) = Returns str" using assms(1) by (simp add: payload_ok_def c_string_def)
  show ?thesis
  proof (cases "sys_mq_send CLIENT_MTEXT_SIZE (sb_kernel s) (sb_queue_id s) (mm_payload m) 10")
    case (Returns rk)
    obtain r k where rk: "rk = (r, k)" by fastforce
    obtain s' where s': "print_payload m ((sub_event (Data_Line str) s)\<lparr>sb_kernel := k\<rparr>) = Returns s'"
      using print_payload_returns [OF assms(1)] by blast
    with Returns rk assms str show ?thesis
      using print_payload_keeps [OF s'] by (simp add: print_message_def payload_ok_def sub_event_def)
  qed (use assms str in \<open>simp_all add: print_message_def payload_ok_def sub_event_def\<close>)
qed

text \<open>What the subscriber hands on of a message, without \<open>-v\<close>: the first ten bytes behind the payload
  pointer, whatever the length of the message is.  A longer message is cut, and one whose
  object is shorter than ten bytes (a payload of fewer than nine bytes with its NUL) makes the
  copy into the queue read past it.\<close>

lemma payload_cut_to_ten:
  assumes "sb_process_messages s" "wanted matches (sb_cfg s) m" "payload_ok m"
    and "\<not> cf_verbose (sb_cfg s)" "contents (sb_kernel s) (sb_queue_id s) = Some ms"
    and "room CLIENT_MTEXT_SIZE (sb_kernel s) (sb_queue_id s) 1"
  shows "if length (mm_payload m) < 10
    then my_message_callback matches m s = Fault (Index_Range (length (mm_payload m)) 10)
    else \<exists>s'. my_message_callback matches m s = Returns s' \<and>
      contents (sb_kernel s') = (contents (sb_kernel s))(sb_queue_id s \<mapsto> ms @ [take 10 (mm_payload m)])"
proof (cases "length (mm_payload m) < 10")
  case True
  then have "sys_mq_send CLIENT_MTEXT_SIZE (sb_kernel s) (sb_queue_id s) (mm_payload m) 10 =
      Fault (Index_Range (length (mm_payload m)) 10)"
    by (simp add: sys_mq_send_def CLIENT_MTEXT_SIZE_def copy_from_def)
  with print_message_send [OF assms(3,4)] True assms(1,2) show ?thesis by (simp add: callback_wanted)
next
  case False
  obtain k where "sys_mq_send CLIENT_MTEXT_SIZE (sb_kernel s) (sb_queue_id s) (mm_payload m) 10 = Returns (0, k)"
    "contents k = (contents (sb_kernel s))(sb_queue_id s \<mapsto> ms @ [take 10 (mm_payload m)])"
    using send_appends [OF assms(5), of 10 CLIENT_MTEXT_SIZE "mm_payload m" 0] assms(6) False
    by (auto simp: CLIENT_MTEXT_SIZE_def)
  with print_message_send [OF assms(3,4)] False assms(1,2) count_message_keeps show ?thesis
    by (auto simp: callback_wanted)
qed


subsection \<open>Many messages\<close>

lemma callback_keeps:
  assumes "my_message_callback matches m s = Returns s'"
  shows "sb_cfg s' = sb_cfg s" "sb_queue_id s' = sb_queue_id s"
    "sb_kernel s' = sb_kernel s \<or>
     (\<exists>r. sys_mq_send CLIENT_MTEXT_SIZE (sb_kernel s) (sb_queue_id s) (mm_payload m) 10 = Returns (r, sb_kernel s'))"
proof -
  have "(sb_cfg s' = sb_cfg s \<and> sb_queue_id s' = sb_queue_id s \<and> (sb_kernel s' = sb_kernel s \<or>
     (\<exists>r. sys_mq_send CLIENT_MTEXT_SIZE (sb_kernel s) (sb_queue_id s) (mm_payload m) 10 = Returns (r, sb_kernel s'))))"
    using assms by (auto simp: callback_wanted outcome_bind_eq_Returns count_message_keeps
        dest!: print_message_keeps split: if_splits)
  then show "sb_cfg s' = sb_cfg s" "sb_queue_id s' = sb_queue_id s"
    "sb_kernel s' = sb_kernel s \<or>
     (\<exists>r. sys_mq_send CLIENT_MTEXT_SIZE (sb_kernel s) (sb_queue_id s) (mm_payload m) 10 = Returns (r, sb_kernel s'))"
    by blast+
qed

text \<open>A subscriber that was started without \<open>-v\<close> and \<open>-C\<close>, and messages it forwards.\<close>

definition forwarding :: "(string \<Rightarrow> string \<Rightarrow> bool) \<Rightarrow> sub \<Rightarrow> bool" where
  "forwarding matches s \<longleftrightarrow> sb_process_messages s \<and> \<not> cf_verbose (sb_cfg s) \<and> cf_msg_count (sb_cfg s) = 0"

definition forwarded :: "(string \<Rightarrow> string \<Rightarrow> bool) \<Rightarrow> mosq_config \<Rightarrow> mqtt_message \<Rightarrow> bool" where
  "forwarded matches cfg m \<longleftrightarrow> wanted matches cfg m \<and> payload_ok m \<and> 10 \<le> length (mm_payload m)"

lemma forward_one:
  assumes f: "forwarding matches s" and m: "forwarded matches (sb_cfg s) m"
    and q: "mq_msgs (sb_kernel s) (sb_queue_id s) = Some xs"
  shows "if queued_bytes xs + MQBUFSIZE CLIENT_MTEXT_SIZE \<le> mq_qbytes (sb_kernel s)
    then \<exists>s'. my_message_callback matches m s = Returns s' \<and> forwarding matches s' \<and> sb_cfg s' = sb_cfg s \<and>
      sb_queue_id s' = sb_queue_id s \<and> mq_qbytes (sb_kernel s') = mq_qbytes (sb_kernel s) \<and>
      mq_msgs (sb_kernel s') (sb_queue_id s') = Some (xs @
        [\<lparr>m_type = 1, m_size = MQBUFSIZE CLIENT_MTEXT_SIZE, m_length = 10, m_text = take 10 (mm_payload m)\<rparr>])
    else my_message_callback matches m s = Blocks"
proof -
  have send: "sys_mq_send CLIENT_MTEXT_SIZE (sb_kernel s) (sb_queue_id s) (mm_payload m) 10 =
      msgsnd (sb_kernel s) (sb_queue_id s) \<lparr>m_type = 1, m_size = MQBUFSIZE CLIENT_MTEXT_SIZE, m_length = 10,
        m_text = take 10 (mm_payload m)\<rparr>"
    using m by (simp add: sys_mq_send_def CLIENT_MTEXT_SIZE_def forwarded_def)
  have p: "payload_ok m" "\<not> cf_verbose (sb_cfg s)" using f m by (simp_all add: forwarding_def forwarded_def)
  show ?thesis
  proof (cases "queued_bytes xs + MQBUFSIZE CLIENT_MTEXT_SIZE \<le> mq_qbytes (sb_kernel s)")
    case True
    with print_message_send [OF p] send q obtain s1 where s1: "print_message m s = Returns s1"
      "sb_kernel s1 = (sb_kernel s)\<lparr>mq_msgs := (mq_msgs (sb_kernel s))(sb_queue_id s \<mapsto> xs @
        [\<lparr>m_type = 1, m_size = MQBUFSIZE CLIENT_MTEXT_SIZE, m_length = 10, m_text = take 10 (mm_payload m)\<rparr>])\<rparr>"
      by (auto simp: msgsnd_def)
    with True f m print_message_keeps [OF s1(1)] show ?thesis
      by (auto simp: callback_wanted forwarding_def forwarded_def count_message_def)
  next
    case False
    with print_message_send [OF p] send q f m show ?thesis
      by (simp add: msgsnd_def callback_wanted forwarding_def forwarded_def)
  qed
qed

lemma forward_many:
  assumes "forwarding matches s" "list_all (forwarded matches (sb_cfg s)) ms"
    and "mq_msgs (sb_kernel s) (sb_queue_id s) = Some xs" "queued_bytes xs \<le> mq_qbytes (sb_kernel s)"
  shows "if queued_bytes xs + length ms * MQBUFSIZE CLIENT_MTEXT_SIZE \<le> mq_qbytes (sb_kernel s)
    then \<exists>s'. sub_messages matches ms s = Returns s' \<and>
      contents (sb_kernel s') (sb_queue_id s) = Some (map m_text xs @ map (\<lambda>m. take 10 (mm_payload m)) ms)
    else sub_messages matches ms s = Blocks"
  using assms
proof (induction ms arbitrary: s xs)
  case Nil
  then show ?case by (simp add: contents_def)
next
  case (Cons m ms)
  show ?case
  proof (cases "queued_bytes xs + MQBUFSIZE CLIENT_MTEXT_SIZE \<le> mq_qbytes (sb_kernel s)")
    case True
    let ?x = "\<lparr>m_type = 1, m_size = MQBUFSIZE CLIENT_MTEXT_SIZE, m_length = 10, m_text = take 10 (mm_payload m)\<rparr>"
    from True forward_one [OF Cons.prems(1) _ Cons.prems(3), of m] Cons.prems(2)
    obtain s1 where s1: "my_message_callback matches m s = Returns s1" "forwarding matches s1" "sb_cfg s1 = sb_cfg s"
      "sb_queue_id s1 = sb_queue_id s" "mq_qbytes (sb_kernel s1) = mq_qbytes (sb_kernel s)"
      "mq_msgs (sb_kernel s1) (sb_queue_id s1) = Some (xs @ [?x])" by auto
    with Cons.IH [OF s1(2) _ s1(6)] Cons.prems(2) True show ?thesis
      by (auto simp: algebra_simps split: if_splits)
  next
    case False
    with forward_one [OF Cons.prems(1) _ Cons.prems(3), of m] Cons.prems(2) show ?thesis by simp
  qed
qed

text \<open>C28: Nothing in the repository reads the subscriber's queue, so it fills: from an empty queue, a row
  of messages is handled exactly as long as 40 bytes for each fit into the queue, every
  message queued as its first ten bytes; the next callback blocks in \<open>msgsnd\<close> and the client with
  it.\<close>

theorem subscriber_stalls:
  assumes "forwarding matches s" "list_all (forwarded matches (sb_cfg s)) ms"
    and "mq_msgs (sb_kernel s) (sb_queue_id s) = Some []"
  shows "if length ms * 40 \<le> mq_qbytes (sb_kernel s)
    then \<exists>s'. sub_messages matches ms s = Returns s' \<and>
      contents (sb_kernel s') (sb_queue_id s) = Some (map (\<lambda>m. take 10 (mm_payload m)) ms)
    else sub_messages matches ms s = Blocks"
proof -
  have "MQBUFSIZE CLIENT_MTEXT_SIZE = 40" by (simp add: MQBUFSIZE_def CLIENT_MTEXT_SIZE_def)
  with forward_many [OF assms] show ?thesis by (auto simp: queued_bytes_def split: if_splits)
qed


definition demo_sub :: sub where
  "demo_sub = sub_start empty_kernel init_config"

lemma demo_sub_queue:
  "mq_msgs (sb_kernel demo_sub) (sb_queue_id demo_sub) = Some []" "mq_qbytes (sb_kernel demo_sub) = 16384"
  "sb_queue_id demo_sub = 0" "sb_cfg demo_sub = init_config" "forwarding matches demo_sub"
  by (simp_all add: demo_sub_def sub_start_def sys_mq_init_def msgget_def empty_kernel_def forwarding_def
      init_config_def)

definition demo_mqtt :: mqtt_message where
  "demo_mqtt = \<lparr>mm_topic = ''led'', mm_payload = replicate 12 49 @ [0], mm_payloadlen = 12, mm_retain = False\<rparr>"

lemma demo_mqtt_forwarded: "forwarded matches init_config demo_mqtt"
  by (simp add: forwarded_def wanted_def payload_ok_def demo_mqtt_def)

lemma payload_cut_to_ten_witness:
  "\<exists>s'. my_message_callback (\<lambda>f t. False) demo_mqtt demo_sub = Returns s' \<and>
     contents (sb_kernel s') = (contents (sb_kernel demo_sub))(0 \<mapsto> [replicate 10 49])"
proof -
  have "sb_process_messages demo_sub" "\<not> cf_verbose (sb_cfg demo_sub)"
    using demo_sub_queue(5) by (simp_all add: forwarding_def)
  moreover have "wanted (\<lambda>f t. False) (sb_cfg demo_sub) demo_mqtt" "payload_ok demo_mqtt"
    using demo_mqtt_forwarded by (simp_all add: forwarded_def demo_sub_queue)
  moreover have "contents (sb_kernel demo_sub) (sb_queue_id demo_sub) = Some []"
    "room CLIENT_MTEXT_SIZE (sb_kernel demo_sub) (sb_queue_id demo_sub) 1"
    using demo_sub_queue(1,2) by (simp_all add: contents_def room_def queued_bytes_def MQBUFSIZE_def CLIENT_MTEXT_SIZE_def)
  moreover have "take 10 (mm_payload demo_mqtt) = replicate 10 49" "\<not> length (mm_payload demo_mqtt) < 10"
    by (simp_all add: demo_mqtt_def)
  ultimately show ?thesis
    using payload_cut_to_ten [of demo_sub "\<lambda>f t. False" demo_mqtt "[]"] by (simp add: demo_sub_queue(3))
qed

theorem subscriber_stalls_witness:
  "sub_messages (\<lambda>f t. False) (replicate 410 demo_mqtt) demo_sub = Blocks"
proof -
  have "list_all (forwarded (\<lambda>f t. False) (sb_cfg demo_sub)) (replicate 410 demo_mqtt)"
    using demo_mqtt_forwarded by (simp add: list_all_iff demo_sub_queue)
  from subscriber_stalls [OF demo_sub_queue(5) this demo_sub_queue(1)] show ?thesis
    by (simp add: demo_sub_queue)
qed

definition counted :: "sub \<Rightarrow> bool" where
  "counted s \<longleftrightarrow> sb_msg_count s \<le> cf_msg_count (sb_cfg s) \<and>
     (sb_process_messages s \<longleftrightarrow> sb_msg_count s < cf_msg_count (sb_cfg s)) \<and>
     count_list (sb_events s) Sub_Disconnect = (if sb_process_messages s then 0 else 1)"

lemma count_step:
  assumes "my_message_callback matches m s = Returns s'" "counted s" "0 < cf_msg_count (sb_cfg s)"
  shows "counted s' \<and> sb_cfg s' = sb_cfg s \<and>
    sb_msg_count s' = min (cf_msg_count (sb_cfg s)) (sb_msg_count s + (if wanted matches (sb_cfg s) m then 1 else 0))"
proof (cases "sb_process_messages s \<and> wanted matches (sb_cfg s) m")
  case False
  with assms show ?thesis by (auto simp: callback_wanted counted_def)
next
  case True
  with assms(1) obtain s1 where s1: "print_message m s = Returns s1" and s': "s' = count_message s1"
    by (auto simp: callback_wanted outcome_bind_eq_Returns)
  from print_message_keeps [OF s1] have k: "sb_cfg s1 = sb_cfg s" "sb_msg_count s1 = sb_msg_count s"
    "sb_process_messages s1 = sb_process_messages s"
    "count_list (sb_events s1) Sub_Disconnect = count_list (sb_events s) Sub_Disconnect" by simp_all
  show ?thesis using True assms(2,3) k unfolding s' by (auto simp: counted_def count_message_def sub_event_def Let_def)
qed

lemma count_many:
  assumes "sub_messages matches ms s = Returns s'" "counted s" "0 < cf_msg_count (sb_cfg s)"
  shows "counted s' \<and> sb_cfg s' = sb_cfg s \<and> sb_msg_count s' =
    min (cf_msg_count (sb_cfg s)) (sb_msg_count s + int (length (filter (wanted matches (sb_cfg s)) ms)))"
  using assms
proof (induction ms arbitrary: s)
  case Nil
  then show ?case by (simp add: counted_def)
next
  case (Cons m ms)
  from Cons.prems(1) obtain s1 where s1: "my_message_callback matches m s = Returns s1"
    and rest: "sub_messages matches ms s1 = Returns s'" by (auto simp: outcome_bind_eq_Returns)
  note st = count_step [OF s1 Cons.prems(2,3)]
  have "0 < cf_msg_count (sb_cfg s1)" using st Cons.prems(3) by simp
  with Cons.IH [OF rest] st show ?case by auto
qed

text \<open>The option \<open>-C n\<close>: whatever the messages are, the client counts the ones it does not filter
  out up to \<open>n\<close>, asks for the disconnection exactly once, at the \<open>n\<close>-th, and ignores what comes
  after it.\<close>

lemma count_option:
  assumes "sub_messages matches ms (sub_start k cfg) = Returns s" "0 < cf_msg_count cfg"
  shows "let n = int (length (filter (wanted matches cfg) ms)) in
    sb_msg_count s = min (cf_msg_count cfg) n \<and> (sb_process_messages s \<longleftrightarrow> n < cf_msg_count cfg) \<and>
    count_list (sb_events s) Sub_Disconnect = (if n < cf_msg_count cfg then 0 else 1)"
proof -
  have "counted (sub_start k cfg)" "sb_cfg (sub_start k cfg) = cfg" "sb_msg_count (sub_start k cfg) = 0"
    using assms(2) by (simp_all add: counted_def sub_start_def case_prod_beta)
  with count_many [OF assms(1)] assms(2) show ?thesis by (auto simp: counted_def Let_def min_def split: if_splits)
qed

definition quiet_message :: mqtt_message where
  "quiet_message = \<lparr>mm_topic = ''led'', mm_payload = [0], mm_payloadlen = 0, mm_retain = False\<rparr>"

lemma count_option_witness:
  "\<exists>s. sub_messages (\<lambda>f t. False) [quiet_message, quiet_message] (sub_start empty_kernel (init_config\<lparr>cf_msg_count := 1\<rparr>)) =
     Returns s \<and> sb_msg_count s = 1 \<and> \<not> sb_process_messages s \<and> count_list (sb_events s) Sub_Disconnect = 1"
proof -
  let ?s = "sub_start empty_kernel (init_config\<lparr>cf_msg_count := 1\<rparr>)"
  have w: "filter (wanted (\<lambda>f t. False) (init_config\<lparr>cf_msg_count := 1\<rparr>)) [quiet_message, quiet_message] =
      [quiet_message, quiet_message]"
    by (simp add: wanted_def quiet_message_def)
  have "\<exists>s'. my_message_callback f quiet_message s = Returns s'" for f s
    by (simp add: my_message_callback_def print_message_def quiet_message_def)
  then obtain s where s: "sub_messages (\<lambda>f t. False) [quiet_message, quiet_message] ?s = Returns s"
    by (metis sub_messages.simps outcome_bind.simps(1))
  from count_option [OF s] w have "sb_msg_count s = 1 \<and> \<not> sb_process_messages s \<and>
      count_list (sb_events s) Sub_Disconnect = 1" by (simp add: Let_def)
  with s show ?thesis by blast
qed

lemma send_others:
  "sys_mq_send cap k qid buf n = Returns (r, k') \<Longrightarrow> q \<noteq> qid \<Longrightarrow> mq_msgs k' q = mq_msgs k q"
  by (auto simp: sys_mq_send_def msgsnd_def outcome_bind_eq_Returns split: option.splits if_splits)

lemma sub_messages_queue:
  "sub_messages matches ms s = Returns s' \<Longrightarrow> q \<noteq> sb_queue_id s \<Longrightarrow>
   mq_msgs (sb_kernel s') q = mq_msgs (sb_kernel s) q"
proof (induction ms arbitrary: s)
  case (Cons m ms)
  from Cons.prems(1) obtain s1 where s1: "my_message_callback matches m s = Returns s1"
    and rest: "sub_messages matches ms s1 = Returns s'" by (auto simp: outcome_bind_eq_Returns)
  note k = callback_keeps [OF s1]
  have "mq_msgs (sb_kernel s1) q = mq_msgs (sb_kernel s) q"
    using k(3) send_others Cons.prems(2) by metis
  with Cons.IH [OF rest] k(2) Cons.prems(2) show ?case by simp
qed simp

text \<open>C27: The queue of the subscriber is not the one the scanner forwards from: the keys are 123456 and
  2004.  Whatever messages the subscriber receives, the queue of
  \<open>MESSAGE_SEND_TO_PEER_DEVICE_KEY\<close> keeps its messages, so no MQTT payload ever reaches
  \<open>Forward_MSG_Queue_Thread\<close>.\<close>

theorem payloads_never_forwarded:
  assumes "kernel_ok cap k" "mq_key k MESSAGE_SEND_TO_PEER_DEVICE_KEY = Some q"
    and "sub_messages matches ms (sub_start k cfg) = Returns s"
  shows "mq_msgs (sb_kernel s) q = mq_msgs k q"
proof -
  obtain qid k' where init: "sys_mq_init k SUB_QUEUE_KEY = (qid, k')" by fastforce
  have q: "0 \<le> q" "q < int (mq_next k)" using kernel_ok_keyD [OF assms(1,2)] by simp_all
  have "qid \<noteq> q" using init assms(1,2) q kernel_ok_injD [OF assms(1), of SUB_QUEUE_KEY q MESSAGE_SEND_TO_PEER_DEVICE_KEY]
    by (auto simp: sys_mq_init_def msgget_def SUB_QUEUE_KEY_def MESSAGE_SEND_TO_PEER_DEVICE_KEY_def Let_def
        split: option.splits if_splits)
  moreover have "mq_msgs k' q = mq_msgs k q"
    using init q by (auto simp: sys_mq_init_def msgget_def Let_def split: option.splits if_splits)
  moreover have "sb_queue_id (sub_start k cfg) = qid" "sb_kernel (sub_start k cfg) = k'"
    by (simp_all add: sub_start_def init)
  ultimately show ?thesis using sub_messages_queue [OF assms(3), of q] by simp
qed

theorem payloads_never_forwarded_witness:
  "\<exists>s. sub_messages (\<lambda>f t. False) [demo_mqtt] (sub_start (one_queue MESSAGE_SEND_TO_PEER_DEVICE_KEY) init_config) = Returns s \<and>
     mq_msgs (sb_kernel s) 0 = Some []"
proof -
  let ?k = "one_queue MESSAGE_SEND_TO_PEER_DEVICE_KEY" and ?f = "\<lambda>f t :: string. False"
  let ?s = "sub_start ?k init_config"
  have f: "forwarding ?f ?s" by (simp add: forwarding_def sub_start_def case_prod_beta init_config_def)
  have m: "list_all (forwarded ?f (sb_cfg ?s)) [demo_mqtt]"
    using demo_mqtt_forwarded by (simp add: sub_start_def case_prod_beta)
  have q: "mq_msgs (sb_kernel ?s) (sb_queue_id ?s) = Some []" "mq_qbytes (sb_kernel ?s) = 16384"
    by (simp_all add: sub_start_def one_queue_def sys_mq_init_def msgget_def empty_kernel_def
        SUB_QUEUE_KEY_def MESSAGE_SEND_TO_PEER_DEVICE_KEY_def)
  have "MQBUFSIZE CLIENT_MTEXT_SIZE = 40" by (simp add: MQBUFSIZE_def CLIENT_MTEXT_SIZE_def)
  with forward_many [OF f m q(1)] q(2) obtain s where s: "sub_messages ?f [demo_mqtt] ?s = Returns s"
    by (auto simp: queued_bytes_def)
  have "mq_key ?k MESSAGE_SEND_TO_PEER_DEVICE_KEY = Some 0" "mq_msgs ?k 0 = Some []"
    by (simp_all add: one_queue_eq)
  with payloads_never_forwarded [OF one_queue_ok _ s] s show ?thesis by fastforce
qed

end
