(* ===== verification/Mosq_Client.thy ===== *)
theory Mosq_Client
  imports Mosq_Config
begin

text \<open>
  The steps between the configuration and the event loop, shared by the two MQTT clients
  (\<open>mosquitto_client/client_shared.c\<close>): \<open>client_opts_set\<close>, \<open>client_id_generate\<close> and
  \<open>client_connect\<close>.  The functions of libmosquitto are calls that are recorded in order;
  what they return is the parameter \<open>lib\<close>.  Messages on \<open>stderr\<close> are left out.
\<close>

subsection \<open>Handing the options to the library\<close>

datatype lib_call =
    Will_Set string int "string option" int bool
  | Username_Pw_Set string "string option"
  | Tls_Set "string option" "string option" "string option" "string option"
  | Tls_Insecure_Set
  | Tls_Psk_Set string "string option"
  | Tls_Opts_Set "string option" "string option"
  | Max_Inflight_Set "32 word"
  | Socks5_Set "u8 list" int "u8 list option" "u8 list option"
  | Opts_Set_Protocol protocol
  | Connect_Srv chars int "string option"
  | Connect_Bind chars int int "string option"
  | Lib_Cleanup

text \<open>A guarded call that fails with \<open>return 1\<close>, after which \<open>rest\<close> follows.\<close>

definition guarded ::
    "(lib_call \<Rightarrow> int) \<Rightarrow> lib_call option \<Rightarrow> lib_call list \<times> int \<Rightarrow> lib_call list \<times> int" where
  "guarded lib call rest =
     (case call of
        None \<Rightarrow> rest
      | Some c \<Rightarrow> if lib c \<noteq> 0 then ([c, Lib_Cleanup], 1) else (c # fst rest, snd rest))"

definition will_call :: "mosq_config \<Rightarrow> lib_call option" where
  "will_call cfg = map_option (\<lambda>t. Will_Set t (cf_will_payloadlen cfg) (cf_will_payload cfg)
     (cf_will_qos cfg) (cf_will_retain cfg)) (cf_will_topic cfg)"

definition auth_call :: "mosq_config \<Rightarrow> lib_call option" where
  "auth_call cfg = map_option (\<lambda>u. Username_Pw_Set u (cf_password cfg)) (cf_username cfg)"

definition tls_call :: "mosq_config \<Rightarrow> lib_call option" where
  "tls_call cfg =
     (if cf_cafile cfg \<noteq> None \<or> cf_capath cfg \<noteq> None
      then Some (Tls_Set (cf_cafile cfg) (cf_capath cfg) (cf_certfile cfg) (cf_keyfile cfg)) else None)"

definition insecure_call :: "mosq_config \<Rightarrow> lib_call option" where
  "insecure_call cfg = (if cf_insecure cfg then Some Tls_Insecure_Set else None)"

definition psk_call :: "mosq_config \<Rightarrow> lib_call option" where
  "psk_call cfg = map_option (\<lambda>k. Tls_Psk_Set k (cf_psk_identity cfg)) (cf_psk cfg)"

definition tls_opts_call :: "mosq_config \<Rightarrow> lib_call option" where
  "tls_opts_call cfg =
     (if cf_tls_version cfg \<noteq> None \<or> cf_ciphers cfg \<noteq> None
      then Some (Tls_Opts_Set (cf_tls_version cfg) (cf_ciphers cfg)) else None)"

definition socks_call :: "mosq_config \<Rightarrow> lib_call option" where
  "socks_call cfg = map_option (\<lambda>s. Socks5_Set (socks5_host s) (socks5_port s) (socks5_username s)
     (socks5_password s)) (cf_socks cfg)"

definition client_opts_set :: "(lib_call \<Rightarrow> int) \<Rightarrow> mosq_config \<Rightarrow> lib_call list \<times> int" where
  "client_opts_set lib cfg =
     guarded lib (will_call cfg)
     (guarded lib (auth_call cfg)
     (guarded lib (tls_call cfg)
     (guarded lib (insecure_call cfg)
     (guarded lib (psk_call cfg)
     (guarded lib (tls_opts_call cfg)
     (let inflight = Max_Inflight_Set (cf_max_inflight cfg);
          protocol = Opts_Set_Protocol (cf_protocol_version cfg) in
      case socks_call cfg of
        None \<Rightarrow> ([inflight, protocol], 0)
      | Some c \<Rightarrow>
           if lib c \<noteq> 0 then ([inflight, c, Lib_Cleanup], lib c) else ([inflight, c, protocol], 0)))))))"

definition client_connect :: "(lib_call \<Rightarrow> int) \<Rightarrow> mosq_config \<Rightarrow> chars \<Rightarrow> lib_call list \<times> int" where
  "client_connect lib cfg host =
     (let c = (if cf_use_srv cfg then Connect_Srv host (cf_keepalive cfg) (cf_bind_address cfg)
               else Connect_Bind host (cf_port cfg) (cf_keepalive cfg) (cf_bind_address cfg)) in
      if lib c > 0 then ([c, Lib_Cleanup], lib c) else ([c], 0))"

text \<open>The calls the options ask for, in order, and a reference that makes them one by one: it
  stops at the first one that fails, cleans up and returns 1, or the library's own code for the
  proxy.  The two setters without a checked result never stop it.\<close>

definition opt_list :: "'a option \<Rightarrow> 'a list" where
  "opt_list x = (case x of None \<Rightarrow> [] | Some c \<Rightarrow> [c])"

definition wanted_calls :: "mosq_config \<Rightarrow> lib_call list" where
  "wanted_calls cfg =
     opt_list (will_call cfg) @ opt_list (auth_call cfg) @ opt_list (tls_call cfg) @
     opt_list (insecure_call cfg) @ opt_list (psk_call cfg) @ opt_list (tls_opts_call cfg) @
     [Max_Inflight_Set (cf_max_inflight cfg)] @ opt_list (socks_call cfg) @
     [Opts_Set_Protocol (cf_protocol_version cfg)]"

definition failure_code :: "(lib_call \<Rightarrow> int) \<Rightarrow> lib_call \<Rightarrow> int" where
  "failure_code lib c =
     (case c of
        Max_Inflight_Set n \<Rightarrow> 0 | Opts_Set_Protocol p \<Rightarrow> 0
      | Socks5_Set h p u w \<Rightarrow> lib c
      | _ \<Rightarrow> if lib c \<noteq> 0 then 1 else 0)"

primrec run_calls :: "(lib_call \<Rightarrow> int) \<Rightarrow> lib_call list \<Rightarrow> lib_call list \<times> int" where
  "run_calls lib [] = ([], 0)"
| "run_calls lib (c # cs) =
     (if failure_code lib c \<noteq> 0 then ([c, Lib_Cleanup], failure_code lib c)
      else (c # fst (run_calls lib cs), snd (run_calls lib cs)))"

lemma guarded_run:
  assumes "\<And>c. call = Some c \<Longrightarrow> failure_code lib c = (if lib c \<noteq> 0 then 1 else 0)"
  shows "guarded lib call (run_calls lib cs) = run_calls lib (opt_list call @ cs)"
  using assms by (cases call) (simp_all add: guarded_def opt_list_def)

lemma failure_codes:
  "will_call cfg = Some c \<Longrightarrow> failure_code lib c = (if lib c \<noteq> 0 then 1 else 0)"
  "auth_call cfg = Some c \<Longrightarrow> failure_code lib c = (if lib c \<noteq> 0 then 1 else 0)"
  "tls_call cfg = Some c \<Longrightarrow> failure_code lib c = (if lib c \<noteq> 0 then 1 else 0)"
  "insecure_call cfg = Some c \<Longrightarrow> failure_code lib c = (if lib c \<noteq> 0 then 1 else 0)"
  "psk_call cfg = Some c \<Longrightarrow> failure_code lib c = (if lib c \<noteq> 0 then 1 else 0)"
  "tls_opts_call cfg = Some c \<Longrightarrow> failure_code lib c = (if lib c \<noteq> 0 then 1 else 0)"
  by (auto simp: failure_code_def will_call_def auth_call_def tls_call_def insecure_call_def psk_call_def
      tls_opts_call_def split: if_splits)

lemma opts_set_run: "client_opts_set lib cfg = run_calls lib (wanted_calls cfg)"
proof -
  have tail: "(let inflight = Max_Inflight_Set (cf_max_inflight cfg);
          protocol = Opts_Set_Protocol (cf_protocol_version cfg) in
      case socks_call cfg of
        None \<Rightarrow> ([inflight, protocol], 0)
      | Some c \<Rightarrow>
           if lib c \<noteq> 0 then ([inflight, c, Lib_Cleanup], lib c) else ([inflight, c, protocol], 0)) =
    run_calls lib ([Max_Inflight_Set (cf_max_inflight cfg)] @ opt_list (socks_call cfg) @
      [Opts_Set_Protocol (cf_protocol_version cfg)])"
    by (cases "cf_socks cfg") (simp_all add: socks_call_def opt_list_def failure_code_def)
  show ?thesis
    unfolding client_opts_set_def wanted_calls_def tail
    by (simp only: guarded_run failure_codes)
qed

text \<open>Independently of the helpers above: which calls a configuration asks for, call by call, and the
  order they have to come in (the proxy before the protocol version, the credentials before TLS).\<close>

primrec asked :: "mosq_config \<Rightarrow> lib_call \<Rightarrow> bool" where
  "asked cfg (Will_Set t n w q r) \<longleftrightarrow> cf_will_topic cfg = Some t \<and> n = cf_will_payloadlen cfg \<and>
     w = cf_will_payload cfg \<and> q = cf_will_qos cfg \<and> (r \<longleftrightarrow> cf_will_retain cfg)"
| "asked cfg (Username_Pw_Set u w) \<longleftrightarrow> cf_username cfg = Some u \<and> cf_password cfg = w"
| "asked cfg (Tls_Set ca dir cert key) \<longleftrightarrow> \<not> (ca = None \<and> dir = None) \<and> cf_cafile cfg = ca \<and> cf_capath cfg = dir \<and>
     cf_certfile cfg = cert \<and> cf_keyfile cfg = key"
| "asked cfg Tls_Insecure_Set \<longleftrightarrow> cf_insecure cfg"
| "asked cfg (Tls_Psk_Set k i) \<longleftrightarrow> cf_psk cfg = Some k \<and> cf_psk_identity cfg = i"
| "asked cfg (Tls_Opts_Set v c) \<longleftrightarrow> \<not> (v = None \<and> c = None) \<and> cf_tls_version cfg = v \<and> cf_ciphers cfg = c"
| "asked cfg (Max_Inflight_Set n) \<longleftrightarrow> cf_max_inflight cfg = n"
| "asked cfg (Socks5_Set h p u w) \<longleftrightarrow> (\<exists>s. cf_socks cfg = Some s \<and> socks5_host s = h \<and> socks5_port s = p \<and>
     socks5_username s = u \<and> socks5_password s = w)"
| "asked cfg (Opts_Set_Protocol v) \<longleftrightarrow> cf_protocol_version cfg = v"
| "asked cfg (Connect_Srv h k b) \<longleftrightarrow> False"
| "asked cfg (Connect_Bind h p k b) \<longleftrightarrow> False"
| "asked cfg Lib_Cleanup \<longleftrightarrow> False"

primrec call_rank :: "lib_call \<Rightarrow> nat" where
  "call_rank (Will_Set t n w q r) = 0"
| "call_rank (Username_Pw_Set u w) = 1"
| "call_rank (Tls_Set ca dir cert key) = 2"
| "call_rank Tls_Insecure_Set = 3"
| "call_rank (Tls_Psk_Set k i) = 4"
| "call_rank (Tls_Opts_Set v c) = 5"
| "call_rank (Max_Inflight_Set n) = 6"
| "call_rank (Socks5_Set h p u w) = 7"
| "call_rank (Opts_Set_Protocol v) = 8"
| "call_rank (Connect_Srv h k b) = 9"
| "call_rank (Connect_Bind h p k b) = 9"
| "call_rank Lib_Cleanup = 10"

lemma opt_list_set [simp]: "set (opt_list x) = set_option x"
  by (cases x) (simp_all add: opt_list_def)

lemmas call_defs = will_call_def auth_call_def tls_call_def insecure_call_def psk_call_def tls_opts_call_def
  socks_call_def

lemma wanted_calls_asked: "set (wanted_calls cfg) = {c. asked cfg c}"
proof -
  have "c \<in> set (wanted_calls cfg) \<longleftrightarrow> asked cfg c" for c
    by (cases c) (auto simp: wanted_calls_def call_defs split: if_splits)
  then show ?thesis by blast
qed

lemma wanted_calls_order: "sorted_wrt (\<lambda>a b. call_rank a < call_rank b) (wanted_calls cfg)"
proof -
  have one: "sorted_wrt R (opt_list x)" for R and x :: "lib_call option" by (cases x) (simp_all add: opt_list_def)
  show ?thesis unfolding wanted_calls_def
    by (simp only: sorted_wrt_append one) (auto simp: call_defs split: if_splits)
qed

text \<open>C40: \<open>client_opts_set\<close> makes exactly the calls the configuration asks for (\<open>asked\<close>: each with the
  options it takes, and none when the options that call for it are missing), once each and in the one
  order of \<open>call_rank\<close>, up to the first that fails; that one is followed by \<open>mosquitto_lib_cleanup\<close>
  and nothing else, and the value returned is nonzero.\<close>

theorem opts_set_calls:
  "\<exists>cs. client_opts_set lib cfg = run_calls lib cs \<and> set cs = {c. asked cfg c} \<and>
     sorted_wrt (\<lambda>a b. call_rank a < call_rank b) cs"
  by (intro exI [of _ "wanted_calls cfg"] conjI opts_set_run wanted_calls_asked wanted_calls_order)


subsection \<open>The client id\<close>

definition decimal_string :: "int \<Rightarrow> string" where
  "decimal_string i = map (\<lambda>b. char_of (unat b)) (decimal i)"

text \<open>\<open>snprintf\<close> of a text into \<open>n\<close> bytes.\<close>

definition snprintf :: "nat \<Rightarrow> string \<Rightarrow> string" where
  "snprintf n s = take (n - 1) s"

text \<open>\<open>hostname\<close> is what \<open>gethostname\<close> stored.  The source's comment gives 23 as the value of
  \<open>MOSQ_MQTT_ID_MAX_LENGTH\<close>.\<close>

definition MOSQ_MQTT_ID_MAX_LENGTH :: nat where
  "MOSQ_MQTT_ID_MAX_LENGTH = 23"

definition client_id_generate :: "mosq_config \<Rightarrow> string \<Rightarrow> int \<Rightarrow> string \<Rightarrow> mosq_config" where
  "client_id_generate cfg id_base pid hostname =
     (case cf_id_prefix cfg of
        Some prefix \<Rightarrow> cfg\<lparr>cf_id := Some (snprintf (length prefix + 10) (prefix @ decimal_string pid))\<rparr>
      | None \<Rightarrow>
          (case cf_id cfg of
             Some i \<Rightarrow> cfg
           | None \<Rightarrow>
               (let hostname = take 255 hostname;
                    len = length id_base + 2 + 6 + length hostname;
                    i = snprintf len (id_base @ ''|'' @ decimal_string pid @ ''-'' @ hostname) in
                cfg\<lparr>cf_id := Some (if length i > MOSQ_MQTT_ID_MAX_LENGTH
                     then take MOSQ_MQTT_ID_MAX_LENGTH i else i)\<rparr>)))"

lemma decimal_string_length:
  assumes "0 \<le> pid" "pid < 10 ^ k" "0 < k"
  shows "length (decimal_string pid) \<le> k"
proof -
  have "nat pid < 10 ^ k" using assms by (metis nat_less_iff of_nat_numeral of_nat_power)
  with assms decimal_nat_length show ?thesis by (simp add: decimal_string_def decimal_def)
qed

lemma generated_id:
  assumes "cf_id_prefix cfg = None" "cf_id cfg = None" "length hostname \<le> 255"
  shows "cf_id (client_id_generate cfg id_base pid hostname) =
    Some (take 23 (take (length id_base + 7 + length hostname)
      (id_base @ ''|'' @ decimal_string pid @ ''-'' @ hostname)))"
proof -
  have cut: "(if n < length i then take n i else i) = take n i" for n and i :: string by simp
  have "length id_base + 2 + 6 + length hostname - 1 = length id_base + 7 + length hostname" by simp
  with assms show ?thesis
    by (simp only: client_id_generate_def snprintf_def MOSQ_MQTT_ID_MAX_LENGTH_def Let_def cut option.case
        take_all) simp
qed

text \<open>The client always has an id after \<open>client_id_generate\<close>.  With a prefix it is the prefix
  followed by the process id; without one it is \<open>base|pid-host\<close> cut to 23 characters, and the
  buffer, which has room for a process id of five digits, loses nothing more.\<close>

lemma id_generated:
  assumes "0 \<le> pid" "pid < 100000" "length hostname \<le> 255"
  shows "cf_id (client_id_generate cfg id_base pid hostname) =
    (case cf_id_prefix cfg of
       Some prefix \<Rightarrow> Some (prefix @ decimal_string pid)
     | None \<Rightarrow>
         (case cf_id cfg of
            Some i \<Rightarrow> Some i
          | None \<Rightarrow> Some (take 23 (id_base @ ''|'' @ decimal_string pid @ ''-'' @ hostname))))"
proof -
  have len: "length (decimal_string pid) \<le> 5"
    using assms(1,2) by (intro decimal_string_length) simp_all
  show ?thesis
  proof (cases "cf_id_prefix cfg")
    case (Some prefix)
    with len show ?thesis by (simp add: client_id_generate_def snprintf_def)
  next
    case None
    with len assms(3) show ?thesis
      by (cases "cf_id cfg") (simp_all add: generated_id, simp add: client_id_generate_def)
  qed
qed

lemma id_generated_witness:
  "cf_id (client_id_generate init_config ''mosqsub'' 7 ''pi'') = Some ''mosqsub|7-pi''"
proof -
  have "decimal_string 7 = ''7''" by code_simp
  then show ?thesis using id_generated [of 7 "''pi''" init_config "''mosqsub''"] by simp
qed

end
