(* ===== verification/Mosq_Main.thy ===== *)
theory Mosq_Main
  imports Pub_Loop Mosq_Sub Mosq_Client
begin

text \<open>
  \<open>main\<close> of the two MQTT clients (\<open>pub_client.c\<close>, \<open>sub_client.c\<close>) up to their event loops and
  after them, and where they look for the default configuration file (\<open>client_shared.c\<close>): the parts of
  \<open>Mosq_Config\<close>, \<open>Mosq_Client\<close>, \<open>Mosq_Pub\<close> and \<open>Mosq_Sub\<close> put together.  What the programs
  find outside is a record: the environment variables, the files, standard input, the process
  id, the host name, and what libmosquitto answers.  Printing is left out.  The loop itself is in
  \<open>Mosq_Pub\<close> and \<open>Pub_Loop\<close> for the publisher, and the library's for the subscriber.
\<close>

subsection \<open>What the programs find\<close>

record surroundings =
  env_xdg :: "string option"                      \<comment> \<open>\<open>getenv("XDG_CONFIG_HOME")\<close>\<close>
  env_home :: "string option"                     \<comment> \<open>\<open>getenv("HOME")\<close>\<close>
  env_conf :: "string \<Rightarrow> string list option"      \<comment> \<open>what \<open>fgets\<close> delivers from a file that can be opened\<close>
  env_files :: "string \<Rightarrow> (int \<times> string) option"  \<comment> \<open>the files \<open>-f\<close> can name, as \<open>load_file\<close> sees them\<close>
  env_stdin :: string
  env_pid :: int
  env_hostname :: string
  env_checks :: topic_checks
  env_new :: bool                                  \<comment> \<open>\<open>mosquitto_new\<close> succeeds\<close>
  env_lib :: "lib_call \<Rightarrow> int"

text \<open>The path of the default configuration file, formatted into a buffer of its length and one.\<close>

definition default_conf :: "client \<Rightarrow> string option \<Rightarrow> string option \<Rightarrow> string option" where
  "default_conf who xdg home =
     (case xdg of
        Some env \<Rightarrow>
          Some (snprintf (length env + length ''/mosquitto_pub'' + 1)
            (if who = CLIENT_PUB then env @ ''/mosquitto_pub'' else env @ ''/mosquitto_sub''))
      | None \<Rightarrow>
          (case home of
             Some env \<Rightarrow>
               Some (snprintf (length env + length ''/.config/mosquitto_pub'' + 1)
                 (if who = CLIENT_PUB then env @ ''/.config/mosquitto_pub'' else env @ ''/.config/mosquitto_sub''))
           | None \<Rightarrow> None))"

text \<open>Nothing of the path is cut off.\<close>

lemma default_conf_whole:
  "default_conf who xdg home =
     map_option (\<lambda>dir. dir @ (if who = CLIENT_PUB then ''/mosquitto_pub'' else ''/mosquitto_sub''))
       (case xdg of Some env \<Rightarrow> Some env | None \<Rightarrow> map_option (\<lambda>env. env @ ''/.config'') home)"
  by (auto simp: default_conf_def snprintf_def split: option.splits)

definition load_config :: "surroundings \<Rightarrow> client \<Rightarrow> string list \<Rightarrow> (mosq_config \<times> int) outcome" where
  "load_config e who argv =
     client_config_load (env_checks e) who
       (Option.bind (default_conf who (env_xdg e) (env_home e)) (env_conf e)) argv"


subsection \<open>The two programs\<close>

datatype main_call =
    Queue_Init int
  | Cleanup_Config
  | Lib_Init
  | Client_New "string option" bool     \<comment> \<open>id, clean session\<close>
  | Set_Callback string
  | Lib lib_call
  | Loop_Start
  | Loop_Stop
  | Free_Message
  | Client_Destroy

datatype 'a main_result = Main_Exit int | Main_Loop 'a

text \<open>The options did not load: the configuration is freed.\<close>

definition bad_options :: "mosq_config \<Rightarrow> (main_call list \<times> 'a main_result) outcome" where
  "bad_options cfg = outcome_bind (client_config_cleanup cfg) (\<lambda>_. Returns ([Cleanup_Config], Main_Exit 1))"

definition pub_connect :: "surroundings \<Rightarrow> mosq_config \<Rightarrow> pub \<Rightarrow> main_call list \<times> pub main_result" where
  "pub_connect e cfg p =
     (let cfg = client_id_generate cfg ''mosqpub'' (env_pid e) (env_hostname e);
          created = [Lib_Init, Client_New (cf_id cfg) True] in
      if \<not> env_new e then (created @ [Lib Lib_Cleanup], Main_Exit 1)
      else
        let calls = created @ (if cf_debug cfg then [Set_Callback ''log''] else []) @
              [Set_Callback ''connect'', Set_Callback ''disconnect'', Set_Callback ''publish''];
            (opts, rc) = client_opts_set (env_lib e) cfg;
            calls = calls @ map Lib opts in
        if rc \<noteq> 0 then (calls, Main_Exit 1)
        else
          let (conn, rc) = client_connect (env_lib e) cfg (the (cf_host cfg));
              calls = calls @ map Lib conn in
          if rc \<noteq> 0 then (calls, Main_Exit rc)
          else (calls @ (if pb_mode p = MSGMODE_STDIN_LINE then [Loop_Start] else []), Main_Loop p))"

text \<open>\<open>None\<close>: \<open>load_file\<close> does not return.\<close>

definition pub_main :: "surroundings \<Rightarrow> string list \<Rightarrow> (main_call list \<times> pub main_result) outcome option" where
  "pub_main e argv =
     (case load_config e CLIENT_PUB argv of
        Fault f \<Rightarrow> Some (Fault f)
      | Blocks \<Rightarrow> Some Blocks
      | Returns (cfg, rc) \<Rightarrow>
          if rc \<noteq> 0 then Some (bad_options cfg)
          else
            (case pub_setup cfg (Option.bind (cf_file_input cfg) (env_files e)) (pub_globals (env_stdin e)) of
               None \<Rightarrow> None
             | Some (rc, p) \<Rightarrow>
                 if rc \<noteq> 0 then Some (Returns ([], Main_Exit 1)) else Some (Returns (pub_connect e cfg p))))"

definition sub_main :: "surroundings \<Rightarrow> kernel \<Rightarrow> string list \<Rightarrow> (main_call list \<times> sub main_result) outcome" where
  "sub_main e k argv =
     outcome_bind (load_config e CLIENT_SUB argv) (\<lambda>(cfg, rc).
       if rc \<noteq> 0 then
         outcome_bind (bad_options cfg) (\<lambda>(calls, r). Returns (Queue_Init SUB_QUEUE_KEY # calls, r))
       else
         let cfg = client_id_generate cfg ''mosqsub'' (env_pid e) (env_hostname e);
             calls = [Queue_Init SUB_QUEUE_KEY, Lib_Init, Client_New (cf_id cfg) (cf_clean_session cfg)] in
         if \<not> env_new e then Returns (calls @ [Lib Lib_Cleanup], Main_Exit 1)
         else
           let (opts, rc) = client_opts_set (env_lib e) cfg;
               calls = calls @ map Lib opts in
           if rc \<noteq> 0 then Returns (calls, Main_Exit 1)
           else
             let calls = calls @
                   (if cf_debug cfg then [Set_Callback ''log'', Set_Callback ''subscribe''] else []) @
                   [Set_Callback ''connect'', Set_Callback ''message''];
                 (conn, rc) = client_connect (env_lib e) cfg (the (cf_host cfg));
                 calls = calls @ map Lib conn in
             if rc \<noteq> 0 then Returns (calls, Main_Exit rc)
             else Returns (calls, Main_Loop (sub_start k cfg)))"

text \<open>The ends of the two programs after their loops; \<open>no_conn\<close> is \<open>MOSQ_ERR_NO_CONN\<close>.\<close>

definition pub_end :: "pub \<Rightarrow> int \<Rightarrow> main_call list \<times> int" where
  "pub_end p rc =
     ((if pb_mode p = MSGMODE_STDIN_LINE then [Loop_Stop] else []) @
      (if pb_message p \<noteq> None \<and> pb_mode p = MSGMODE_FILE then [Free_Message] else []) @
      [Client_Destroy, Lib Lib_Cleanup], rc)"

definition sub_end :: "int \<Rightarrow> int \<Rightarrow> sub \<Rightarrow> main_call list \<times> int" where
  "sub_end no_conn rc s = ([Client_Destroy, Lib Lib_Cleanup], sub_exit no_conn rc s)"

subsection \<open>How the programs end\<close>

lemma run_calls_done: "run_calls lib cs = (calls, 0) \<Longrightarrow> calls = cs"
  by (induction cs arbitrary: calls) (auto simp: prod_eq_iff split: if_splits)

lemma run_calls_failed:
  "run_calls lib cs = (calls, rc) \<Longrightarrow> rc \<noteq> 0 \<Longrightarrow> Lib_Cleanup \<notin> set cs \<Longrightarrow>
   \<exists>front. calls = front @ [Lib_Cleanup] \<and> Lib_Cleanup \<notin> set front"
proof (induction cs arbitrary: calls)
  case (Cons c cs)
  show ?case
  proof (cases "failure_code lib c = 0")
    case True
    with Cons.prems obtain more where m: "run_calls lib cs = (more, rc)" "calls = c # more"
      by (cases "run_calls lib cs") auto
    with Cons.IH [OF m(1)] Cons.prems(2,3) obtain front where "more = front @ [Lib_Cleanup]" "Lib_Cleanup \<notin> set front"
      by auto
    with m(2) Cons.prems(3) show ?thesis by (intro exI [of _ "c # front"]) simp
  next
    case False
    with Cons.prems show ?thesis by (intro exI [of _ "[c]"]) simp
  qed
qed simp

lemma wanted_calls_no_cleanup: "Lib_Cleanup \<notin> set (wanted_calls cfg)"
  by (auto simp: wanted_calls_def opt_list_def will_call_def auth_call_def tls_call_def insecure_call_def
      psk_call_def tls_opts_call_def socks_call_def split: option.splits if_splits)

text \<open>A run of library calls that is complete, or failed and was cleaned up.\<close>

definition cleaned :: "lib_call list \<Rightarrow> bool" where
  "cleaned calls \<longleftrightarrow> (\<exists>front. calls = front @ [Lib_Cleanup] \<and> Lib_Cleanup \<notin> set front)"

lemma opts_set_cleaned:
  "client_opts_set lib cfg = (calls, rc) \<Longrightarrow>
   if rc = 0 then calls = wanted_calls cfg \<and> Lib_Cleanup \<notin> set calls else cleaned calls"
  using run_calls_done [of lib "wanted_calls cfg" calls] run_calls_failed [of lib "wanted_calls cfg" calls rc]
  by (auto simp: opts_set_run cleaned_def wanted_calls_no_cleanup)

lemma connect_cleaned:
  "client_connect lib cfg h = (calls, rc) \<Longrightarrow>
   if rc = 0 then \<exists>c. calls = [c] \<and> c \<noteq> Lib_Cleanup else cleaned calls"
  by (auto simp: client_connect_def cleaned_def Let_def split: if_splits)

definition inits :: "main_call list \<Rightarrow> nat" where
  "inits calls = count_list calls Lib_Init"

definition cleanups :: "main_call list \<Rightarrow> nat" where
  "cleanups calls = count_list calls (Lib Lib_Cleanup)"

lemma inits_simps [simp]:
  "inits [] = 0" "inits (c # cs) = (if c = Lib_Init then 1 else 0) + inits cs"
  "inits (cs @ ds) = inits cs + inits ds" "inits (map Lib ls) = 0"
  by (simp_all add: inits_def) (induction ls, simp_all)

lemma cleanups_simps [simp]:
  "cleanups [] = 0" "cleanups (c # cs) = (if c = Lib Lib_Cleanup then 1 else 0) + cleanups cs"
  "cleanups (cs @ ds) = cleanups cs + cleanups ds"
  by (simp_all add: cleanups_def)

lemma cleanups_none: "Lib_Cleanup \<notin> set ls \<Longrightarrow> cleanups (map Lib ls) = 0"
  by (induction ls) auto

lemma cleanups_one: "cleaned ls \<Longrightarrow> cleanups (map Lib ls) = 1"
  by (auto simp: cleaned_def cleanups_none)

lemmas counting = cleanups_none cleanups_one wanted_calls_no_cleanup

text \<open>An end of \<open>main\<close> before its loop: an error code, and the library cleaned up when it was
  initialised; and the way into the loop.\<close>

definition failed_end :: "main_call list \<Rightarrow> int \<Rightarrow> bool" where
  "failed_end calls rc \<longleftrightarrow> rc \<noteq> 0 \<and> inits calls \<le> 1 \<and> cleanups calls = inits calls"

definition in_loop :: "main_call list \<Rightarrow> bool" where
  "in_loop calls \<longleftrightarrow> inits calls = 1 \<and> cleanups calls = 0"

primrec ends_well :: "main_call list \<Rightarrow> 'a main_result \<Rightarrow> bool" where
  "ends_well calls (Main_Exit rc) = failed_end calls rc"
| "ends_well calls (Main_Loop p) = in_loop calls"

lemma pub_connect_ends: "pub_connect e cfg p = (calls, r) \<Longrightarrow> ends_well calls r \<and> (r = Main_Loop p \<or> (\<exists>rc. r = Main_Exit rc))"
proof -
  assume r: "pub_connect e cfg p = (calls, r)"
  define c where "c = client_id_generate cfg ''mosqpub'' (env_pid e) (env_hostname e)"
  obtain opts orc where o: "client_opts_set (env_lib e) c = (opts, orc)" by fastforce
  obtain conn crc where n: "client_connect (env_lib e) c (the (cf_host c)) = (conn, crc)" by fastforce
  from opts_set_cleaned [OF o] connect_cleaned [OF n] r show ?thesis
    unfolding pub_connect_def Let_def c_def [symmetric] o n
    by (auto simp: failed_end_def in_loop_def counting split: if_splits)
qed

lemma bad_options_ends:
  assumes "load_config e who argv = Returns (cfg, rc)" "rc \<noteq> 0"
  shows "bad_options cfg = Returns ([Cleanup_Config], Main_Exit 1)"
  using config_cleanup_safe [OF assms(1) [unfolded load_config_def]] assms(2) by (simp add: bad_options_def)

text \<open>Undefined behaviour in loading the options: a line of the file with nothing but its end.\<close>

definition blank :: "string \<Rightarrow> bool" where
  "blank l \<longleftrightarrow> list_all (\<lambda>c. c = CHR 0x0A \<or> c = CHR 0x0D) l"

lemma strip_eol_result:
  "case strip_eol line of Returns x \<Rightarrow> \<not> blank line | Blocks \<Rightarrow> False | Fault f \<Rightarrow> blank line"
proof (induction line rule: strip_eol.induct)
  case (1 line)
  show ?case
  proof (cases "line = []")
    case True
    then show ?thesis by (subst strip_eol.simps) (simp add: blank_def)
  next
    case False
    then have "blank line \<longleftrightarrow> blank (butlast line) \<and> (last line = CHR 0x0A \<or> last line = CHR 0x0D)"
      by (cases line rule: rev_cases) (auto simp: blank_def)
    moreover have "strip_eol line = (if last line = CHR 0x0A \<or> last line = CHR 0x0D
        then strip_eol (butlast line) else Returns line)"
      using False by (simp add: strip_eol.simps [of line])
    ultimately show ?thesis using False 1
      by (cases "last line = CHR 0x0A \<or> last line = CHR 0x0D") (auto split: outcome.splits)
  qed
qed

lemma config_lines_result:
  "case config_lines lib who cfg ls of Returns x \<Rightarrow> True | Blocks \<Rightarrow> False | Fault f \<Rightarrow> list_ex blank ls"
proof (induction ls arbitrary: cfg)
  case (Cons line ls)
  have rest: "case config_lines lib who c ls of Returns x \<Rightarrow> True | Blocks \<Rightarrow> False
      | Fault f \<Rightarrow> list_ex blank (line # ls)" for c
    using Cons.IH [of c] by (auto split: outcome.splits)
  show ?case
  proof (cases "line \<noteq> [] \<and> hd line = CHR ''#''")
    case True
    with rest show ?thesis by simp
  next
    case False
    show ?thesis
    proof (cases "strip_eol line")
      case (Returns l)
      with False rest show ?thesis by (auto simp: Let_def split: list.split prod.split)
    qed (use False strip_eol_result [of line] in \<open>auto\<close>)
  qed
qed simp

lemma load_config_result:
  "case load_config e who argv of
     Returns x \<Rightarrow> True
   | Blocks \<Rightarrow> False
   | Fault f \<Rightarrow> (\<exists>path ls. default_conf who (env_xdg e) (env_home e) = Some path \<and> env_conf e path = Some ls \<and>
       list_ex blank ls)"
proof -
  define checked where "checked = (\<lambda>(cfg, rc).
      if rc \<noteq> 0 then Returns (cfg, rc) else
        (let (cfg, rc) = client_config_line_proc (env_checks e) who cfg argv in
         if rc \<noteq> 0 then Returns (cfg, rc)
         else if \<not> config_checks who cfg then Returns (cfg, 1)
         else if cf_host cfg = None then Returns (cfg\<lparr>cf_host := Some (Literal ''localhost'')\<rparr>, 0)
         else Returns (cfg, 0)))"
  have "\<forall>x. \<exists>y. checked x = Returns y"
    by (simp add: checked_def split_beta Let_def)
  then obtain f where f: "checked x = Returns (f x)" for x by (metis (no_types))
  let ?conf = "Option.bind (default_conf who (env_xdg e) (env_home e)) (env_conf e)"
  have load: "load_config e who argv = outcome_bind
      (case ?conf of None \<Rightarrow> Returns (init_config, 0) | Some ls \<Rightarrow> config_lines (env_checks e) who init_config ls) checked"
    by (simp add: load_config_def client_config_load_def checked_def)
  show ?thesis
  proof (cases ?conf)
    case None
    then show ?thesis unfolding load by (simp add: f)
  next
    case (Some ls)
    then obtain path where "default_conf who (env_xdg e) (env_home e) = Some path" "env_conf e path = Some ls"
      by (auto simp: bind_eq_Some_conv)
    moreover have "case config_lines (env_checks e) who init_config ls of
        Returns x \<Rightarrow> True | Blocks \<Rightarrow> False | Fault f \<Rightarrow> list_ex blank ls"
      by (rule config_lines_result)
    ultimately show ?thesis unfolding load Some
      by (cases "config_lines (env_checks e) who init_config ls") (simp_all add: f)
  qed
qed

lemma setup_returns:
  "pub_setup cfg file (pub_globals input) = None \<Longrightarrow>
   \<exists>sz content. file = Some (sz, content) \<and> int (length content) < sz"
  by (auto simp: pub_setup_def load_file_def read_file_iff Let_def pub_globals_def bind_eq_None_conv
      split: if_splits option.splits prod.splits)

text \<open>The subscriber the same, and its loop starts with the queue and the options.\<close>

lemma sub_main_outcomes:
  "case sub_main e k argv of
     Fault f \<Rightarrow> \<exists>path ls. default_conf CLIENT_SUB (env_xdg e) (env_home e) = Some path \<and>
       env_conf e path = Some ls \<and> list_ex blank ls
   | Blocks \<Rightarrow> False
   | Returns (calls, r) \<Rightarrow> ends_well calls r \<and> hd calls = Queue_Init SUB_QUEUE_KEY"
proof (cases "load_config e CLIENT_SUB argv")
  case (Returns x)
  obtain cfg rc where x: "x = (cfg, rc)" by fastforce
  show ?thesis
  proof (cases "rc = 0")
    case False
    with Returns show ?thesis
      by (simp add: sub_main_def x failed_end_def bad_options_ends [OF Returns [unfolded x]])
  next
    case True
    define c where "c = client_id_generate cfg ''mosqsub'' (env_pid e) (env_hostname e)"
    obtain opts orc where o: "client_opts_set (env_lib e) c = (opts, orc)" by fastforce
    obtain conn crc where n: "client_connect (env_lib e) c (the (cf_host c)) = (conn, crc)" by fastforce
    from opts_set_cleaned [OF o] connect_cleaned [OF n] Returns True show ?thesis
      by (auto simp: sub_main_def x Let_def c_def [symmetric] o n failed_end_def in_loop_def counting)
  qed
qed (use load_config_result [where e = e and who = CLIENT_SUB and argv = argv] in \<open>simp_all add: sub_main_def\<close>)

text \<open>What \<open>main\<close> of the publisher has done when it gets to its loop.\<close>

lemma pub_main_loop:
  assumes "pub_main e argv = Some (Returns (calls, Main_Loop p))"
  shows "\<exists>cfg. load_config e CLIENT_PUB argv = Returns (cfg, 0) \<and>
    client_config_load (env_checks e) CLIENT_PUB
      (Option.bind (default_conf CLIENT_PUB (env_xdg e) (env_home e)) (env_conf e)) argv = Returns (cfg, 0) \<and>
    pub_setup cfg (Option.bind (cf_file_input cfg) (env_files e)) (pub_globals (env_stdin e)) = Some (0, p)"
proof (cases "load_config e CLIENT_PUB argv")
  case (Returns x)
  obtain cfg rc where x: "x = (cfg, rc)" by fastforce
  let ?file = "Option.bind (cf_file_input cfg) (env_files e)"
  have rc: "rc = 0"
    using assms Returns by (intro ccontr [of "rc = 0"]) (simp add: pub_main_def x bad_options_ends [OF Returns [unfolded x]])
  with assms Returns obtain q where "pub_setup cfg ?file (pub_globals (env_stdin e)) = Some (0, q)"
    and c: "pub_connect e cfg q = (calls, Main_Loop p)"
    by (auto simp: pub_main_def x split: option.splits if_splits)
  moreover from pub_connect_ends [OF c] have "q = p" by auto
  ultimately show ?thesis using Returns rc by (simp add: load_config_def x)
qed (use assms in \<open>simp_all add: pub_main_def\<close>)

text \<open>The loop starts with the initial buffer, connected, and with \<open>-l\<close> all of standard input is
  still to be read.\<close>

lemma pub_main_starts:
  assumes "pub_main e argv = Some (Returns (calls, Main_Loop p))"
  shows "pb_buf_len p = 1024 \<and> pb_connected p \<and> (pb_mode p = MSGMODE_STDIN_LINE \<longrightarrow> pb_input p = env_stdin e)"
  using pub_main_loop [OF assms]
  by (auto simp: pub_setup_def load_file_def load_stdin_def Let_def pub_globals_def bind_eq_Some_conv
      split: if_splits option.splits)

lemma pub_main_result:
  "case pub_main e argv of
     None \<Rightarrow> \<exists>name sz content. env_files e name = Some (sz, content) \<and> int (length content) < sz
   | Some m \<Rightarrow>
       (case m of
          Fault f \<Rightarrow> \<exists>path ls. default_conf CLIENT_PUB (env_xdg e) (env_home e) = Some path \<and>
            env_conf e path = Some ls \<and> list_ex blank ls
        | Blocks \<Rightarrow> False
        | Returns (calls, r) \<Rightarrow> ends_well calls r)"
proof (cases "load_config e CLIENT_PUB argv")
  case (Returns x)
  obtain cfg rc where x: "x = (cfg, rc)" by fastforce
  let ?file = "Option.bind (cf_file_input cfg) (env_files e)"
  show ?thesis
  proof (cases "rc = 0")
    case False
    with Returns show ?thesis
      by (simp add: pub_main_def x failed_end_def bad_options_ends [OF Returns [unfolded x]])
  next
    case True
    show ?thesis
    proof (cases "pub_setup cfg ?file (pub_globals (env_stdin e))")
      case None
      with setup_returns [OF None] Returns True show ?thesis
        by (auto simp: pub_main_def x bind_eq_Some_conv)
    next
      case (Some rp)
      obtain rc2 p where rp: "rp = (rc2, p)" by fastforce
      obtain calls r where c: "pub_connect e cfg p = (calls, r)" by fastforce
      from Some Returns True pub_connect_ends [OF c] show ?thesis
        by (simp add: pub_main_def x rp c failed_end_def)
    qed
  qed
qed (use load_config_result [where e = e and who = CLIENT_PUB and argv = argv] in \<open>simp_all add: pub_main_def\<close>)

text \<open>C23: The publisher from the start of \<open>main\<close> through its event loop.  It does not get to its
  loop or an exit only when the file of \<open>-f\<close> is shorter than its size; before the loop it reaches
  undefined behaviour only through a blank line in the default configuration file, and nothing
  blocks it; it exits before its loop only with an error code, and then \<open>mosquitto_lib_init\<close> and
  \<open>mosquitto_lib_cleanup\<close> were called equally often, at most once; it enters its loop with the
  library initialised once and not cleaned up.  In the loop, whatever the library answers and
  whenever it makes its callbacks, the program reaches undefined behaviour only in the mode
  \<open>-l\<close> when some line of standard input begins with a NUL; and it can, when the first NUL of
  the input begins a line.  Whether the loop is left is not stated here: that is up to the
  library's callbacks.\<close>

theorem pub_main_outcomes:
  "case pub_main e argv of
     None \<Rightarrow> \<exists>name sz content. env_files e name = Some (sz, content) \<and> int (length content) < sz
   | Some m \<Rightarrow>
       (case m of
          Fault f \<Rightarrow> \<exists>path ls. default_conf CLIENT_PUB (env_xdg e) (env_home e) = Some path \<and>
            env_conf e path = Some ls \<and> list_ex blank ls
        | Blocks \<Rightarrow> False
        | Returns (calls, r) \<Rightarrow> ends_well calls r \<and>
           (case r of
              Main_Exit rc \<Rightarrow> True
            | Main_Loop p \<Rightarrow>
               (\<forall>lib f. reaches ((=) (Pub_Running p)) (pub_step lib) (Pub_Crashed f) \<longrightarrow>
                  pb_mode p = MSGMODE_STDIN_LINE \<and> (\<exists>before. nul_line (env_stdin e) before)) \<and>
               (\<forall>lib before. pb_mode p = MSGMODE_STDIN_LINE \<and> nul_line (env_stdin e) before \<and> CHR 0x00 \<notin> set before \<longrightarrow>
                  (\<exists>f. reaches ((=) (Pub_Running p)) (pub_step lib) (Pub_Crashed f)))))"
proof -
  have loop: "(\<forall>lib f. reaches ((=) (Pub_Running p)) (pub_step lib) (Pub_Crashed f) \<longrightarrow>
        pb_mode p = MSGMODE_STDIN_LINE \<and> (\<exists>before. nul_line (env_stdin e) before)) \<and>
      (\<forall>lib before. pb_mode p = MSGMODE_STDIN_LINE \<and> nul_line (env_stdin e) before \<and> CHR 0x00 \<notin> set before \<longrightarrow>
        (\<exists>f. reaches ((=) (Pub_Running p)) (pub_step lib) (Pub_Crashed f)))"
    if "pub_main e argv = Some (Returns (calls, Main_Loop p))" for calls p
    using pub_loop_crash_line [of p] pub_loop_crash_reached [of p] pub_main_starts [OF that] by auto
  show ?thesis
    using pub_main_result [of e argv] loop
    by (auto split: option.splits outcome.splits main_result.splits)
qed

text \<open>C22: From the command line to the broker: when \<open>main\<close> of the publisher gets to its loop, the
  first connection makes it publish one message, on a topic that libmosquitto's check accepts,
  with a QoS of 0 to 2 and exactly the payload the options ask for (the argument of \<open>-m\<close>, all of
  standard input, the file, nothing); with \<open>-l\<close> it publishes nothing yet.\<close>

theorem main_to_publish:
  assumes "pub_main e argv = Some (Returns (calls, Main_Loop p))" and "fst (plib 0) = 0"
  shows "\<exists>cfg t. load_config e CLIENT_PUB argv = Returns (cfg, 0) \<and> cf_topic cfg = Some t \<and>
    pub_topic_ok (env_checks e) t \<and> 0 \<le> cf_qos cfg \<and> cf_qos cfg \<le> 2 \<and>
    pb_calls (my_connect_callback plib 0 p) =
      (if cf_pub_mode cfg = MSGMODE_STDIN_LINE then []
       else [Publish (Some t) (wanted_payload cfg (Option.bind (cf_file_input cfg) (env_files e)) (env_stdin e))
               (cf_qos cfg) (cf_retain cfg)])"
  using pub_main_loop [OF assms(1)] options_to_publish [where plib = plib, OF _ _ assms(2)] by blast

text \<open>With a library that refuses nothing the client gets to its loop.\<close>

lemma pub_connect_loops:
  assumes "env_new e" and "\<And>c. env_lib e c = 0"
  shows "snd (pub_connect e cfg p) = Main_Loop p"
proof -
  have "failure_code (env_lib e) c = 0" for c
    using assms(2) by (simp add: failure_code_def split: lib_call.split)
  then have "snd (run_calls (env_lib e) cs) = 0" for cs by (induction cs) simp_all
  then show ?thesis
    using assms by (simp add: pub_connect_def opts_set_run client_connect_def Let_def split_beta)
qed

definition demo_surroundings :: surroundings where
  "demo_surroundings =
     \<lparr>env_xdg = None, env_home = None, env_conf = \<lambda>f. None, env_files = \<lambda>f. None, env_stdin = [],
      env_pid = 7, env_hostname = ''pi'', env_checks = demo_checks, env_new = True, env_lib = \<lambda>c. 0\<rparr>"

lemma demo_main:
  "\<exists>calls. pub_main demo_surroundings [''-t'', ''led'', ''-n''] =
     Some (Returns (calls, Main_Loop ((pub_globals [])\<lparr>pb_topic := Some ''led'', pb_mode := MSGMODE_NULL\<rparr>)))"
proof -
  have load: "load_config demo_surroundings CLIENT_PUB [''-t'', ''led'', ''-n''] = Returns (demo_cfg, 0)"
    by (simp add: load_config_def default_conf_def demo_surroundings_def demo_load)
  have "cf_file_input demo_cfg = None" by (simp add: demo_cfg_def)
  moreover have "env_stdin demo_surroundings = []" "env_new demo_surroundings" "\<And>c. env_lib demo_surroundings c = 0"
    by (simp_all add: demo_surroundings_def)
  ultimately show ?thesis
    using pub_connect_loops [of demo_surroundings demo_cfg]
    by (simp add: pub_main_def load demo_setup prod_eq_iff)
qed

theorem main_to_publish_witness:
  "\<exists>cfg t. load_config demo_surroundings CLIENT_PUB [''-t'', ''led'', ''-n''] = Returns (cfg, 0) \<and>
    cf_topic cfg = Some t \<and> pub_topic_ok (env_checks demo_surroundings) t \<and> 0 \<le> cf_qos cfg \<and> cf_qos cfg \<le> 2 \<and>
    pb_calls (my_connect_callback demo_lib 0 ((pub_globals [])\<lparr>pb_topic := Some ''led'', pb_mode := MSGMODE_NULL\<rparr>)) =
      (if cf_pub_mode cfg = MSGMODE_STDIN_LINE then []
       else [Publish (Some t) (wanted_payload cfg (Option.bind (cf_file_input cfg) (env_files demo_surroundings))
               (env_stdin demo_surroundings)) (cf_qos cfg) (cf_retain cfg)])"
proof -
  obtain calls where "pub_main demo_surroundings [''-t'', ''led'', ''-n''] =
     Some (Returns (calls, Main_Loop ((pub_globals [])\<lparr>pb_topic := Some ''led'', pb_mode := MSGMODE_NULL\<rparr>)))"
    using demo_main by blast
  from main_to_publish [where plib = demo_lib, OF this] show ?thesis by (simp add: demo_lib_def)
qed

text \<open>\<open>-t led -l\<close> and one line, which holds a NUL and nothing else.\<close>

definition nul_surroundings :: surroundings where
  "nul_surroundings = demo_surroundings\<lparr>env_stdin := [CHR 0x00, CHR 0x0A]\<rparr>"

definition line_cfg :: mosq_config where
  "line_cfg = init_config\<lparr>cf_topic := Some ''led'', cf_pub_mode := MSGMODE_STDIN_LINE,
     cf_host := Some (Literal ''localhost'')\<rparr>"

definition nul_pub :: pub where
  "nul_pub = (pub_globals [CHR 0x00, CHR 0x0A])\<lparr>pb_topic := Some ''led'', pb_mode := MSGMODE_STDIN_LINE\<rparr>"

lemma nul_main:
  "\<exists>calls. pub_main nul_surroundings [''-t'', ''led'', ''-l''] = Some (Returns (calls, Main_Loop nul_pub))"
proof -
  let ?cfg = "init_config\<lparr>cf_topic := Some ''led'', cf_pub_mode := MSGMODE_STDIN_LINE\<rparr>"
  have env: "env_checks nul_surroundings = demo_checks" "env_stdin nul_surroundings = [CHR 0x00, CHR 0x0A]"
    "env_new nul_surroundings" "\<And>c. env_lib nul_surroundings c = 0" "env_xdg nul_surroundings = None"
    "env_home nul_surroundings = None"
    by (simp_all add: nul_surroundings_def demo_surroundings_def)
  have t: "option_step demo_checks CLIENT_PUB c ''-t'' (Some a) = Took (c\<lparr>cf_topic := Some a\<rparr>)" for c a
    by (simp add: demo_checks_def option_step_def opt_identity_def opt_message_def opt_quality_def with_arg_def)
  have l: "option_step demo_checks CLIENT_PUB c ''-l'' None =
      (if cf_pub_mode c \<noteq> MSGMODE_NONE then Stop c 1 else Flag (c\<lparr>cf_pub_mode := MSGMODE_STDIN_LINE\<rparr>))" for c
    by (simp add: option_step_def opt_identity_def opt_message_def)
  have "client_config_line_proc demo_checks CLIENT_PUB init_config [''-t'', ''led'', ''-l''] = (?cfg, 0)"
    by (simp add: t l)
  moreover have "config_checks CLIENT_PUB ?cfg" by (simp add: config_checks_def)
  ultimately have load: "load_config nul_surroundings CLIENT_PUB [''-t'', ''led'', ''-l''] = Returns (line_cfg, 0)"
    by (simp add: load_config_def default_conf_def env client_config_load_def line_cfg_def
        del: client_config_line_proc.simps)
  have "pub_setup line_cfg None (pub_globals [CHR 0x00, CHR 0x0A]) = Some (0, nul_pub)"
    by (simp add: pub_setup_def pub_globals_def line_cfg_def nul_pub_def)
  moreover have "cf_file_input line_cfg = None" by (simp add: line_cfg_def)
  ultimately show ?thesis
    using pub_connect_loops [of nul_surroundings line_cfg] env
    by (simp add: pub_main_def load prod_eq_iff)
qed

theorem pub_main_outcomes_witness:
  "\<exists>calls f. pub_main nul_surroundings [''-t'', ''led'', ''-l''] = Some (Returns (calls, Main_Loop nul_pub)) \<and>
     in_loop calls \<and> reaches ((=) (Pub_Running nul_pub)) (pub_step demo_lib) (Pub_Crashed f)"
proof -
  obtain calls where m: "pub_main nul_surroundings [''-t'', ''led'', ''-l''] = Some (Returns (calls, Main_Loop nul_pub))"
    using nul_main by blast
  have "in_loop calls \<and> (\<exists>f. reaches ((=) (Pub_Running nul_pub)) (pub_step demo_lib) (Pub_Crashed f))"
  proof -
    have "pb_mode nul_pub = MSGMODE_STDIN_LINE \<and> nul_line (env_stdin nul_surroundings) [] \<and> CHR 0x00 \<notin> set []"
      by (simp add: nul_pub_def nul_surroundings_def nul_line_def)
    then show ?thesis
      using pub_main_outcomes [of nul_surroundings "[''-t'', ''led'', ''-l'']"] unfolding m
      by (simp only: option.case outcome.case prod.case main_result.case ends_well.simps) blast
  qed
  with m show ?thesis by blast
qed

text \<open>A run that went through the loop is balanced as well.\<close>

lemma ends_balanced:
  assumes "in_loop calls"
  shows "inits (calls @ fst (pub_end p rc)) = 1 \<and> cleanups (calls @ fst (pub_end p rc)) = 1 \<and>
    inits (calls @ fst (sub_end no_conn rc s)) = 1 \<and> cleanups (calls @ fst (sub_end no_conn rc s)) = 1"
  using assms by (simp add: in_loop_def pub_end_def sub_end_def)

end
