(* ===== verification/Mosq_Usage.thy ===== *)
theory Mosq_Usage
  imports Mosq_Main
begin

text \<open>
  The usage texts of the two MQTT clients (\<open>print_usage\<close> of \<open>pub_client.c\<close> and
  \<open>sub_client.c\<close>), in the build of \<open>Mosq_Config\<close> (all features), and how \<open>main\<close> comes to
  print them.  A text is the list of the strings \<open>printf\<close> prints.  The options they describe
  are extracted from the lines and compared with the options the parser takes.
\<close>

subsection \<open>The texts\<close>

definition nl :: "string \<Rightarrow> string" where
  "nl s = s @ [CHR 0x0A]"

definition dotted :: "int \<times> int \<times> int \<Rightarrow> string" where
  "dotted v =
     (let dec = \<lambda>i. map (\<lambda>b. char_of (unat b)) (decimal i) in
      case v of (major, minor, revision) \<Rightarrow> dec major @ ''.'' @ dec minor @ ''.'' @ dec revision)"

text \<open>\<open>version\<close> is the macro \<open>VERSION\<close> of the build, \<open>lib_version\<close> what
  \<open>mosquitto_lib_version\<close> stores.\<close>

definition pub_usage :: "string \<Rightarrow> int \<times> int \<times> int \<Rightarrow> string list" where
  "pub_usage version lib_version =
    [nl ''mosquitto_pub is a simple mqtt client that will publish a message on a single topic and exit.'',
     nl (nl (''mosquitto_pub version '' @ version @ '' running on libmosquitto '' @ dotted lib_version @ ''.'')),
     nl ''Usage: mosquitto_pub [-h host] [-k keepalive] [-p port] [-q qos] [-r] {-f file | -l | -n | -m message} -t topic'',
     nl ''                     [-A bind_address] [-S]'',
     nl ''                     [-i id] [-I id_prefix]'',
     nl ''                     [-d] [--quiet]'',
     nl ''                     [-M max_inflight]'',
     nl ''                     [-u username [-P password]]'',
     nl ''                     [--will-topic [--will-payload payload] [--will-qos qos] [--will-retain]]'',
     nl ''                     [{--cafile file | --capath dir} [--cert file] [--key file]'',
     nl ''                      [--ciphers ciphers] [--insecure]]'',
     nl ''                     [--psk hex-key --psk-identity identity [--ciphers ciphers]]'',
     nl ''                     [--proxy socks-url]'',
     nl (nl ''       mosquitto_pub --help''),
     nl '' -A : bind the outgoing socket to this host/ip address. Use to control which interface'',
     nl ''      the client communicates over.'',
     nl '' -d : enable debug messages.'',
     nl '' -f : send the contents of a file as the message.'',
     nl '' -h : mqtt host to connect to. Defaults to localhost.'',
     nl '' -i : id to use for this client. Defaults to mosquitto_pub_ appended with the process id.'',
     nl '' -I : define the client id as id_prefix appended with the process id. Useful for when the'',
     nl ''      broker is using the clientid_prefixes option.'',
     nl '' -k : keep alive in seconds for this client. Defaults to 60.'',
     nl '' -l : read messages from stdin, sending a separate message for each line.'',
     nl '' -m : message payload to send.'',
     nl '' -M : the maximum inflight messages for QoS 1/2..'',
     nl '' -n : send a null (zero length) message.'',
     nl '' -p : network port to connect to. Defaults to 1883.'',
     nl '' -P : provide a password (requires MQTT 3.1 broker)'',
     nl '' -q : quality of service level to use for all messages. Defaults to 0.'',
     nl '' -r : message should be retained.'',
     nl '' -s : read message from stdin, sending the entire input as a message.'',
     nl '' -S : use SRV lookups to determine which host to connect to.'',
     nl '' -t : mqtt topic to publish to.'',
     nl '' -u : provide a username (requires MQTT 3.1 broker)'',
     nl '' -V : specify the version of the MQTT protocol to use when connecting.'',
     nl ''      Can be mqttv31 or mqttv311. Defaults to mqttv31.'',
     nl '' --help : display this message.'',
     nl '' --quiet : don't print error messages.'',
     nl '' --will-payload : payload for the client Will, which is sent by the broker in case of'',
     nl ''                  unexpected disconnection. If not given and will-topic is set, a zero'',
     nl ''                  length message will be sent.'',
     nl '' --will-qos : QoS level for the client Will.'',
     nl '' --will-retain : if given, make the client Will retained.'',
     nl '' --will-topic : the topic on which to publish the client Will.'',
     nl '' --cafile : path to a file containing trusted CA certificates to enable encrypted'',
     nl ''            communication.'',
     nl '' --capath : path to a directory containing trusted CA certificates to enable encrypted'',
     nl ''            communication.'',
     nl '' --cert : client certificate for authentication, if required by server.'',
     nl '' --key : client private key for authentication, if required by server.'',
     nl '' --ciphers : openssl compatible list of TLS ciphers to support.'',
     nl '' --tls-version : TLS protocol version, can be one of tlsv1.2 tlsv1.1 or tlsv1.'',
     nl ''                 Defaults to tlsv1.2 if available.'',
     nl '' --insecure : do not check that the server certificate hostname matches the remote'',
     nl ''              hostname. Using this option means that you cannot be sure that the'',
     nl ''              remote host is the server you wish to connect to and so is insecure.'',
     nl ''              Do not use this option in a production environment.'',
     nl '' --psk : pre-shared-key in hexadecimal (no leading 0x) to enable TLS-PSK mode.'',
     nl '' --psk-identity : client identity string for TLS-PSK mode.'',
     nl '' --proxy : SOCKS5 proxy URL of the form:'',
     nl ''           socks5h://[username[:password]@]hostname[:port]'',
     nl ''           Only \"none\" and \"username\" authentication is supported.'',
     CHR 0x0A # nl (nl ''See http://mosquitto.org/ for more information.'')]"

definition sub_usage :: "string \<Rightarrow> int \<times> int \<times> int \<Rightarrow> string list" where
  "sub_usage version lib_version =
    [nl ''mosquitto_sub is a simple mqtt client that will subscribe to a single topic and print all messages it receives.'',
     nl (nl (''mosquitto_sub version '' @ version @ '' running on libmosquitto '' @ dotted lib_version @ ''.'')),
     nl ''Usage: mosquitto_sub [-c] [-h host] [-k keepalive] [-p port] [-q qos] [-R] -t topic ...'',
     nl ''                     [-C msg_count] [-T filter_out]'',
     nl ''                     [-A bind_address] [-S]'',
     nl ''                     [-i id] [-I id_prefix]'',
     nl ''                     [-d] [-N] [--quiet] [-v]'',
     nl ''                     [-u username [-P password]]'',
     nl ''                     [--will-topic [--will-payload payload] [--will-qos qos] [--will-retain]]'',
     nl ''                     [{--cafile file | --capath dir} [--cert file] [--key file]'',
     nl ''                      [--ciphers ciphers] [--insecure]]'',
     nl ''                     [--psk hex-key --psk-identity identity [--ciphers ciphers]]'',
     nl ''                     [--proxy socks-url]'',
     nl (nl ''       mosquitto_sub --help''),
     nl '' -A : bind the outgoing socket to this host/ip address. Use to control which interface'',
     nl ''      the client communicates over.'',
     nl '' -c : disable 'clean session' (store subscription and pending messages when client disconnects).'',
     nl '' -C : disconnect and exit after receiving the 'msg_count' messages.'',
     nl '' -d : enable debug messages.'',
     nl '' -h : mqtt host to connect to. Defaults to localhost.'',
     nl '' -i : id to use for this client. Defaults to mosquitto_sub_ appended with the process id.'',
     nl '' -I : define the client id as id_prefix appended with the process id. Useful for when the'',
     nl ''      broker is using the clientid_prefixes option.'',
     nl '' -k : keep alive in seconds for this client. Defaults to 60.'',
     nl '' -N : do not add an end of line character when printing the payload.'',
     nl '' -p : network port to connect to. Defaults to 1883.'',
     nl '' -P : provide a password (requires MQTT 3.1 broker)'',
     nl '' -q : quality of service level to use for the subscription. Defaults to 0.'',
     nl '' -R : do not print stale messages (those with retain set).'',
     nl '' -S : use SRV lookups to determine which host to connect to.'',
     nl '' -t : mqtt topic to subscribe to. May be repeated multiple times.'',
     nl '' -T : topic string to filter out of results. May be repeated.'',
     nl '' -u : provide a username (requires MQTT 3.1 broker)'',
     nl '' -v : print published messages verbosely.'',
     nl '' -V : specify the version of the MQTT protocol to use when connecting.'',
     nl ''      Can be mqttv31 or mqttv311. Defaults to mqttv31.'',
     nl '' --help : display this message.'',
     nl '' --quiet : don't print error messages.'',
     nl '' --will-payload : payload for the client Will, which is sent by the broker in case of'',
     nl ''                  unexpected disconnection. If not given and will-topic is set, a zero'',
     nl ''                  length message will be sent.'',
     nl '' --will-qos : QoS level for the client Will.'',
     nl '' --will-retain : if given, make the client Will retained.'',
     nl '' --will-topic : the topic on which to publish the client Will.'',
     nl '' --cafile : path to a file containing trusted CA certificates to enable encrypted'',
     nl ''            certificate based communication.'',
     nl '' --capath : path to a directory containing trusted CA certificates to enable encrypted'',
     nl ''            communication.'',
     nl '' --cert : client certificate for authentication, if required by server.'',
     nl '' --key : client private key for authentication, if required by server.'',
     nl '' --ciphers : openssl compatible list of TLS ciphers to support.'',
     nl '' --tls-version : TLS protocol version, can be one of tlsv1.2 tlsv1.1 or tlsv1.'',
     nl ''                 Defaults to tlsv1.2 if available.'',
     nl '' --insecure : do not check that the server certificate hostname matches the remote'',
     nl ''              hostname. Using this option means that you cannot be sure that the'',
     nl ''              remote host is the server you wish to connect to and so is insecure.'',
     nl ''              Do not use this option in a production environment.'',
     nl '' --psk : pre-shared-key in hexadecimal (no leading 0x) to enable TLS-PSK mode.'',
     nl '' --psk-identity : client identity string for TLS-PSK mode.'',
     nl '' --proxy : SOCKS5 proxy URL of the form:'',
     nl ''           socks5h://[username[:password]@]hostname[:port]'',
     nl ''           Only \"none\" and \"username\" authentication is supported.'',
     CHR 0x0A # nl (nl ''See http://mosquitto.org/ for more information.'')]"

definition usage :: "client \<Rightarrow> string \<Rightarrow> int \<times> int \<times> int \<Rightarrow> string list" where
  "usage who = (if who = CLIENT_PUB then pub_usage else sub_usage)"

text \<open>What \<open>main\<close> prints when the options did not load with the value \<open>rc\<close>.\<close>

definition pub_complaint :: "int \<Rightarrow> string \<Rightarrow> int \<times> int \<times> int \<Rightarrow> string list" where
  "pub_complaint rc version lib_version =
     (if rc = 2 then pub_usage version lib_version
      else [CHR 0x0A # nl ''Use 'mosquitto_pub --help' to see usage.''])"

definition sub_complaint :: "int \<Rightarrow> string \<Rightarrow> int \<times> int \<times> int \<Rightarrow> string list" where
  "sub_complaint rc version lib_version =
     (if rc = 2 then sub_usage version lib_version
      else [CHR 0x0A # nl ''Use 'mosquitto_sub --help' to see usage.''])"


subsection \<open>The options a text describes\<close>

text \<open>A line that describes an option begins with a blank and the option.\<close>

definition line_option :: "string \<Rightarrow> string option" where
  "line_option l =
     (if take 2 l = '' -'' then Some (takeWhile (\<lambda>c. c \<noteq> CHR '' '') (tl l)) else None)"

definition described :: "string list \<Rightarrow> string list" where
  "described ls = List.map_filter line_option ls"

lemma described_simps [simp]:
  "described [] = []"
  "described (l # ls) = (case line_option l of None \<Rightarrow> described ls | Some opt \<Rightarrow> opt # described ls)"
  by (simp_all add: described_def map_filter_simps split: option.split)

definition common_options :: "string list" where
  "common_options = [''--help'', ''--quiet'', ''--will-payload'', ''--will-qos'', ''--will-retain'',
     ''--will-topic'', ''--cafile'', ''--capath'', ''--cert'', ''--key'', ''--ciphers'',
     ''--tls-version'', ''--insecure'', ''--psk'', ''--psk-identity'', ''--proxy'']"

lemma pub_described:
  "described (pub_usage version lib_version) =
     [''-A'', ''-d'', ''-f'', ''-h'', ''-i'', ''-I'', ''-k'', ''-l'', ''-m'', ''-M'', ''-n'', ''-p'',
      ''-P'', ''-q'', ''-r'', ''-s'', ''-S'', ''-t'', ''-u'', ''-V''] @ common_options"
  by (simp add: pub_usage_def line_option_def nl_def common_options_def)

lemma sub_described:
  "described (sub_usage version lib_version) =
     [''-A'', ''-c'', ''-C'', ''-d'', ''-h'', ''-i'', ''-I'', ''-k'', ''-N'', ''-p'', ''-P'', ''-q'',
      ''-R'', ''-S'', ''-t'', ''-T'', ''-u'', ''-v'', ''-V''] @ common_options"
  by (simp add: sub_usage_def line_option_def nl_def common_options_def)


subsection \<open>The options the parser takes\<close>

text \<open>An option is accepted when the parser, starting from the defaults, goes on after it for some
  argument, or returns the code of the help option.\<close>

definition accepted :: "topic_checks \<Rightarrow> client \<Rightarrow> string \<Rightarrow> bool" where
  "accepted lib who opt \<longleftrightarrow>
     (\<exists>arg. case option_step lib who init_config opt arg of
        Flag cfg \<Rightarrow> True | Took cfg \<Rightarrow> True | Stop cfg rc \<Rightarrow> rc = 2)"

definition undescribed :: "client \<Rightarrow> string list" where
  "undescribed who =
     [''--port'', ''--debug'', ''--host'', ''--id'', ''--id-prefix'', ''--keepalive'',
      ''--protocol-version'', ''--qos'', ''--topic'', ''--username'', ''--pw''] @
     (if who = CLIENT_PUB
      then [''--file'', ''--stdin-line'', ''--message'', ''--null-message'', ''--retain'', ''--stdin-file'']
      else [''-M'', ''--filter-out'', ''--disable-clean-session'', ''--verbose''])"

lemmas option_chain = option_step_def opt_identity_def opt_message_def opt_quality_def opt_rest_def
  with_arg_def Let_def

lemmas option_names = usage_def undescribed_def pub_described sub_described common_options_def
  append_Cons append_Nil set_simps insert_iff empty_iff

text \<open>An argument with which each option is accepted.\<close>

definition sample_arg :: "string \<Rightarrow> string" where
  "sample_arg opt =
     (if opt = ''-V'' \<or> opt = ''--protocol-version'' then ''mqttv31''
      else if opt = ''--proxy'' then ''socks5h://host''
      else ''1'')"

lemma sample_number: "string_atoi ''1'' = 1"
  by code_simp

lemma sample_proxy: "mosquitto__parse_socks_url (bytes_of ''socks5h://host'') \<noteq> None"
  by code_simp

lemma default_modes:
  "cf_pub_mode init_config = MSGMODE_NONE" "cf_id init_config = None" "cf_id_prefix init_config = None"
  by (simp_all add: init_config_def)

lemmas sample_step = option_chain sample_number sample_proxy default_modes sample_arg_def

lemma known_accepted:
  assumes "pub_topic_ok lib ''1''" "sub_topic_ok lib ''1''"
    and "opt \<in> set (described (usage who version lib_version) @ undescribed who)"
  shows "accepted lib who opt"
  using assms unfolding accepted_def
  by (intro exI [of _ "Some (sample_arg opt)"], cases who)
     (simp_all only: option_names simp_thms if_True if_False client.distinct,
      (elim disjE; simp add: sample_step split: option.split)+)

lemma unknown_refused:
  assumes "opt \<notin> set (described (usage who version lib_version) @ undescribed who)"
  shows "\<not> accepted lib who opt"
  using assms
  by (cases who) (simp_all add: accepted_def option_chain option_names split: option.split)

text \<open>C31: The usage text of each client against its parser: an option is accepted exactly when the
  text describes it or it is one of a few the text leaves out (the long forms of the short
  options, and for the subscriber also -M, which sets a limit it does not use for publishing).
  So every option described works, and no option of the other client does.  The hypotheses say
  that the library accepts the topic 1.\<close>

theorem usage_complete:
  assumes "pub_topic_ok lib ''1''" and "sub_topic_ok lib ''1''"
  shows "accepted lib who opt \<longleftrightarrow>
    opt \<in> set (described (usage who version lib_version)) \<or> opt \<in> set (undescribed who)"
  using known_accepted [OF assms, of opt who version lib_version]
    unknown_refused [of opt who version lib_version lib] by auto

lemma usage_complete_witness:
  "accepted \<lparr>pub_topic_ok = (\<lambda>t. True), sub_topic_ok = (\<lambda>t. True)\<rparr> CLIENT_SUB ''-C'' \<and>
   \<not> accepted \<lparr>pub_topic_ok = (\<lambda>t. True), sub_topic_ok = (\<lambda>t. True)\<rparr> CLIENT_PUB ''-C''"
  using usage_complete [of "\<lparr>pub_topic_ok = (\<lambda>t. True), sub_topic_ok = (\<lambda>t. True)\<rparr>" CLIENT_SUB "''-C''" "''1''" "(1, 4, 0)"]
    usage_complete [of "\<lparr>pub_topic_ok = (\<lambda>t. True), sub_topic_ok = (\<lambda>t. True)\<rparr>" CLIENT_PUB "''-C''" "''1''" "(1, 4, 0)"]
  by (simp add: option_names)


subsection \<open>When the text is printed\<close>

text \<open>The parser returns 2 for the help option only, and then the text is printed.\<close>

primrec stops_with :: "int \<Rightarrow> opt_step \<Rightarrow> bool" where
  "stops_with r (Flag cfg) \<longleftrightarrow> True"
| "stops_with r (Took cfg) \<longleftrightarrow> True"
| "stops_with r (Stop cfg rc) \<longleftrightarrow> rc = r"

lemma stops_arg: "(\<And>a. stops_with 1 (f a)) \<Longrightarrow> stops_with 1 (with_arg cfg arg f)"
  by (cases arg) (simp_all add: with_arg_def)

lemma stops_if: "(b \<Longrightarrow> stops_with r x) \<Longrightarrow> (\<not> b \<Longrightarrow> stops_with r y) \<Longrightarrow> stops_with r (if b then x else y)"
  by simp

lemma stops_found:
  "(\<And>s. stops_with 1 (f s)) \<Longrightarrow> stops_with 1 (case x of None \<Rightarrow> Stop cfg 1 | Some s \<Rightarrow> f s)"
  by (cases x) simp_all

lemma option_code: "stops_with (if opt = ''--help'' then 2 else 1) (option_step lib who cfg opt arg)"
proof (cases "opt = ''--help''")
  case False
  have "stops_with 1 (opt_rest lib who cfg opt arg)"
    unfolding opt_rest_def Let_def by (intro stops_if stops_arg; simp)
  then have "stops_with 1 (opt_quality lib who cfg opt arg)"
    unfolding opt_quality_def Let_def by (intro stops_if stops_arg; simp)
  then have "stops_with 1 (opt_message lib who cfg opt arg)"
    unfolding opt_message_def Let_def by (intro stops_if stops_arg stops_found; simp)
  then have "stops_with 1 (opt_identity lib who cfg opt arg)"
    unfolding opt_identity_def Let_def by (intro stops_if stops_arg; simp add: False)
  then have "stops_with 1 (option_step lib who cfg opt arg)"
    unfolding option_step_def Let_def by (intro stops_if stops_arg; simp)
  with False show ?thesis by simp
qed (simp add: option_step_def opt_identity_def)

lemma line_proc_code:
  "client_config_line_proc lib who cfg argv = (cfg', rc) \<Longrightarrow>
   rc \<in> {0, 1, 2} \<and> (rc = 2 \<longrightarrow> ''--help'' \<in> set argv)"
proof (induction lib who cfg argv arbitrary: cfg' rc rule: client_config_line_proc.induct)
  case (2 lib who cfg opt)
  then show ?case
    using option_code [of opt lib who cfg None] by (auto split: opt_step.splits if_splits)
next
  case (3 lib who cfg opt arg args)
  show ?case
  proof (cases "option_step lib who cfg opt (Some arg)")
    case (Flag c)
    with 3 show ?thesis by force
  next
    case (Took c)
    with 3 show ?thesis by force
  next
    case (Stop c r)
    with 3 option_code [of opt lib who cfg "Some arg"] show ?thesis by (auto split: if_splits)
  qed
qed simp

end
