(* ===== verification/Forward.thy ===== *)
theory Forward
  imports Commands Conn_Table
begin

text \<open>
  The message forwarding of \<open>UartCmdRxThread.c\<close>: \<open>pipe_0000_Thread\<close>, which cuts the data out
  of a received event and queues it for the peers, \<open>Notify_data\<close> and \<open>GATT_WRITE_VALUE\<close>, which
  send it, and \<open>Forward_MSG_Queue_Thread\<close>, which sends each message to the connected devices
  and repeats a send according to the status that comes back.  \<open>main\<close> starts neither thread.
  Sleeps, the response pipe and printing are left out.
\<close>

subsection \<open>Copying between arrays\<close>

text \<open>The loop \<open>for (k = 0; k < n; k++) dst[j + k] = src[i + k]\<close>.\<close>

primrec copy_loop :: "'a list \<Rightarrow> 'a list \<Rightarrow> nat \<Rightarrow> nat \<Rightarrow> nat \<Rightarrow> 'a list outcome" where
  "copy_loop src dst i j 0 = Returns dst"
| "copy_loop src dst i j (Suc n) =
     outcome_bind (copy_loop src dst i j n) (\<lambda>dst'.
     outcome_bind (load src (i + n)) (\<lambda>v. store dst' (j + n) v))"

lemma copy_loop_ok:
  "i + n \<le> length src \<Longrightarrow> j + n \<le> length dst \<Longrightarrow>
   copy_loop src dst i j n = Returns (take j dst @ take n (drop i src) @ drop (j + n) dst)"
proof (induction n)
  case (Suc n)
  let ?d = "take j dst @ take n (drop i src) @ drop (j + n) dst"
  have "?d[j + n := src ! (i + n)] = take j dst @ take (Suc n) (drop i src) @ drop (j + Suc n) dst"
    using Suc.prems by (simp add: list_update_append update_drop take_Suc_conv_app_nth)
  with Suc show ?case by simp
qed simp

lemma copy_loop_length: "copy_loop src dst i j n = Returns dst' \<Longrightarrow> length dst' = length dst"
  by (induction n arbitrary: dst') (auto simp: outcome_bind_eq_Returns dest: store_length)

text \<open>The first access outside decides the fault: the read of \<open>src[i + k]\<close> comes before the write.\<close>

lemma copy_loop_fault:
  "k < n \<Longrightarrow> copy_loop src dst i j k = Returns d \<Longrightarrow>
   outcome_bind (load src (i + k)) (\<lambda>v. store d (j + k) v) = Fault e \<Longrightarrow>
   copy_loop src dst i j n = Fault e"
  by (induction n) (auto simp: less_Suc_eq)


subsection \<open>Cutting the data out of an event\<close>

text \<open>\<open>forward_data_buff\<close> is filled from \<open>buff[start ..]\<close> with \<open>data_length\<close> bytes and sent.\<close>

definition pipe_forward ::
  "int \<Rightarrow> u8 \<Rightarrow> nat \<Rightarrow> int \<Rightarrow> u8 list \<Rightarrow> u8 list \<Rightarrow> kernel \<Rightarrow> (u8 list \<times> u8 list \<times> kernel) outcome" where
  "pipe_forward data_length direction start qid buff fwd k =
     outcome_bind (copy_loop buff (fwd[0 := 0x00, 1 := direction, 2 := word_of_int (0x00 + data_length)])
         start 3 (nat data_length)) (\<lambda>fwd1.
     outcome_bind (sys_mq_send MTEXT_SIZE k qid fwd1 (word_of_int (data_length + 3))) (\<lambda>(r, k1).
       Returns (buff, fwd1, k1)))"

text \<open>One iteration of \<open>pipe_0000_Thread\<close>; both buffers keep their contents between iterations.\<close>

definition pipe_0000 ::
  "int \<Rightarrow> int \<Rightarrow> u8 list \<Rightarrow> u8 list \<Rightarrow> kernel \<Rightarrow> (u8 list \<times> u8 list \<times> kernel) outcome" where
  "pipe_0000 in_id out_id buff fwd k =
     outcome_bind (sys_mq_recv MTEXT_SIZE k in_id buff 0) (\<lambda>(r, b, n, k1).
       let data_length = uint (b ! 8) in
       if MAKE16OFXY (b ! 4) (b ! 3) = EVENT_VS_ATT_WRITE_REQUEST
       then pipe_forward (data_length - 4) 0x01 13 out_id b fwd k1
       else pipe_forward (data_length - 2) 0x00 11 out_id b fwd k1)"


subsection \<open>Sending to a peer\<close>

text \<open>
  Both routines put a header into \<open>pac[100]\<close>, append \<open>buffer[3 .. size - 1]\<close> and write the
  result.  The slot number \<open>idz\<close> goes into the header of one of them and is unused in the other.
\<close>

definition send_value :: "u8 list \<Rightarrow> u8 list \<Rightarrow> u16 \<Rightarrow> globals \<Rightarrow> (int \<times> globals) outcome" where
  "send_value header buf n g =
     outcome_bind (copy_loop buf (header @ replicate (100 - length header) 0) 3 (length header) (unat n - 3)) (\<lambda>pac.
     outcome_bind (BLECOMWrite pac (length header + (unat n - 3)) g) (\<lambda>(w, g').
       Returns (if w = int (length header + (unat n - 3)) then 0 else -1, g')))"

definition GATT_WRITE_VALUE_header :: "u16 \<Rightarrow> nat \<Rightarrow> u8 list" where
  "GATT_WRITE_VALUE_header n idz =
     [PKT_COMMAND, LSBYTEOF16BIT GATT_WRITECHARVALUE, MSBYTEOF16BIT GATT_WRITECHARVALUE,
      word_of_int (0x00 + (uint n - 3) + 4), word_of_int (0x00 + int idz), 0x00, 0x03, 0x00]"

definition GATT_WRITE_VALUE :: "u8 list \<Rightarrow> u16 \<Rightarrow> nat \<Rightarrow> globals \<Rightarrow> (int \<times> globals) outcome" where
  "GATT_WRITE_VALUE buf n idz g = send_value (GATT_WRITE_VALUE_header n idz) buf n g"

definition Notify_data_header :: "u16 \<Rightarrow> u8 list" where
  "Notify_data_header n =
     [PKT_COMMAND, LSBYTEOF16BIT GATT_NOTIFICATION, MSBYTEOF16BIT GATT_NOTIFICATION,
      word_of_int (0x00 + (uint n - 3) + 5), 0x00, 0x00, 0x00, 0x07, 0x00]"

definition Notify_data :: "u8 list \<Rightarrow> u16 \<Rightarrow> nat \<Rightarrow> globals \<Rightarrow> (int \<times> globals) outcome" where
  "Notify_data buf n idz g = send_value (Notify_data_header n) buf n g"


subsection \<open>The forwarding thread\<close>

definition RETRY_COUNT :: u8 where "RETRY_COUNT = 4"

record forward =
  fw_buffer :: "u8 list"      \<comment> \<open>\<open>buffer[100]\<close>, the message being forwarded\<close>
  fw_size :: u16
  fw_buffer_Rx :: "u8 list"   \<comment> \<open>\<open>buffer_Rx[100]\<close>, the last response\<close>
  fw_WRITE_RSP_ID :: int
  fw_Queue_Id :: int

text \<open>Which of the three retry loops runs: the cloud's, the ping's, or the one for peers other
  than the sender.\<close>

datatype retry_mode = Cloud | Ping | Peer u8

text \<open>At the head of the loop, or waiting for the response to a send to slot \<open>idz\<close>.\<close>

datatype forward_pc = Fwd_Top | Fwd_Rsp retry_mode nat u8

text \<open>What byte 5 of a response does to \<open>retry_needed\<close>; the cloud's loop has the increment
  commented out.\<close>

definition retry_update :: "retry_mode \<Rightarrow> u8 \<Rightarrow> u8 \<Rightarrow> u8" where
  "retry_update mode status retry_needed =
     (if status = 0x00 then RETRY_COUNT
      else if status = 0x16 then (if mode = Cloud then retry_needed else retry_needed + 1)
      else if status = 0x14 then RETRY_COUNT
      else if status = 0x04 then 0
      else retry_needed)"

text \<open>The next slot of the \<open>for\<close> loop, from \<open>i\<close> on, that a message goes to.\<close>

definition next_slot :: "retry_mode \<Rightarrow> conn_dev list \<Rightarrow> nat \<Rightarrow> nat option" where
  "next_slot mode l i =
     List.find (\<lambda>idz. cd_status (l ! idz) = 1 \<and> (case mode of Peer h \<Rightarrow> idz \<noteq> unat h | _ \<Rightarrow> True))
       [i..<MAX_NUM_PERIPHERALS]"

text \<open>Start the \<open>do\<close> loop for the next slot, if there is one.\<close>

definition forward_slot ::
  "retry_mode \<Rightarrow> nat \<Rightarrow> forward \<Rightarrow> globals \<Rightarrow> (forward_pc \<times> forward \<times> globals) outcome" where
  "forward_slot mode i f g =
     (case next_slot mode (Conn_Device_List g) i of
        None \<Rightarrow> Returns (Fwd_Top, f, g)
      | Some idz \<Rightarrow>
          outcome_bind (Notify_data (fw_buffer f) (fw_size f) idz g) (\<lambda>(r, g1).
            Returns (Fwd_Rsp mode idz 0, f, g1)))"

definition forward_message ::
  "forward \<Rightarrow> globals \<Rightarrow> (forward_pc \<times> forward \<times> globals) outcome" where
  "forward_message f g =
     (let Conn_Handle_Id = fw_buffer f ! 0; Direction = fw_buffer f ! 1 in
      if Conn_Handle_Id = 0xFF then
        (if Slave_Count g > 0 then forward_slot Cloud 0 f g else Returns (Fwd_Top, f, g))
      else if Conn_Handle_Id = 0xEE then
        (let idz = unat (fw_buffer f ! 1) in
         outcome_bind (Notify_data (fw_buffer f) (fw_size f) idz g) (\<lambda>(r, g1).
           Returns (Fwd_Rsp Ping idz 0, f, g1)))
      else if Direction = 0x01 then
        outcome_bind (Notify_data (fw_buffer f) (fw_size f) 0 g) (\<lambda>(r, g1).
        outcome_bind (GATT_WRITE_VALUE (fw_buffer f) (fw_size f) 0 g1) (\<lambda>(r, g2).
          if Slave_Count g2 > 0 then forward_slot (Peer Conn_Handle_Id) 0 f g2
          else Returns (Fwd_Top, f, g2)))
      else Returns (Fwd_Top, f, g))"

text \<open>One step: up to the next receive that may block.\<close>

primrec forward_step ::
  "forward_pc \<Rightarrow> forward \<Rightarrow> globals \<Rightarrow> (forward_pc \<times> forward \<times> globals) outcome" where
  "forward_step Fwd_Top f g =
     outcome_bind (sys_mq_recv MTEXT_SIZE (kern g) (fw_Queue_Id f) (fw_buffer f) (fw_size f))
       (\<lambda>(r, b, n, k). forward_message (f\<lparr>fw_buffer := b, fw_size := n\<rparr>) (g\<lparr>kern := k\<rparr>))"
| "forward_step (Fwd_Rsp mode idz retry_needed) f g =
     outcome_bind (sys_mq_recv MTEXT_SIZE (kern g) (fw_WRITE_RSP_ID f) (fw_buffer_Rx f) 0)
       (\<lambda>(r, b, n, k).
          let needed = (if r = 0 then retry_update mode (b ! 5) retry_needed else retry_needed);
              f1 = f\<lparr>fw_buffer_Rx := b\<rparr>; g1 = g\<lparr>kern := k\<rparr> in
          if needed < RETRY_COUNT then
            outcome_bind (Notify_data (fw_buffer f1) (fw_size f1) idz g1) (\<lambda>(w, g2).
              Returns (Fwd_Rsp mode idz needed, f1, g2))
          else if mode = Ping then Returns (Fwd_Top, f1, g1)
          else forward_slot mode (Suc idz) f1 g1)"

subsection \<open>Facts\<close>

lemma send_value_ok:
  assumes "length buf = 100" and "length header + (unat n - 3) \<le> 100" and "unat n \<le> 100"
  shows "\<exists>r. send_value header buf n g = Returns (r, logged (header @ take (unat n - 3) (drop 3 buf)) g)"
proof -
  let ?m = "unat n - 3"
  have "copy_loop buf (header @ replicate (100 - length header) 0) 3 (length header) ?m =
      Returns (header @ take ?m (drop 3 buf) @ replicate (100 - (length header + ?m)) 0)"
    using assms by (subst copy_loop_ok) auto
  moreover have "length (header @ take ?m (drop 3 buf)) = length header + ?m"
    using assms by auto
  ultimately show ?thesis
    using assms(2) by (simp add: send_value_def BLECOMWrite_def Let_def)
qed

lemma send_value_fault:
  assumes "length buf = 100" and "length header \<le> 100" and "unat n \<le> 100" and "100 < length header + (unat n - 3)"
    and "3 < length header"
  shows "send_value header buf n g = Fault (Index_Range 100 100)"
proof -
  let ?pac = "header @ replicate (100 - length header) (0 :: u8)"
  let ?k = "100 - length header"
  let ?d = "header @ take ?k (drop 3 buf)"
  have d: "copy_loop buf ?pac 3 (length header) ?k = Returns ?d"
    using assms by (subst copy_loop_ok) auto
  have len: "length ?d = 100" and src: "3 + ?k < length buf" and k: "?k < unat n - 3"
    and j: "length header + ?k = 100"
    using assms by auto
  have "store ?d 100 v = Fault (Index_Range 100 100)" for v
    unfolding store_def len by simp
  with src j have "outcome_bind (load buf (3 + ?k)) (\<lambda>v. store ?d (length header + ?k) v) =
      Fault (Index_Range 100 100)"
    by simp
  with k d have "copy_loop buf ?pac 3 (length header) (unat n - 3) = Fault (Index_Range 100 100)"
    by (rule copy_loop_fault)
  then show ?thesis by (simp add: send_value_def)
qed

text \<open>The frame both routines build: header, fixed parameters, and the message without its first
  three bytes, with the length byte that fits.\<close>

lemma send_value_frames:
  assumes buf: "length buf = 100" and n: "3 \<le> unat n" "4 + length pre + (unat n - 3) \<le> 100"
    and header: "header = [PKT_COMMAND, LSBYTEOF16BIT op, MSBYTEOF16BIT op,
      word_of_int (uint n - 3 + int (length pre))] @ pre"
  shows "\<exists>r bs. send_value header buf n g = Returns (r, logged bs g) \<and>
     hci_command op (pre @ take (unat n - 3) (drop 3 buf)) bs"
proof -
  let ?d = "take (unat n - 3) (drop 3 buf)"
  have "length header = 4 + length pre" by (simp add: header)
  with n have "length header + (unat n - 3) \<le> 100" "unat n \<le> 100" by linarith+
  then obtain r where r: "send_value header buf n g = Returns (r, logged (header @ ?d) g)"
    using send_value_ok [OF buf] by blast
  have d: "length ?d = unat n - 3" using buf n by simp
  have "uint n - 3 + int (length pre) = int (length pre + (unat n - 3))"
    using n(1) by (simp add: of_nat_diff)
  then have "(word_of_int (uint n - 3 + int (length pre)) :: u8) = word_of_nat (length (pre @ ?d))"
    using d by (simp only: of_int_of_nat_eq length_append)
  then have "hci_command op (pre @ ?d) (header @ ?d)"
    using n(2) d by (simp add: hci_command_def header PKT_COMMAND_def)
  with r show ?thesis by blast
qed

lemma notify_frames:
  assumes "length buf = 100" and "3 \<le> unat n" and "unat n \<le> 94"
  shows "\<exists>r bs. Notify_data buf n idz g = Returns (r, logged bs g) \<and>
     hci_command GATT_NOTIFICATION ([0x00, 0x00, 0x00, 0x07, 0x00] @ take (unat n - 3) (drop 3 buf)) bs"
  unfolding Notify_data_def
  by (rule send_value_frames) (use assms in \<open>simp_all add: Notify_data_header_def\<close>)

lemma write_value_frames:
  assumes "length buf = 100" and "3 \<le> unat n" and "unat n \<le> 95"
  shows "\<exists>r bs. GATT_WRITE_VALUE buf n idz g = Returns (r, logged bs g) \<and>
     hci_command GATT_WRITECHARVALUE ([word_of_nat idz, 0x00, 0x03, 0x00] @ take (unat n - 3) (drop 3 buf)) bs"
  unfolding GATT_WRITE_VALUE_def
  by (rule send_value_frames) (use assms in \<open>simp_all add: GATT_WRITE_VALUE_header_def\<close>)

lemma recv_into:
  assumes "kernel_ok MTEXT_SIZE k" and "contents k q = Some (m # ms)" and "length b = 100"
  shows "\<exists>k'. sys_mq_recv MTEXT_SIZE k q b n0 =
      Returns (0, m @ drop (length m) b, word_of_nat (length m), k') \<and>
    contents k' = (contents k)(q \<mapsto> ms) \<and> length m \<le> 100 \<and> kernel_ok MTEXT_SIZE k'"
proof -
  have "length m \<le> 100" using contents_fits [OF assms(1,2)] by (simp add: MTEXT_SIZE_def)
  with recv_takes [OF assms(1,2), of b n0] sys_mq_recv_ok [OF assms(1), of q b n0] assms(3) show ?thesis
    by auto
qed


subsection \<open>Properties\<close>

text \<open>C34: A notification to a peer: a queued message of 3 to 94 bytes becomes one well-formed
  command 0xFD9B whose parameters are a fixed handle and attribute followed by the message
  without its 3-byte header, whichever slot it is meant for.\<close>

theorem Notify_data_frames:
  assumes "length buf = 100" and "3 \<le> unat n" and "unat n \<le> 94"
  shows "\<exists>r bs. Notify_data buf n idz g = Returns (r, logged bs g) \<and>
     hci_command GATT_NOTIFICATION ([0x00, 0x00, 0x00, 0x07, 0x00] @ take (unat n - 3) (drop 3 buf)) bs"
  by (rule notify_frames [OF assms])

theorem Notify_data_frames_witness:
  "\<exists>r bs. Notify_data (replicate 100 0x41) 13 2 (central_demo []) = Returns (r, logged bs (central_demo [])) \<and>
     hci_command GATT_NOTIFICATION
       ([0x00, 0x00, 0x00, 0x07, 0x00] @ take (unat (13 :: u16) - 3) (drop 3 (replicate 100 0x41))) bs"
  by (rule Notify_data_frames) simp_all

text \<open>A forwarded message of 95 to 100 bytes, which the queue accepts, is written past the end
  of the 100-byte packet array of \<open>Notify_data\<close>.\<close>

lemma Notify_data_overruns:
  assumes "length buf = 100" and "94 < unat n" and "unat n \<le> 100"
  shows "Notify_data buf n idz g = Fault (Index_Range 100 100)"
  unfolding Notify_data_def
  by (rule send_value_fault) (use assms in \<open>simp_all add: Notify_data_header_def\<close>)

lemma Notify_data_overruns_witness:
  "Notify_data (replicate 100 0x41) 97 0 (central_demo []) = Fault (Index_Range 100 100)"
  by (rule Notify_data_overruns) simp_all

text \<open>The value of a write request, as the pipe thread queues it.\<close>

lemma pipe_value:
  assumes "kernel_ok MTEXT_SIZE k" and "contents k in_id = Some (m # ms)" and "contents k out_id = Some os"
    and "in_id \<noteq> out_id" and "length buff = 100" and "length fwd = 100"
    and "MAKE16OFXY (m ! 4) (m ! 3) = EVENT_VS_ATT_WRITE_REQUEST" and "unat (m ! 8) = 4 + d" and "13 + d \<le> length m"
    and "room MTEXT_SIZE k out_id 1"
  shows "\<exists>buff' fwd' k'. pipe_0000 in_id out_id buff fwd k = Returns (buff', fwd', k') \<and>
     contents k' = (contents k)(in_id \<mapsto> ms, out_id \<mapsto> os @ [[0x00, 0x01, word_of_nat d] @ take d (drop 13 m)])"
proof -
  obtain k1 where r: "sys_mq_recv MTEXT_SIZE k in_id buff 0 =
      Returns (0, m @ drop (length m) buff, word_of_nat (length m), k1)"
    and c1: "contents k1 = (contents k)(in_id \<mapsto> ms)" and m: "length m \<le> 100"
    and ok1: "kernel_ok MTEXT_SIZE k1"
    using recv_into [OF assms(1,2,5)] by blast
  let ?b = "m @ drop (length m) buff"
  let ?f = "fwd[0 := 0x00, 1 := 0x01, 2 := word_of_int (0x00 + int d)]"
  have lb: "length ?b = 100" using m assms(5) by simp
  have nth: "?b ! i = m ! i" if "i < 13" for i using that assms(9) by (simp add: nth_append)
  have f3: "take 3 ?f = [0x00, 0x01, word_of_nat d]"
    using update_first3 [of fwd "0x00" "0x01" "word_of_int (0x00 + int d)"] assms(6) by simp
  have d13: "take d (drop 13 ?b) = take d (drop 13 m)" using assms(9) by simp
  have fits: "13 + d \<le> length ?b" "3 + d \<le> length ?f" using m lb assms(6,9) by simp_all
  let ?f1 = "take 3 ?f @ take d (drop 13 ?b) @ drop (3 + d) ?f"
  have cp: "copy_loop ?b ?f 13 3 d = Returns ?f1"
    using fits by (rule copy_loop_ok)
  have n: "unat (word_of_int (int d + 3) :: u16) = d + 3"
  proof -
    have "(word_of_int (int d + 3) :: u16) = word_of_nat (d + 3)" by simp
    moreover have "d + 3 < 65536" using m assms(9) by simp
    ultimately show ?thesis by (simp only: unat_of_nat_u16)
  qed
  have out: "contents k1 out_id = Some os" using c1 assms(3,4) by simp
  have room: "room MTEXT_SIZE k1 out_id 1"
    using recv_room [OF r, of out_id] assms(4,10) by simp
  have len: "unat (word_of_int (int d + 3) :: u16) \<le> length ?f1" "unat (word_of_int (int d + 3) :: u16) \<le> MTEXT_SIZE"
    using n m assms(6,9) lb by (simp_all add: MTEXT_SIZE_def)
  obtain k2 where s: "sys_mq_send MTEXT_SIZE k1 out_id ?f1 (word_of_int (int d + 3)) = Returns (0, k2)"
    and c2: "contents k2 = (contents k1)(out_id \<mapsto> os @ [take (d + 3) ?f1])"
    using send_appends [OF out len(2,1), of 0] room n by auto
  have t: "take (d + 3) ?f1 = [0x00, 0x01, word_of_nat d] @ take d (drop 13 m)"
    unfolding f3 d13 using assms(9) by (simp add: numeral_3_eq_3)
  have "uint (?b ! 8) = 4 + int d"
    using assms(8) arg_cong [OF assms(8), of int] by (simp add: nth)
  moreover have "MAKE16OFXY (?b ! 4) (?b ! 3) = EVENT_VS_ATT_WRITE_REQUEST"
    using assms(7) by (simp add: nth)
  ultimately show ?thesis
    using r cp s c2 t c1 by (simp add: pipe_0000_def pipe_forward_def add.commute)
qed

lemma pipe_0000_ok [keeps_wf]:
  "kernel_ok MTEXT_SIZE k \<Longrightarrow> on_return (\<lambda>(b, f, k'). kernel_ok MTEXT_SIZE k') (pipe_0000 in_id out_id buff fwd k)"
proof -
  assume ok: "kernel_ok MTEXT_SIZE k"
  have fwd: "kernel_ok MTEXT_SIZE k2" if "pipe_forward n dir st out_id b fw k1 = Returns (b', f', k2)" "kernel_ok MTEXT_SIZE k1"
    for n dir st b fw k1 b' f' k2
    using that sys_mq_send_ok [OF that(2)]
    by (auto simp: pipe_forward_def outcome_bind_eq_Returns on_return_iff)
  show ?thesis
    using sys_mq_recv_ok [OF ok, of in_id buff 0]
    by (auto simp: pipe_0000_def on_return_iff outcome_bind_eq_Returns Let_def intro: fwd split: if_splits)
qed

text \<open>Two queues: the pipe's with one message, and an empty one for the peers.\<close>

definition pipe_demo :: "u8 list \<Rightarrow> kernel" where
  "pipe_demo m =
     \<lparr>mq_key = [CONN_PIPE_0_KEY \<mapsto> 0, MESSAGE_SEND_TO_PEER_DEVICE_KEY \<mapsto> 1],
      mq_msgs = [0 \<mapsto> [\<lparr>m_type = 1, m_size = MQBUFSIZE MTEXT_SIZE, m_length = word_of_nat (length m), m_text = m\<rparr>],
                 1 \<mapsto> []],
      mq_next = 2, mq_limit = 32, mq_qbytes = 16384\<rparr>"

lemma pipe_demo_ok: "length m \<le> 100 \<Longrightarrow> kernel_ok MTEXT_SIZE (pipe_demo m)"
  by (auto simp: kernel_ok_def pipe_demo_def message_ok_def MTEXT_SIZE_def CONN_PIPE_0_KEY_def unat_of_nat
      MESSAGE_SEND_TO_PEER_DEVICE_KEY_def split: if_splits)

lemma pipe_demo_contents: "contents (pipe_demo m) 0 = Some [m]" "contents (pipe_demo m) 1 = Some []"
  "room MTEXT_SIZE (pipe_demo m) 1 1"
  by (simp_all add: pipe_demo_def contents_def room_def queued_bytes_def MQBUFSIZE_def MTEXT_SIZE_def)

definition write_event :: "u8 list" where
  "write_event = [4, 0xFF, 12, 0x12, 0x05, 0, 0, 0, 6, 0, 0, 3, 0, 0x41, 0x42]"

lemma pipe_value_witness:
  "\<exists>buff' fwd' k'. pipe_0000 0 1 (replicate 100 0) (replicate 100 0) (pipe_demo write_event) =
       Returns (buff', fwd', k') \<and>
     contents k' = (contents (pipe_demo write_event))
       (0 \<mapsto> [], 1 \<mapsto> [] @ [[0x00, 0x01, word_of_nat 2] @ take 2 (drop 13 write_event)])"
  by (rule pipe_value [OF pipe_demo_ok pipe_demo_contents(1,2) _ _ _ _ _ _ pipe_demo_contents(3)])
    (simp_all add: write_event_def make16_eq_iff byte_macro_defs EVENT_VS_ATT_WRITE_REQUEST_def)

text \<open>A write request whose length byte is 0 makes the pipe thread ask for a message of 65535
  bytes: the length 0 - 4 + 3 is -1, and -1 as a 16-bit size is copied into the 100-byte text.\<close>

lemma pipe_length_underflow:
  assumes "kernel_ok MTEXT_SIZE k" and "contents k in_id = Some (m # ms)" and "length buff = 100"
    and "9 \<le> length m" and "MAKE16OFXY (m ! 4) (m ! 3) = EVENT_VS_ATT_WRITE_REQUEST" and "m ! 8 = 0"
  shows "pipe_0000 in_id out_id buff fwd k = Fault (Overflow 100 65535)"
proof -
  obtain k1 where r: "sys_mq_recv MTEXT_SIZE k in_id buff 0 =
      Returns (0, m @ drop (length m) buff, word_of_nat (length m), k1)"
    using recv_into [OF assms(1-3)] by blast
  have nth: "(m @ drop (length m) buff) ! i = m ! i" if "i < 9" for i
    using that assms(4) by (simp add: nth_append)
  have "unat (- 1 :: u16) = 65535"
    by (simp add: unsigned_minus_1_eq_mask mask_eq_exp_minus_1)
  then have "sys_mq_send MTEXT_SIZE k1 out_id f (- 1) = Fault (Overflow 100 65535)" for f
    by (simp add: sys_mq_send_def MTEXT_SIZE_def)
  with r assms(5,6) show ?thesis
    by (simp add: pipe_0000_def pipe_forward_def nth)
qed

lemma pipe_length_underflow_witness:
  "pipe_0000 0 1 (replicate 100 0) (replicate 100 0) (pipe_demo [4, 0xFF, 6, 0x12, 0x05, 0, 0, 0, 0]) =
     Fault (Overflow 100 65535)"
  by (rule pipe_length_underflow [OF pipe_demo_ok pipe_demo_contents(1)])
    (simp_all add: make16_eq_iff byte_macro_defs EVENT_VS_ATT_WRITE_REQUEST_def)

subsection \<open>The retry loops\<close>

definition forward_ok :: "forward \<Rightarrow> bool" where
  "forward_ok f \<longleftrightarrow> length (fw_buffer f) = 100 \<and> length (fw_buffer_Rx f) = 100 \<and>
     3 \<le> unat (fw_size f) \<and> unat (fw_size f) \<le> 94"

definition notify_packet :: "forward \<Rightarrow> u8 list" where
  "notify_packet f = Notify_data_header (fw_size f) @ take (unat (fw_size f) - 3) (drop 3 (fw_buffer f))"

lemma notify_sends:
  "forward_ok f \<Longrightarrow> \<exists>r. Notify_data (fw_buffer f) (fw_size f) idz g = Returns (r, logged (notify_packet f) g)"
  unfolding Notify_data_def notify_packet_def
  by (rule send_value_ok) (auto simp: forward_ok_def Notify_data_header_def)

text \<open>A response whose status byte is \<open>st\<close>, first in the response queue.\<close>

lemma response_step:
  assumes "forward_ok f" and "kernel_ok MTEXT_SIZE (kern g)"
    and "contents (kern g) (fw_WRITE_RSP_ID f) = Some (m # ms)" and "6 \<le> length m"
    and "retry_update mode (m ! 5) needed < RETRY_COUNT"
  shows "\<exists>f' g'. forward_step (Fwd_Rsp mode idz needed) f g =
       Returns (Fwd_Rsp mode idz (retry_update mode (m ! 5) needed), f', g') \<and>
     map fst (tx_log g') = map fst (tx_log g) @ [notify_packet f] \<and>
     contents (kern g') = (contents (kern g))(fw_WRITE_RSP_ID f \<mapsto> ms)"
proof -
  obtain k where r: "sys_mq_recv MTEXT_SIZE (kern g) (fw_WRITE_RSP_ID f) (fw_buffer_Rx f) 0 =
      Returns (0, m @ drop (length m) (fw_buffer_Rx f), word_of_nat (length m), k)"
    and c: "contents k = (contents (kern g))(fw_WRITE_RSP_ID f \<mapsto> ms)"
    using recv_into [OF assms(2,3), of "fw_buffer_Rx f" 0] assms(1) by (auto simp: forward_ok_def)
  let ?b = "m @ drop (length m) (fw_buffer_Rx f)"
  have b5: "?b ! 5 = m ! 5" using assms(4) by (simp add: nth_append)
  obtain w where n: "Notify_data (fw_buffer f) (fw_size f) idz (g\<lparr>kern := k\<rparr>) =
      Returns (w, logged (notify_packet f) (g\<lparr>kern := k\<rparr>))"
    using notify_sends [OF assms(1)] by blast
  show ?thesis
    using assms(5) c by (simp add: r n Let_def b5)
qed

definition demo_forward :: forward where
  "demo_forward = \<lparr>fw_buffer = replicate 100 0xFF, fw_size = 10, fw_buffer_Rx = replicate 100 0,
                   fw_WRITE_RSP_ID = tCommandRespQId (central_demo []), fw_Queue_Id = tCommandRespQId (central_demo [])\<rparr>"

lemma demo_forward_ok: "forward_ok demo_forward"
  by (simp add: forward_ok_def demo_forward_def)

lemma demo_forward_queue:
  "contents (kern (central_demo ms)) (fw_WRITE_RSP_ID demo_forward) = Some ms"
  "contents (kern (central_demo ms)) (fw_Queue_Id demo_forward) = Some ms"
  using central_demo_contents [of ms] by (simp_all add: demo_forward_def central_demo_def)

lemma central_demo_kernel: "list_all (\<lambda>m. length m \<le> MTEXT_SIZE) ms \<Longrightarrow> kernel_ok MTEXT_SIZE (kern (central_demo ms))"
  using central_demo_ok by (simp add: globals_ok_def)

definition busy_response :: "u8 list" where
  "busy_response = [4, 0xFF, 6, 0x7F, 0x06, 0x16, 0x9B, 0xFD, 0]"

text \<open>The cloud's retry loop never gives up on a busy controller: after a response with status
  0x16 the message is sent again and the retry counter is what it was, so any number of busy
  responses leads to the same number of repetitions and the same waiting point.\<close>

lemma cloud_retry_unbounded:
  assumes "forward_ok f" and "kernel_ok MTEXT_SIZE (kern g)"
    and "contents (kern g) (fw_WRITE_RSP_ID f) = Some (m # ms)" and "6 \<le> length m"
    and "m ! 5 = 0x16" and "needed < RETRY_COUNT"
  shows "\<exists>f' g'. forward_step (Fwd_Rsp Cloud idz needed) f g = Returns (Fwd_Rsp Cloud idz needed, f', g') \<and>
     map fst (tx_log g') = map fst (tx_log g) @ [notify_packet f]"
  using response_step [OF assms(1-4), of Cloud needed idz] assms(5,6)
  by (auto simp: retry_update_def)

lemma cloud_retry_unbounded_witness:
  "\<exists>f' g'. forward_step (Fwd_Rsp Cloud 0 2) demo_forward (central_demo [busy_response]) =
       Returns (Fwd_Rsp Cloud 0 2, f', g') \<and>
     map fst (tx_log g') = map fst (tx_log (central_demo [busy_response])) @ [notify_packet demo_forward]"
  by (rule cloud_retry_unbounded [OF demo_forward_ok central_demo_kernel demo_forward_queue(1)])
    (simp_all add: busy_response_def MTEXT_SIZE_def RETRY_COUNT_def)

lemma funpow_4: "(f ^^ 4) x = f (f (f (f x)))"
  by (simp add: eval_nat_numeral)

text \<open>The other two loops stop after at most four sends: each busy response raises the counter by
  one, a message-buffer error (0x04) resets it, and success (0x00) and a lost connection (0x14)
  end the loop.\<close>

lemma retry_counter:
  assumes "mode \<noteq> Cloud" and "needed < RETRY_COUNT"
  shows "retry_update mode 0x16 needed = needed + 1 \<and>
     (retry_update mode 0x16 needed < RETRY_COUNT \<longleftrightarrow> needed \<noteq> 3) \<and>
     retry_update mode 0x04 needed = 0 \<and>
     \<not> retry_update mode 0x00 needed < RETRY_COUNT \<and> \<not> retry_update mode 0x14 needed < RETRY_COUNT \<and>
     \<not> (((\<lambda>c. retry_update mode 0x16 c) ^^ 4) 0 < RETRY_COUNT)"
proof -
  have "needed = 0 \<or> needed = 1 \<or> needed = 2 \<or> needed = 3"
    using assms(2) word_less_4 [of needed] by (simp add: RETRY_COUNT_def)
  with assms(1) show ?thesis
    by (elim disjE) (simp_all add: retry_update_def RETRY_COUNT_def funpow_4)
qed

lemma retry_counter_witness:
  "retry_update Ping 0x16 1 = 1 + 1 \<and> (retry_update Ping 0x16 1 < RETRY_COUNT \<longleftrightarrow> (1 :: u8) \<noteq> 3) \<and>
     retry_update Ping 0x04 1 = 0 \<and>
     \<not> retry_update Ping 0x00 1 < RETRY_COUNT \<and> \<not> retry_update Ping 0x14 1 < RETRY_COUNT \<and>
     \<not> (((\<lambda>c. retry_update Ping 0x16 c) ^^ 4) 0 < RETRY_COUNT)"
  by (rule retry_counter) (simp_all add: RETRY_COUNT_def)

text \<open>A message from the cloud is dropped silently while no device is connected, whatever the
  message: it is taken from the queue and nothing is written to the UART.\<close>

lemma cloud_message_dropped:
  assumes "kernel_ok MTEXT_SIZE (kern g)" and "contents (kern g) (fw_Queue_Id f) = Some (m # ms)"
    and "length (fw_buffer f) = 100" and "1 \<le> length m" and "m ! 0 = 0xFF"
    and "list_all (\<lambda>d. cd_status d \<noteq> 1) (Conn_Device_List g)" and "length (Conn_Device_List g) = 6"
  shows "\<exists>f' g'. forward_step Fwd_Top f g = Returns (Fwd_Top, f', g') \<and> tx_log g' = tx_log g \<and>
     contents (kern g') = (contents (kern g))(fw_Queue_Id f \<mapsto> ms)"
proof -
  obtain k where r: "sys_mq_recv MTEXT_SIZE (kern g) (fw_Queue_Id f) (fw_buffer f) (fw_size f) =
      Returns (0, m @ drop (length m) (fw_buffer f), word_of_nat (length m), k)"
    and c: "contents k = (contents (kern g))(fw_Queue_Id f \<mapsto> ms)"
    using recv_into [OF assms(1,2,3), of "fw_size f"] by blast
  let ?f = "f\<lparr>fw_buffer := m @ drop (length m) (fw_buffer f), fw_size := word_of_nat (length m)\<rparr>"
  have "next_slot Cloud (Conn_Device_List g) 0 = None"
    unfolding next_slot_def find_None_iff
    using assms(6,7) by (auto simp: list_all_length MAX_NUM_PERIPHERALS_def)
  then have "forward_slot Cloud 0 ?f (g\<lparr>kern := k\<rparr>) = Returns (Fwd_Top, ?f, g\<lparr>kern := k\<rparr>)"
    by (simp add: forward_slot_def)
  moreover have "fw_buffer ?f ! 0 = 0xFF" using assms(4,5) by (cases m) simp_all
  ultimately have "forward_message ?f (g\<lparr>kern := k\<rparr>) = Returns (Fwd_Top, ?f, g\<lparr>kern := k\<rparr>)"
    by (simp add: forward_message_def Let_def)
  then show ?thesis using r c by simp
qed

lemma cloud_message_dropped_witness:
  "\<exists>f' g'. forward_step Fwd_Top demo_forward (central_demo [[0xFF, 0x01, 0x02, 0x41, 0x42]]) =
       Returns (Fwd_Top, f', g') \<and> tx_log g' = tx_log (central_demo [[0xFF, 0x01, 0x02, 0x41, 0x42]]) \<and>
     contents (kern g') = (contents (kern (central_demo [[0xFF, 0x01, 0x02, 0x41, 0x42]])))
       (fw_Queue_Id demo_forward \<mapsto> [])"
  by (rule cloud_message_dropped [OF central_demo_kernel demo_forward_queue(2)])
    (simp_all add: MTEXT_SIZE_def demo_forward_def central_demo_def zero_dev_def list_all_iff)

end
