(* ===== verification/Relay.thy ===== *)
theory Relay
  imports Rx_Dispatch Forward
begin

text \<open>
  A value written by the phone on its way through the program: the dispatcher queues the write
  request for pipe 0 and acknowledges it, \<open>pipe_0000_Thread\<close> cuts the value out and queues it
  for the peers, \<open>Forward_MSG_Queue_Thread\<close> sends it out again.  \<open>main\<close> does not start the last
  two threads; this is what they do with the message when they run.
\<close>

subsection \<open>The dispatcher's part\<close>

text \<open>A write request on the attribute 0x0003 of connection 0 that is none of the three kinds the
  dispatcher sends elsewhere.\<close>

definition relayed_request :: "u8 list \<Rightarrow> nat \<Rightarrow> bool" where
  "relayed_request p d \<longleftrightarrow>
     vendor_event p \<and> \<not> shadowed p \<and> event_code p = EVENT_VS_ATT_WRITE_REQUEST \<and>
     p ! 6 = 0 \<and> p ! 11 = 0x03 \<and> p ! 12 = 0x00 \<and> unat (p ! 8) = 4 + d \<and>
     \<not> (p ! 13 = 0x30 \<and> p ! 14 = 0x31) \<and>
     \<not> (p ! 13 = 0x50 \<and> p ! 14 = 0x42 \<and> p ! 31 = 0x50 \<and> p ! 32 = 0x45)"

lemma relayed_dispatch:
  assumes "relayed_request p d"
  shows "dispatch qs p n = [Mq_Send (Pipe_0_Id qs) p n, Data_Ack 0]"
proof -
  have r: "vendor_event p" "\<not> shadowed p" "event_code p = EVENT_VS_ATT_WRITE_REQUEST"
    and b: "p ! 6 = 0" "p ! 11 = 0x03" "p ! 12 = 0x00" "\<not> (p ! 13 = 0x30 \<and> p ! 14 = 0x31)"
      "\<not> (p ! 13 = 0x50 \<and> p ! 14 = 0x42 \<and> p ! 31 = 0x50 \<and> p ! 32 = 0x45)"
    using assms by (simp_all add: relayed_request_def)
  have "MAKE16OFXY (p ! 12) (p ! 11) = 0x0003" using b by (simp add: MAKE16OFXY_def)
  moreover have "dispatch qs p n = dispatch_write_request qs p n"
    using dispatch_vendor [OF r(1,2) refl, of qs n] r(3) by (simp add: command_events_def hci_codes)
  ultimately show ?thesis
    using b by (simp add: dispatch_write_request_def send_pipe_def)
qed

lemma relayed_actions:
  assumes r: "relayed_request p d" and n: "unat n \<le> MTEXT_SIZE" "unat n \<le> length p"
    and q: "contents (kern g) (Pipe_0_Id qs) = Some ms" "room MTEXT_SIZE (kern g) (Pipe_0_Id qs) 1"
  shows "\<exists>k. run_actions (dispatch qs p n) g = Returns (logged [0x01, 0x13, 0xFD, 0x02, 0x00, 0x00] (g\<lparr>kern := k\<rparr>)) \<and>
     run_action (Mq_Send (Pipe_0_Id qs) p n) g = Returns (g\<lparr>kern := k\<rparr>) \<and>
     contents k = (contents (kern g))(Pipe_0_Id qs \<mapsto> ms @ [take (unat n) p])"
proof -
  obtain k where "run_action (Mq_Send (Pipe_0_Id qs) p n) g = Returns (g\<lparr>kern := k\<rparr>)"
    and "contents k = (contents (kern g))(Pipe_0_Id qs \<mapsto> ms @ [take (unat n) p])"
    using run_send_delivers [OF q(1) n, of 0] q(2) by auto
  then show ?thesis
    using run_ack [of 0 "g\<lparr>kern := k\<rparr>"]
    by (intro exI [of _ k]) (simp add: relayed_dispatch [OF r] del: run_action.simps)
qed


subsection \<open>The forwarding thread's part\<close>

lemma forward_to_slave:
  assumes "fw_buffer f ! 0 = 0" "fw_buffer f ! 1 = 1"
    and "Notify_data (fw_buffer f) (fw_size f) 0 g = Returns (r1, g1)"
    and "GATT_WRITE_VALUE (fw_buffer f) (fw_size f) 0 g1 = Returns (r2, g2)" and "Slave_Count g2 = 0"
  shows "forward_message f g = Returns (Fwd_Top, f, g2)"
  using assms by (simp add: forward_message_def)

lemma forwards_to_phone:
  assumes ok: "kernel_ok MTEXT_SIZE (kern g)"
    and c: "contents (kern g) (fw_Queue_Id f) = Some (([0x00, 0x01, x] @ value) # ms)"
    and f: "length (fw_buffer f) = 100" "length value \<le> 91" "Slave_Count g = 0"
  shows "\<exists>f' g' bs1 bs2. forward_step Fwd_Top f g = Returns (Fwd_Top, f', g') \<and>
     map fst (tx_log g') = map fst (tx_log g) @ [bs1, bs2] \<and>
     hci_command GATT_NOTIFICATION ([0x00, 0x00, 0x00, 0x07, 0x00] @ value) bs1 \<and>
     hci_command GATT_WRITECHARVALUE ([0x00, 0x00, 0x03, 0x00] @ value) bs2 \<and>
     contents (kern g') = (contents (kern g))(fw_Queue_Id f \<mapsto> ms)"
proof -
  let ?m = "[0x00, 0x01, x] @ value"
  obtain k where r: "sys_mq_recv MTEXT_SIZE (kern g) (fw_Queue_Id f) (fw_buffer f) (fw_size f) =
      Returns (0, ?m @ drop (length ?m) (fw_buffer f), word_of_nat (length ?m), k)"
    and ck: "contents k = (contents (kern g))(fw_Queue_Id f \<mapsto> ms)"
    using recv_into [OF ok c f(1), of "fw_size f"] by blast
  let ?b = "?m @ drop (length ?m) (fw_buffer f)" and ?n = "word_of_nat (length ?m) :: u16"
  let ?g = "g\<lparr>kern := k\<rparr>"
  have "length ?m < 65536" using f(2) by simp
  then have n: "unat ?n = 3 + length value" by (simp only: unat_of_nat_u16) simp
  have b: "length ?b = 100" "take (unat ?n - 3) (drop 3 ?b) = value"
    using f(1,2) unfolding n by (simp_all add: numeral_3_eq_3)
  have hd: "?b ! 0 = 0" "?b ! 1 = 1" by simp_all
  obtain r1 bs1 where 1: "Notify_data ?b ?n 0 ?g = Returns (r1, logged bs1 ?g)"
    and h1: "hci_command GATT_NOTIFICATION ([0x00, 0x00, 0x00, 0x07, 0x00] @ value) bs1"
    using notify_frames [OF b(1), of ?n 0 ?g] n f(2) unfolding b(2) by auto
  obtain r2 bs2 where 2: "GATT_WRITE_VALUE ?b ?n 0 (logged bs1 ?g) = Returns (r2, logged bs2 (logged bs1 ?g))"
    and h2: "hci_command GATT_WRITECHARVALUE ([0x00, 0x00, 0x03, 0x00] @ value) bs2"
    using write_value_frames [OF b(1), of ?n 0 "logged bs1 ?g"] n f(2) unfolding b(2) by auto
  let ?f = "f\<lparr>fw_buffer := ?b, fw_size := ?n\<rparr>"
  have "forward_message ?f ?g = Returns (Fwd_Top, ?f, logged bs2 (logged bs1 ?g))"
    by (rule forward_to_slave) (use hd 1 2 f(3) in \<open>simp_all del: append.simps\<close>)
  then have "forward_step Fwd_Top f g = Returns (Fwd_Top, ?f, logged bs2 (logged bs1 ?g))"
    by (simp only: forward_step.simps r outcome_bind.simps split_conv)
  with h1 h2 ck show ?thesis by (intro exI conjI) auto
qed


subsection \<open>The whole way\<close>

lemma send_other_room:
  "run_action (Mq_Send q p n) g = Returns g' \<Longrightarrow> q' \<noteq> q \<Longrightarrow>
   room cap (kern g') q' j = room cap (kern g) q' j"
  by (auto simp: outcome_bind_eq_Returns sys_mq_send_def msgsnd_def room_def split: if_splits option.splits)

text \<open>C35: A value written by the phone comes back out: a write request of \<open>d\<close> value bytes on
  attribute 3 of connection 0, dispatched, cut by the pipe thread and taken by the forwarding
  thread with empty queues and no connected slave, causes exactly three UART frames: the
  acknowledgement, one notification and one write command, well-formed and both carrying
  exactly the \<open>d\<close> bytes the request holds from byte 13 on.\<close>

theorem write_request_relayed:
  assumes g: "globals_ok g" "Slave_Count g = 0"
    and p: "relayed_request p d" "d \<le> 87" "unat n = 13 + d" "13 + d \<le> length p"
    and pipe: "contents (kern g) (Pipe_0_Id qs) = Some []" "room MTEXT_SIZE (kern g) (Pipe_0_Id qs) 1"
    and out: "contents (kern g) (fw_Queue_Id f) = Some []" "room MTEXT_SIZE (kern g) (fw_Queue_Id f) 1"
      "fw_Queue_Id f \<noteq> Pipe_0_Id qs"
    and buffers: "length buff = 100" "length fwd = 100" "length (fw_buffer f) = 100"
  shows "\<exists>g1 buff' fwd' k f' g2 notification write.
     run_actions (dispatch qs p n) g = Returns g1 \<and>
     pipe_0000 (Pipe_0_Id qs) (fw_Queue_Id f) buff fwd (kern g1) = Returns (buff', fwd', k) \<and>
     forward_step Fwd_Top f (g1\<lparr>kern := k\<rparr>) = Returns (Fwd_Top, f', g2) \<and>
     map fst (tx_log g2) = map fst (tx_log g) @ [[0x01, 0x13, 0xFD, 0x02, 0x00, 0x00], notification, write] \<and>
     hci_command GATT_NOTIFICATION ([0x00, 0x00, 0x00, 0x07, 0x00] @ take d (drop 13 p)) notification \<and>
     hci_command GATT_WRITECHARVALUE ([0x00, 0x00, 0x03, 0x00] @ take d (drop 13 p)) write"
proof -
  let ?m = "take (13 + d) p" and ?v = "take d (drop 13 p)"
  have fits: "unat n \<le> MTEXT_SIZE" "unat n \<le> length p" using p(2-4) by (simp_all add: MTEXT_SIZE_def)
  obtain k0 where acts: "run_actions (dispatch qs p n) g =
      Returns (logged [0x01, 0x13, 0xFD, 0x02, 0x00, 0x00] (g\<lparr>kern := k0\<rparr>))" (is "_ = Returns ?g1")
    and send: "run_action (Mq_Send (Pipe_0_Id qs) p n) g = Returns (g\<lparr>kern := k0\<rparr>)"
    and k0: "contents k0 = (contents (kern g))(Pipe_0_Id qs \<mapsto> [?m])"
    using relayed_actions [OF p(1) fits pipe] unfolding p(3) by auto
  have ok0: "kernel_ok MTEXT_SIZE k0"
    using run_action_ok [OF g(1), of "Mq_Send (Pipe_0_Id qs) p n"] send by (simp add: globals_ok_def)
  have room0: "room MTEXT_SIZE k0 (fw_Queue_Id f) 1"
    using send_other_room [OF send out(3)] out(2) by simp
  have nth: "?m ! i = p ! i" if "i < 13" for i using that by simp
  have m: "MAKE16OFXY (?m ! 4) (?m ! 3) = EVENT_VS_ATT_WRITE_REQUEST" "unat (?m ! 8) = 4 + d" "13 + d \<le> length ?m"
    using p(1,4) by (simp_all add: nth relayed_request_def event_code_def)
  obtain buff' fwd' k where pipe': "pipe_0000 (Pipe_0_Id qs) (fw_Queue_Id f) buff fwd k0 = Returns (buff', fwd', k)"
    and k: "contents k = (contents k0)(Pipe_0_Id qs \<mapsto> [], fw_Queue_Id f \<mapsto> [] @ [[0x00, 0x01, word_of_nat d] @ take d (drop 13 ?m)])"
    using pipe_value [OF ok0 _ _ _ buffers(1,2) m room0, of "Pipe_0_Id qs" "[]" "[]"] k0 out by auto
  have v: "take d (drop 13 ?m) = ?v" by (simp add: drop_take)
  have okk: "kernel_ok MTEXT_SIZE k"
    using pipe_0000_ok [OF ok0, of "Pipe_0_Id qs" "fw_Queue_Id f" buff fwd] pipe' by simp
  have c: "contents (kern (?g1\<lparr>kern := k\<rparr>)) (fw_Queue_Id f) = Some [[0x00, 0x01, word_of_nat d] @ ?v]"
    using k v by simp
  obtain f' g2 bs1 bs2 where "forward_step Fwd_Top f (?g1\<lparr>kern := k\<rparr>) = Returns (Fwd_Top, f', g2)"
    "map fst (tx_log g2) = map fst (tx_log (?g1\<lparr>kern := k\<rparr>)) @ [bs1, bs2]"
    "hci_command GATT_NOTIFICATION ([0x00, 0x00, 0x00, 0x07, 0x00] @ ?v) bs1"
    "hci_command GATT_WRITECHARVALUE ([0x00, 0x00, 0x03, 0x00] @ ?v) bs2"
    using forwards_to_phone [OF _ c buffers(3)] okk p(2,4) g(2) by auto
  with acts pipe' show ?thesis
    by (intro exI [of _ ?g1] exI [of _ buff'] exI [of _ fwd'] exI [of _ k] exI [of _ f'] exI [of _ g2]
        exI [of _ bs1] exI [of _ bs2]) simp
qed


text \<open>Two empty queues, ids 3 (pipe 0 of the concrete identifiers) and 0 (the peers').\<close>

definition relay_kernel :: kernel where
  "relay_kernel =
     \<lparr>mq_key = [CONN_PIPE_0_KEY \<mapsto> 3, MESSAGE_SEND_TO_PEER_DEVICE_KEY \<mapsto> 0],
      mq_msgs = [3 \<mapsto> [], 0 \<mapsto> []], mq_next = 4, mq_limit = 32, mq_qbytes = 16384\<rparr>"

lemma relay_kernel_ok: "kernel_ok MTEXT_SIZE relay_kernel"
  by (simp add: kernel_ok_def relay_kernel_def CONN_PIPE_0_KEY_def MESSAGE_SEND_TO_PEER_DEVICE_KEY_def)

theorem write_request_relayed_witness:
  "\<exists>g1 buff' fwd' k f' g2 notification write.
     run_actions (dispatch demo_queues (packet_of write_event) 15)
       (initial_globals relay_kernel (\<lambda>i n. int n) (\<lambda>i. 0)) = Returns g1 \<and>
     pipe_0000 (Pipe_0_Id demo_queues) (fw_Queue_Id demo_forward) (replicate 100 0) (replicate 100 0) (kern g1) =
       Returns (buff', fwd', k) \<and>
     forward_step Fwd_Top demo_forward (g1\<lparr>kern := k\<rparr>) = Returns (Fwd_Top, f', g2) \<and>
     map fst (tx_log g2) = map fst (tx_log (initial_globals relay_kernel (\<lambda>i n. int n) (\<lambda>i. 0))) @
       [[0x01, 0x13, 0xFD, 0x02, 0x00, 0x00], notification, write] \<and>
     hci_command GATT_NOTIFICATION ([0x00, 0x00, 0x00, 0x07, 0x00] @ take 2 (drop 13 (packet_of write_event))) notification \<and>
     hci_command GATT_WRITECHARVALUE ([0x00, 0x00, 0x03, 0x00] @ take 2 (drop 13 (packet_of write_event))) write"
  by (rule write_request_relayed [OF initial_globals_ok [OF relay_kernel_ok]])
    (simp_all add: relayed_request_def packet_simps write_event_def EVENT_VS_ATT_WRITE_REQUEST_def demo_queues_def
      demo_forward_def central_demo_def relay_kernel_def contents_def room_def queued_bytes_def MQBUFSIZE_def MTEXT_SIZE_def)

end
