(* ===== verification/Command_Frames.thy ===== *)
theory Command_Frames
  imports Central Forward
begin

text \<open>
  What the routines that send a command write to the controller: one well-formed HCI command frame
  each, and the three places where this fails.
\<close>

text \<open>A routine that returns having written exactly one packet, a command with opcode \<open>op\<close>: type 1, the
  opcode low byte first, the number of parameter bytes, the parameters.\<close>

definition sends :: "u16 \<Rightarrow> globals \<Rightarrow> globals outcome \<Rightarrow> bool" where
  "sends op g r \<longleftrightarrow>
     (\<exists>g' bs params. r = Returns g' \<and> map fst (tx_log g') = map fst (tx_log g) @ [bs] \<and> hci_command op params bs)"

abbreviation new_state :: "('a \<times> globals) outcome \<Rightarrow> globals outcome" where
  "new_state r \<equiv> outcome_bind r (\<lambda>(v, g'). Returns g')"

text \<open>The routines that always send, with the opcodes they are meant to send.\<close>

definition command_routines :: "u8 \<Rightarrow> u16 \<Rightarrow> int \<Rightarrow> globals \<Rightarrow> (u16 \<times> globals outcome) list" where
  "command_routines param value idz g =
     [(0x0C03, new_state (HCI_Reset g)),
      (0xFE00, new_state (HCI_Init g)),
      (0xFE30, SET_PARAM param value g),
      (0x2022, new_state (Set_Data_Length g)),
      (0xFC21, new_state (HCIExt_SetMaxDataLength g)),
      (0xFC06, new_state (HCIExt_SetlocalSupportedFeatures g)),
      (0xFC01, new_state (HCI_SetTxPower g)),
      (0x1009, new_state (GET_MAC g)),
      (0xFE05, new_state (Device_Scan_Cancel_Req g)),
      (0xFD92, new_state (Enable_Notification g)),
      (0xFD13, new_state (Notify_Ack g)),
      (0xFD13, new_state (data_ack idz g)),
      (0xFE0C, passkey g),
      (0xFD92, notify g)]"

lemma sends_logged: "sends op g (Returns (g\<lparr>tx_log := tx_log g @ [(bs, w)]\<rparr>)) \<longleftrightarrow> frames_op (op, bs)"
  by (auto simp: sends_def frames_op_def simp flip: hci_parse_command split: option.splits)

lemmas pac_defs = HCI_Reset_pac_def HCI_Init_pac_def SET_PARAM_pac_def Set_Data_Length_pac_def
  HCIExt_SetMaxDataLength_pac_def HCIExt_SetlocalSupportedFeatures_pac_def HCI_SetTxPower_pac_def GET_MAC_pac_def
  Device_Scan_Req_pac_def Device_Scan_Cancel_Req_pac_def Device_Establish_Link_Req_pac_def
  Enable_Notification_pac_def Notify_Ack_pac_def bond_data_def passkey_data_def notify_data_def data_led_data_def

lemmas routine_defs = HCI_Reset_def HCI_Init_def SET_PARAM_def Set_Data_Length_def HCIExt_SetMaxDataLength_def
  local_features_status HCI_SetTxPower_def GET_MAC_def Device_Scan_Cancel_Req_def Enable_Notification_def
  Notify_Ack_def data_ack_def passkey_def notify_def

lemmas frame_simps = frames_op_def hci_parse_def PKT_COMMAND_def make16_eq_iff byte_macro_defs hci_codes

lemma routines_send: "list_all (\<lambda>(op, r). sends op g r) (command_routines param value idz g)"
  unfolding command_routines_def list.pred_inject prod.case
  by (intro conjI TrueI; simp add: routine_defs send_pac_eq Let_def sends_logged pac_defs)
    (simp_all add: frame_simps)

text \<open>The bonding routine sends its four packets when the uninitialised index of \<open>data_led\<close> allows.\<close>

lemma data_led_sends:
  "data_led_from idx g =
     (if 0 \<le> idx \<and> idx \<le> 37
      then Returns (logged (replicate (nat idx) 0 @ data_led_data) g)
      else Fault (Index_Range 50 idx))"
proof -
  have l: "length data_led_data = 13" by (simp add: data_led_data_def)
  show ?thesis
    by (auto simp: data_led_from_def l BLECOMWrite_def copy_from_def Let_def nat_le_iff)
qed

lemma bond_sends:
  "bond g =
     (let idx = env_junk g (junk_used g) in
      if 0 \<le> idx \<and> idx \<le> 37
      then Returns (logged (replicate (nat idx) 0 @ data_led_data)
        ((logged notify_data (logged passkey_data (logged bond_data g)))\<lparr>junk_used := Suc (junk_used g)\<rparr>))
      else Fault (Index_Range 50 idx))"
proof -
  have "take 164 bond_data = bond_data" "length bond_data = 164" by (simp_all add: bond_data_def)
  moreover have "length passkey_data = 12" "length notify_data = 10" by (simp_all add: passkey_data_def notify_data_def)
  ultimately show ?thesis
    by (simp add: bond_def send_pac_eq passkey_def notify_def data_led_def use_junk_def data_led_sends Let_def)
qed

lemma shifted_packet: "frames_op (0xFD92, replicate n 0 @ data_led_data) \<longleftrightarrow> n = 0"
proof (cases n)
  case (Suc k)
  then show ?thesis by (auto simp: frames_op_def hci_parse_def split: list.splits option.splits)
qed (simp add: data_led_data_def frame_simps)

lemma bond_frames: "frames_op (0xFE0B, bond_data)" "frames_op (0xFE0C, passkey_data)" "frames_op (0xFD92, notify_data)"
  by (simp_all add: pac_defs) (simp_all add: frame_simps)



end
