(* ===== verification/Forward_Retry.thy ===== *)
theory Forward_Retry
  imports Forward
begin

text \<open>
  The three retry loops of \<open>Forward_MSG_Queue_Thread\<close> as whole loops: how many responses the loops
  for the ping and for the other peers can take when the controller answers success, busy or
  disconnected, and that other answers keep every loop going, as busy does for the loop of a
  message from the cloud, whose increment is commented out.
\<close>

subsection \<open>Several steps\<close>

primrec forward_run :: "nat \<Rightarrow> forward_pc \<Rightarrow> forward \<Rightarrow> globals \<Rightarrow> (forward_pc \<times> forward \<times> globals) outcome" where
  "forward_run 0 pc f g = Returns (pc, f, g)"
| "forward_run (Suc n) pc f g = outcome_bind (forward_step pc f g) (\<lambda>(pc', f', g'). forward_run n pc' f' g')"

text \<open>A response with one of the three statuses success, busy and disconnected.\<close>

definition final_or_busy :: "u8 list \<Rightarrow> bool" where
  "final_or_busy m \<longleftrightarrow> 6 \<le> length m \<and> m ! 5 \<in> {0x00, 0x16, 0x14}"

text \<open>A response that neither ends a loop nor counts: no success and no lost connection, and busy only
  in the loop for a message from the cloud.  The status 0x04 (no message buffer) is one of
  them in every loop; so is any status the code does not name.\<close>

definition keeps_going :: "retry_mode \<Rightarrow> u8 list \<Rightarrow> bool" where
  "keeps_going mode m \<longleftrightarrow> 6 \<le> length m \<and> m ! 5 \<notin> {0x00, 0x14} \<and> (m ! 5 = 0x16 \<longrightarrow> mode = Cloud)"

definition restarted :: "u8 list list \<Rightarrow> u8 \<Rightarrow> u8" where
  "restarted ms n = (if \<exists>m \<in> set ms. m ! 5 = 0x04 then 0 else n)"

definition responses :: "forward \<Rightarrow> globals \<Rightarrow> u8 list list option" where
  "responses f g = contents (kern g) (fw_WRITE_RSP_ID f)"

text \<open>What stays the same while a message is sent again: everything but the response array.\<close>

definition same_message :: "forward \<Rightarrow> forward \<Rightarrow> bool" where
  "same_message f f' \<longleftrightarrow> f' = f\<lparr>fw_buffer_Rx := fw_buffer_Rx f'\<rparr> \<and> (forward_ok f \<longrightarrow> forward_ok f')"

lemma same_message_fields:
  assumes "same_message f f'"
  shows "notify_packet f' = notify_packet f" "fw_WRITE_RSP_ID f' = fw_WRITE_RSP_ID f"
    and "forward_ok f \<Longrightarrow> forward_ok f'"
  using assms unfolding same_message_def notify_packet_def by (cases f; cases f'; simp)+

lemma same_message_refl: "same_message f f"
  by (simp add: same_message_def)

lemma same_message_trans: "same_message f f1 \<Longrightarrow> same_message f1 f2 \<Longrightarrow> same_message f f2"
  unfolding same_message_def by (cases f; cases f1; cases f2) simp

lemma take_response:
  assumes f: "forward_ok f" and k: "kernel_ok MTEXT_SIZE (kern g)" and m: "responses f g = Some (m # ms)" "6 \<le> length m"
  shows "\<exists>b n k'. sys_mq_recv MTEXT_SIZE (kern g) (fw_WRITE_RSP_ID f) (fw_buffer_Rx f) 0 = Returns (0, b, n, k') \<and>
     b ! 5 = m ! 5 \<and> kernel_ok MTEXT_SIZE k' \<and> contents k' (fw_WRITE_RSP_ID f) = Some ms \<and>
     same_message f (f\<lparr>fw_buffer_Rx := b\<rparr>)"
proof -
  have len: "length (fw_buffer_Rx f) = 100" using f by (simp add: forward_ok_def)
  have c: "contents (kern g) (fw_WRITE_RSP_ID f) = Some (m # ms)" using m(1) by (simp add: responses_def)
  from recv_into [OF k c len, of 0] obtain k' where
    r: "sys_mq_recv MTEXT_SIZE (kern g) (fw_WRITE_RSP_ID f) (fw_buffer_Rx f) 0 =
      Returns (0, m @ drop (length m) (fw_buffer_Rx f), word_of_nat (length m), k')"
    and k': "contents k' = (contents (kern g))(fw_WRITE_RSP_ID f \<mapsto> ms)" by blast
  have "kernel_ok MTEXT_SIZE k'"
    using sys_mq_recv_ok [OF k, of "fw_WRITE_RSP_ID f" "fw_buffer_Rx f" 0] r by simp
  moreover have "length (m @ drop (length m) (fw_buffer_Rx f)) = 100"
    using sys_mq_recv_length [of MTEXT_SIZE "kern g" "fw_WRITE_RSP_ID f" "fw_buffer_Rx f" 0] r len by auto
  ultimately show ?thesis using r k' m(2) f
    by (intro exI) (auto simp: nth_append same_message_def forward_ok_def)
qed


subsection \<open>The loops that count\<close>

text \<open>The responses a loop can still take: four for each slot from \<open>idz\<close> on, and the ping has
  only one.\<close>

fun tries_left :: "forward_pc \<Rightarrow> nat" where
  "tries_left Fwd_Top = 0"
| "tries_left (Fwd_Rsp Ping idz n) = 4 - unat n"
| "tries_left (Fwd_Rsp mode idz n) = 4 * (MAX_NUM_PERIPHERALS - idz) - unat n"

definition counting_at :: "retry_mode \<Rightarrow> forward_pc \<Rightarrow> bool" where
  "counting_at mode pc \<longleftrightarrow>
     pc = Fwd_Top \<or> (\<exists>idz n. pc = Fwd_Rsp mode idz n \<and> n < RETRY_COUNT \<and> (mode = Ping \<or> idz < MAX_NUM_PERIPHERALS))"

lemma next_slot_range: "next_slot mode l i = Some idz \<Longrightarrow> i \<le> idz \<and> idz < MAX_NUM_PERIPHERALS"
  by (auto simp: next_slot_def find_Some_iff nth_upt)

lemma forward_slot_cases:
  assumes "forward_ok f"
  shows "\<exists>pc g'. forward_slot mode i f g = Returns (pc, f, g') \<and> kern g' = kern g \<and>
     (pc = Fwd_Top \<and> g' = g \<or>
      (\<exists>idz. i \<le> idz \<and> idz < MAX_NUM_PERIPHERALS \<and> pc = Fwd_Rsp mode idz 0 \<and> g' = logged (notify_packet f) g))"
proof (cases "next_slot mode (Conn_Device_List g) i")
  case (Some idz)
  obtain r where "Notify_data (fw_buffer f) (fw_size f) idz g = Returns (r, logged (notify_packet f) g)"
    using notify_sends [OF assms] by blast
  with Some next_slot_range [OF Some] show ?thesis by (simp add: forward_slot_def)
qed (simp add: forward_slot_def)

lemma unat_below_4: "n < (4 :: u8) \<Longrightarrow> unat n < 4 \<and> unat (n + 1) = Suc (unat n)"
  using word_less_4 [of n] by auto

text \<open>What a send to a slot leaves: a repetition to the same slot, the next slot, or the end.\<close>

lemma retry_goes_on:
  assumes "mode \<noteq> Cloud" and "st \<in> {0x00, 0x16, 0x14}" and "n < RETRY_COUNT"
  shows "\<not> retry_update mode st n < RETRY_COUNT \<or> retry_update mode st n = n + 1"
  using assms by (auto simp: retry_update_def)

definition resends :: "forward \<Rightarrow> globals \<Rightarrow> globals \<Rightarrow> nat \<Rightarrow> bool" where
  "resends f g g' n \<longleftrightarrow> (\<exists>k \<le> n. map fst (tx_log g') = map fst (tx_log g) @ replicate k (notify_packet f))"

lemma resends_none: "tx_log g' = tx_log g \<Longrightarrow> resends f g g' n"
  by (auto simp: resends_def intro: exI [of _ 0])

lemma resends_once: "resends f (g\<lparr>kern := k\<rparr>) (logged (notify_packet f) (g\<lparr>kern := k\<rparr>)) 1"
  by (auto simp: resends_def intro: exI [of _ 1])

lemma resends_trans: "resends f g g1 1 \<Longrightarrow> resends f g1 g2 n \<Longrightarrow> resends f g g2 (Suc n)"
proof -
  assume "resends f g g1 1" "resends f g1 g2 n"
  then obtain j k where "j \<le> 1" "k \<le> n" "map fst (tx_log g2) = map fst (tx_log g) @ replicate (j + k) (notify_packet f)"
    by (auto simp: resends_def replicate_add)
  then show ?thesis unfolding resends_def by (intro exI [of _ "j + k"]) simp
qed

lemma retry_step:
  assumes mode: "mode \<noteq> Cloud" and pc: "counting_at mode (Fwd_Rsp mode idz n)"
    and f: "forward_ok f" and k: "kernel_ok MTEXT_SIZE (kern g)"
    and m: "responses f g = Some (m # ms)" "final_or_busy m"
  shows "\<exists>pc' f' g'. forward_step (Fwd_Rsp mode idz n) f g = Returns (pc', f', g') \<and> counting_at mode pc' \<and>
     tries_left pc' < tries_left (Fwd_Rsp mode idz n) \<and> same_message f f' \<and> kernel_ok MTEXT_SIZE (kern g') \<and>
     responses f' g' = Some ms \<and> resends f g g' 1"
proof -
  have n: "n < RETRY_COUNT" "mode = Ping \<or> idz < MAX_NUM_PERIPHERALS" using pc by (simp_all add: counting_at_def)
  have n4: "unat n < 4" "unat (n + 1) = Suc (unat n)" using unat_below_4 n(1) by (simp_all add: RETRY_COUNT_def)
  obtain b n' k' where r: "sys_mq_recv MTEXT_SIZE (kern g) (fw_WRITE_RSP_ID f) (fw_buffer_Rx f) 0 = Returns (0, b, n', k')"
    and b: "b ! 5 = m ! 5" and k': "kernel_ok MTEXT_SIZE k'" "contents k' (fw_WRITE_RSP_ID f) = Some ms"
    and same: "same_message f (f\<lparr>fw_buffer_Rx := b\<rparr>)"
    using take_response [OF f k m(1)] m(2) by (auto simp: final_or_busy_def)
  let ?f = "f\<lparr>fw_buffer_Rx := b\<rparr>" and ?g = "g\<lparr>kern := k'\<rparr>" and ?needed = "retry_update mode (m ! 5) n"
  have fok: "forward_ok ?f" and pk: "notify_packet ?f = notify_packet f"
    using same_message_fields [OF same] f by simp_all
  have step: "forward_step (Fwd_Rsp mode idz n) f g =
      (if ?needed < RETRY_COUNT then
         outcome_bind (Notify_data (fw_buffer ?f) (fw_size ?f) idz ?g) (\<lambda>(w, g2). Returns (Fwd_Rsp mode idz ?needed, ?f, g2))
       else if mode = Ping then Returns (Fwd_Top, ?f, ?g) else forward_slot mode (Suc idz) ?f ?g)"
    by (simp add: r b Let_def)
  show ?thesis
  proof (cases "?needed < RETRY_COUNT")
    case True
    then have needed: "?needed = n + 1" using retry_goes_on [OF mode _ n(1), of "m ! 5"] m(2) by (auto simp: final_or_busy_def)
    obtain w where "Notify_data (fw_buffer ?f) (fw_size ?f) idz ?g = Returns (w, logged (notify_packet ?f) ?g)"
      using notify_sends [OF fok] by blast
    with step True have "forward_step (Fwd_Rsp mode idz n) f g = Returns (Fwd_Rsp mode idz (n + 1), ?f, logged (notify_packet f) ?g)"
      by (simp add: needed pk)
    moreover have "counting_at mode (Fwd_Rsp mode idz (n + 1))" using True n(2) by (simp add: counting_at_def needed)
    moreover have "tries_left (Fwd_Rsp mode idz (n + 1)) < tries_left (Fwd_Rsp mode idz n)"
      using n4 n(2) mode by (cases mode) auto
    moreover have "resends f g (logged (notify_packet f) ?g) 1" using resends_once [of f k' g] by (simp add: resends_def)
    ultimately show ?thesis using same k' by (auto simp: responses_def)
  next
    case False
    show ?thesis
    proof (cases "mode = Ping")
      case True
      with step False same k' n4 show ?thesis
        by (auto simp: responses_def counting_at_def intro: resends_none)
    next
      case other: False
      obtain pc' g' where s: "forward_slot mode (Suc idz) ?f ?g = Returns (pc', ?f, g')" "kern g' = k'"
        and pc': "pc' = Fwd_Top \<and> g' = ?g \<or> (\<exists>j. Suc idz \<le> j \<and> j < MAX_NUM_PERIPHERALS \<and> pc' = Fwd_Rsp mode j 0 \<and>
          g' = logged (notify_packet f) ?g)"
        using forward_slot_cases [OF fok, of mode "Suc idz" ?g] by (auto simp: pk)
      have "counting_at mode pc'" using pc' by (auto simp: counting_at_def RETRY_COUNT_def)
      moreover have "tries_left pc' < tries_left (Fwd_Rsp mode idz n)"
        using pc' n(2) n4(1) mode other by (cases mode) auto
      moreover have "resends f g g' 1"
        using pc' resends_once [of f k' g] by (auto simp: resends_def intro: exI [of _ 0])
      ultimately show ?thesis using step False other s same k' by (auto simp: responses_def)
    qed
  qed
qed

text \<open>With enough such responses waiting the loop comes back to the head of the thread.\<close>

lemma retry_ends:
  "mode \<noteq> Cloud \<Longrightarrow> counting_at mode pc \<Longrightarrow> forward_ok f \<Longrightarrow> kernel_ok MTEXT_SIZE (kern g) \<Longrightarrow>
   responses f g = Some ms \<Longrightarrow> list_all final_or_busy ms \<Longrightarrow> tries_left pc \<le> length ms \<Longrightarrow>
   \<exists>n f' g'. n \<le> tries_left pc \<and> forward_run n pc f g = Returns (Fwd_Top, f', g') \<and>
     responses f' g' = Some (drop n ms) \<and> resends f g g' n"
proof (induction "tries_left pc" arbitrary: pc f g ms rule: less_induct)
  case less
  show ?case
  proof (cases "pc = Fwd_Top")
    case True
    with less.prems(5) show ?thesis
      by (intro exI [of _ 0] exI [of _ f] exI [of _ g]) (simp add: resends_none)
  next
    case False
    then obtain idz n where pc: "pc = Fwd_Rsp mode idz n" using less.prems(2) by (auto simp: counting_at_def)
    have n: "unat n < 4" using less.prems(2) pc unat_below_4 by (simp add: counting_at_def RETRY_COUNT_def)
    have "0 < tries_left pc" using n less.prems(1,2) pc by (cases mode) (auto simp: counting_at_def)
    with less.prems(7) obtain m ms' where ms: "ms = m # ms'" by (cases ms) auto
    obtain pc1 f1 g1 where st: "forward_step pc f g = Returns (pc1, f1, g1)" "counting_at mode pc1"
      "tries_left pc1 < tries_left pc" "same_message f f1" "kernel_ok MTEXT_SIZE (kern g1)"
      "responses f1 g1 = Some ms'" "resends f g g1 1"
      using retry_step [OF less.prems(1) _ less.prems(3,4), of idz n m ms'] less.prems(2,5,6) by (auto simp: pc ms)
    have "forward_ok f1" using same_message_fields(3) [OF st(4) less.prems(3)] .
    with less.hyps [OF st(3) less.prems(1) st(2) _ st(5,6)] less.prems(6,7) st(3)
    obtain k f' g' where k: "k \<le> tries_left pc1" "forward_run k pc1 f1 g1 = Returns (Fwd_Top, f', g')"
      "responses f' g' = Some (drop k ms')" "resends f1 g1 g' k"
      by (auto simp: ms)
    have "resends f g1 g' k" using k(4) same_message_fields(1) [OF st(4)] by (simp add: resends_def)
    from resends_trans [OF st(7) this] k st show ?thesis
      by (intro exI [of _ "Suc k"] exI [of _ f'] exI [of _ g']) (auto simp: ms)
  qed
qed


subsection \<open>Answers that do not count\<close>

lemma keeps_going_update:
  "keeps_going mode m \<Longrightarrow> retry_update mode (m ! 5) n = restarted [m] n"
  by (auto simp: keeps_going_def retry_update_def restarted_def)

lemma restarted_Cons: "restarted ms (restarted [m] n) = restarted (m # ms) n"
  by (simp add: restarted_def)

lemma restarted_below: "n < RETRY_COUNT \<Longrightarrow> restarted ms n < RETRY_COUNT"
  by (simp add: restarted_def RETRY_COUNT_def)

lemma uncounted_repeats:
  "forward_ok f \<Longrightarrow> kernel_ok MTEXT_SIZE (kern g) \<Longrightarrow> responses f g = Some (ms @ rest) \<Longrightarrow>
   list_all (keeps_going mode) ms \<Longrightarrow> n < RETRY_COUNT \<Longrightarrow>
   \<exists>f' g'. forward_run (length ms) (Fwd_Rsp mode idz n) f g = Returns (Fwd_Rsp mode idz (restarted ms n), f', g') \<and>
     responses f' g' = Some rest \<and> same_message f f' \<and>
     map fst (tx_log g') = map fst (tx_log g) @ replicate (length ms) (notify_packet f)"
proof (induction ms arbitrary: f g n)
  case Nil
  then show ?case by (simp add: same_message_refl restarted_def)
next
  case (Cons m ms)
  have m: "6 \<le> length m" "keeps_going mode m" using Cons.prems(4) by (simp_all add: keeps_going_def)
  obtain b n' k' where r: "sys_mq_recv MTEXT_SIZE (kern g) (fw_WRITE_RSP_ID f) (fw_buffer_Rx f) 0 = Returns (0, b, n', k')"
    and b: "b ! 5 = m ! 5" and k': "kernel_ok MTEXT_SIZE k'" "contents k' (fw_WRITE_RSP_ID f) = Some (ms @ rest)"
    and same: "same_message f (f\<lparr>fw_buffer_Rx := b\<rparr>)"
    using take_response [OF Cons.prems(1,2), of m "ms @ rest"] Cons.prems(3) m by auto
  let ?f = "f\<lparr>fw_buffer_Rx := b\<rparr>" and ?g = "g\<lparr>kern := k'\<rparr>" and ?n = "restarted [m] n"
  have fok: "forward_ok ?f" and pk: "notify_packet ?f = notify_packet f"
    using same_message_fields [OF same] Cons.prems(1) by simp_all
  obtain w where "Notify_data (fw_buffer ?f) (fw_size ?f) idz ?g = Returns (w, logged (notify_packet f) ?g)"
    using notify_sends [OF fok, of idz ?g] unfolding pk by blast
  then have st: "forward_step (Fwd_Rsp mode idz n) f g = Returns (Fwd_Rsp mode idz ?n, ?f, logged (notify_packet f) ?g)"
    using restarted_below [OF Cons.prems(5)] by (simp add: r b Let_def keeps_going_update [OF m(2)])
  have "responses ?f (logged (notify_packet f) ?g) = Some (ms @ rest)" using k'(2) by (simp add: responses_def)
  from Cons.IH [OF fok _ this _ restarted_below [OF Cons.prems(5), of "[m]"]] k'(1) Cons.prems(4) obtain f' g' where
    "forward_run (length ms) (Fwd_Rsp mode idz ?n) ?f (logged (notify_packet f) ?g) =
       Returns (Fwd_Rsp mode idz (restarted ms ?n), f', g')"
    "responses f' g' = Some rest" "same_message ?f f'"
    "map fst (tx_log g') = map fst (tx_log (logged (notify_packet f) ?g)) @ replicate (length ms) (notify_packet f)"
    by (auto simp: pk)
  with st same_message_trans [OF same] show ?case by (simp add: restarted_Cons)
qed

text \<open>C26: The retry loops of the forwarding thread.  When all answers are success, busy or
  disconnected, a loop for a ping or for the other peers of a phone ends: whatever the mix of the
  three, the thread is back at the head of its loop after at most four answers for the ping or
  for each slot still to come, sends the message again at most once per answer and leaves the
  later answers in the queue.  With other answers no loop has to end: however many come that are
  neither success nor disconnected (nor busy, except in the loop for a message from the cloud,
  where busy does not count), the thread takes them all, sends the message once for each, and waits
  for the next with the count it had, or with 0 once an answer 0x04 has come.\<close>

theorem retry_loops_end:
  assumes "forward_ok f" and "kernel_ok MTEXT_SIZE (kern g)" and "responses f g = Some ms"
  shows "(mode \<noteq> Cloud \<and> counting_at mode pc \<and> list_all final_or_busy ms \<and> tries_left pc \<le> length ms \<longrightarrow>
      (\<exists>n f' g'. n \<le> tries_left pc \<and> forward_run n pc f g = Returns (Fwd_Top, f', g') \<and>
         responses f' g' = Some (drop n ms) \<and> resends f g g' n)) \<and>
     (list_all (keeps_going mode) ms \<and> needed < RETRY_COUNT \<longrightarrow>
      (\<exists>f' g'. forward_run (length ms) (Fwd_Rsp mode idz needed) f g =
           Returns (Fwd_Rsp mode idz (restarted ms needed), f', g') \<and>
         responses f' g' = Some [] \<and>
         map fst (tx_log g') = map fst (tx_log g) @ replicate (length ms) (notify_packet f)))"
proof (intro conjI impI; elim conjE)
  assume "mode \<noteq> Cloud" "counting_at mode pc" "list_all final_or_busy ms" "tries_left pc \<le> length ms"
  with retry_ends [OF _ _ assms] show "\<exists>n f' g'. n \<le> tries_left pc \<and>
      forward_run n pc f g = Returns (Fwd_Top, f', g') \<and> responses f' g' = Some (drop n ms) \<and> resends f g g' n"
    by blast
next
  assume "list_all (keeps_going mode) ms" "needed < RETRY_COUNT"
  with uncounted_repeats [OF assms(1,2), of ms "[]" mode needed idz] assms(3)
  show "\<exists>f' g'. forward_run (length ms) (Fwd_Rsp mode idz needed) f g =
        Returns (Fwd_Rsp mode idz (restarted ms needed), f', g') \<and>
      responses f' g' = Some [] \<and> map fst (tx_log g') = map fst (tx_log g) @ replicate (length ms) (notify_packet f)"
    by auto
qed

text \<open>Five busy answers, in the loop for a ping and in the one for a message from the cloud; and five
  answers without a message buffer, in the loop for a ping.\<close>

definition busy_controller :: globals where
  "busy_controller = central_demo (replicate 5 busy_response)"

definition full_response :: "u8 list" where
  "full_response = [0x04, 0xFF, 0x06, 0x7F, 0x06, 0x04]"

definition full_controller :: globals where
  "full_controller = central_demo (replicate 5 full_response)"

theorem retry_loops_end_witness:
  "(\<exists>n f' g'. n \<le> 4 \<and> forward_run n (Fwd_Rsp Ping 0 0) demo_forward busy_controller = Returns (Fwd_Top, f', g') \<and>
      responses f' g' = Some (drop n (replicate 5 busy_response)) \<and> resends demo_forward busy_controller g' n) \<and>
   (\<exists>f' g'. forward_run 5 (Fwd_Rsp Cloud 0 2) demo_forward busy_controller = Returns (Fwd_Rsp Cloud 0 2, f', g') \<and>
      responses f' g' = Some [] \<and>
      map fst (tx_log g') = map fst (tx_log busy_controller) @ replicate 5 (notify_packet demo_forward)) \<and>
   (\<exists>f' g'. forward_run 5 (Fwd_Rsp Ping 0 2) demo_forward full_controller = Returns (Fwd_Rsp Ping 0 0, f', g') \<and>
      responses f' g' = Some [] \<and>
      map fst (tx_log g') = map fst (tx_log full_controller) @ replicate 5 (notify_packet demo_forward))"
proof -
  have k: "kernel_ok MTEXT_SIZE (kern busy_controller)" "kernel_ok MTEXT_SIZE (kern full_controller)"
    unfolding busy_controller_def full_controller_def
    by (rule central_demo_kernel, simp add: busy_response_def full_response_def MTEXT_SIZE_def list_all_iff)+
  have q: "responses demo_forward busy_controller = Some (replicate 5 busy_response)"
    "responses demo_forward full_controller = Some (replicate 5 full_response)"
    by (simp_all add: responses_def busy_controller_def full_controller_def demo_forward_queue)
  have a: "list_all (keeps_going Cloud) (replicate 5 busy_response)" "list_all final_or_busy (replicate 5 busy_response)"
    "list_all (keeps_going Ping) (replicate 5 full_response)"
    by (simp_all add: list_all_iff keeps_going_def final_or_busy_def busy_response_def full_response_def)
  have c: "restarted (replicate 5 busy_response) 2 = 2" "restarted (replicate 5 full_response) 2 = 0"
    by (simp_all add: restarted_def busy_response_def full_response_def)
  show ?thesis
    using retry_loops_end [OF demo_forward_ok k(1) q(1), of Ping "Fwd_Rsp Ping 0 0" 0 0]
      retry_loops_end [OF demo_forward_ok k(1) q(1), of Cloud Fwd_Top 2 0]
      retry_loops_end [OF demo_forward_ok k(2) q(2), of Ping Fwd_Top 2 0] a
    unfolding c by (simp add: counting_at_def RETRY_COUNT_def)
qed

end
