(* ===== verification/Ble_Params.thy ===== *)
theory Ble_Params
  imports Commands
begin

text \<open>
  \<open>SetParamValue\<close> of \<open>BLEParameters.c\<close>: it lays a packed structure over a 10-byte local
  buffer, fills it, sends its 7 bytes and waits for the command status in the same buffer.
  The local buffer is not initialised; \<open>junk\<close> are the 10 bytes it happens to hold.
\<close>

subsection \<open>Parameter identifiers\<close>

text \<open>The \<open>enum\<close> of \<open>BLEParameters.h\<close> (its \<open>#else\<close> branch) and its values.\<close>

datatype BLEParameters_t =
    TGAP_GEN_DISC_ADV_MIN
  | TGAP_LIM_ADV_TIMEOUT
  | TGAP_GEN_DISC_SCAN
  | TGAP_LIM_DISC_SCAN
  | TGAP_CONN_EST_ADV_TIMEOUT
  | TGAP_CONN_PARAM_TIMEOUT
  | TGAP_LIM_DISC_ADV_INT_MIN
  | TGAP_LIM_DISC_ADV_INT_MAX
  | TGAP_GEN_DISC_ADV_INT_MIN
  | TGAP_GEN_DISC_ADV_INT_MAX
  | TGAP_CONN_ADV_INT_MIN
  | TGAP_CONN_ADV_INT_MAX
  | TGAP_CONN_SCAN_INT
  | TGAP_CONN_SCAN_WIND
  | TGAP_CONN_HIGH_SCAN_INT
  | TGAP_CONN_HIGH_SCAN_WIND
  | TGAP_GEN_DISC_SCAN_INT
  | TGAP_GEN_DISC_SCAN_WIND
  | TGAP_LIM_DISC_SCAN_INT
  | TGAP_LIM_DISC_SCAN_WIND
  | TGAP_CONN_EST_ADV
  | TGAP_CONN_EST_INT_MIN
  | TGAP_CONN_EST_INT_MAX
  | TGAP_CONN_EST_SCAN_INT
  | TGAP_CONN_EST_SCAN_WIND
  | TGAP_CONN_EST_SUPERV_TIMEOUT
  | TGAP_CONN_EST_LATENCY
  | TGAP_CONN_EST_MIN_CE_LEN
  | TGAP_CONN_EST_MAX_CE_LEN
  | TGAP_PRIVATE_ADDR_INT
  | TGAP_SM_TIMEOUT
  | TGAP_SM_MIN_KEY_LEN
  | TGAP_SM_MAX_KEY_LEN
  | TGAP_FILTER_ADV_REPORTS
  | TGAP_SCAN_RSP_RSSI_MIN
  | SET_RX_DEBUG

primrec param_code :: "BLEParameters_t \<Rightarrow> u8" where
  "param_code TGAP_GEN_DISC_ADV_MIN = 0"
| "param_code TGAP_LIM_ADV_TIMEOUT = 1"
| "param_code TGAP_GEN_DISC_SCAN = 2"
| "param_code TGAP_LIM_DISC_SCAN = 3"
| "param_code TGAP_CONN_EST_ADV_TIMEOUT = 4"
| "param_code TGAP_CONN_PARAM_TIMEOUT = 5"
| "param_code TGAP_LIM_DISC_ADV_INT_MIN = 6"
| "param_code TGAP_LIM_DISC_ADV_INT_MAX = 7"
| "param_code TGAP_GEN_DISC_ADV_INT_MIN = 8"
| "param_code TGAP_GEN_DISC_ADV_INT_MAX = 9"
| "param_code TGAP_CONN_ADV_INT_MIN = 10"
| "param_code TGAP_CONN_ADV_INT_MAX = 11"
| "param_code TGAP_CONN_SCAN_INT = 12"
| "param_code TGAP_CONN_SCAN_WIND = 13"
| "param_code TGAP_CONN_HIGH_SCAN_INT = 14"
| "param_code TGAP_CONN_HIGH_SCAN_WIND = 15"
| "param_code TGAP_GEN_DISC_SCAN_INT = 16"
| "param_code TGAP_GEN_DISC_SCAN_WIND = 17"
| "param_code TGAP_LIM_DISC_SCAN_INT = 18"
| "param_code TGAP_LIM_DISC_SCAN_WIND = 19"
| "param_code TGAP_CONN_EST_ADV = 20"
| "param_code TGAP_CONN_EST_INT_MIN = 21"
| "param_code TGAP_CONN_EST_INT_MAX = 22"
| "param_code TGAP_CONN_EST_SCAN_INT = 23"
| "param_code TGAP_CONN_EST_SCAN_WIND = 24"
| "param_code TGAP_CONN_EST_SUPERV_TIMEOUT = 25"
| "param_code TGAP_CONN_EST_LATENCY = 26"
| "param_code TGAP_CONN_EST_MIN_CE_LEN = 27"
| "param_code TGAP_CONN_EST_MAX_CE_LEN = 28"
| "param_code TGAP_PRIVATE_ADDR_INT = 29"
| "param_code TGAP_SM_TIMEOUT = 30"
| "param_code TGAP_SM_MIN_KEY_LEN = 31"
| "param_code TGAP_SM_MAX_KEY_LEN = 32"
| "param_code TGAP_FILTER_ADV_REPORTS = 33"
| "param_code TGAP_SCAN_RSP_RSSI_MIN = 34"
| "param_code SET_RX_DEBUG = 0xFE"

text \<open>The labels of the \<open>switch\<close>, in the order of the code.\<close>

definition param_cases :: "BLEParameters_t list" where
  "param_cases =
    [TGAP_GEN_DISC_ADV_MIN, TGAP_LIM_ADV_TIMEOUT, TGAP_GEN_DISC_SCAN, TGAP_LIM_DISC_SCAN,
      TGAP_CONN_EST_ADV_TIMEOUT, TGAP_CONN_PARAM_TIMEOUT, TGAP_LIM_DISC_ADV_INT_MIN,
      TGAP_LIM_DISC_ADV_INT_MAX, TGAP_GEN_DISC_ADV_INT_MIN, TGAP_GEN_DISC_ADV_INT_MAX,
      TGAP_CONN_ADV_INT_MIN, TGAP_CONN_ADV_INT_MAX, TGAP_CONN_SCAN_INT,
      TGAP_CONN_SCAN_WIND, TGAP_CONN_HIGH_SCAN_INT, TGAP_CONN_HIGH_SCAN_WIND,
      TGAP_GEN_DISC_SCAN_INT, TGAP_GEN_DISC_SCAN_WIND, TGAP_LIM_DISC_SCAN_INT,
      TGAP_LIM_DISC_SCAN_WIND, TGAP_CONN_EST_ADV, TGAP_CONN_EST_INT_MIN,
      TGAP_CONN_EST_INT_MAX, TGAP_CONN_EST_SCAN_INT, TGAP_CONN_EST_SCAN_WIND,
      TGAP_CONN_EST_MAX_CE_LEN, TGAP_PRIVATE_ADDR_INT, TGAP_SM_TIMEOUT,
      TGAP_SM_MIN_KEY_LEN, TGAP_SM_MAX_KEY_LEN, TGAP_FILTER_ADV_REPORTS,
      TGAP_SCAN_RSP_RSSI_MIN, SET_RX_DEBUG, TGAP_CONN_EST_MIN_CE_LEN,
      TGAP_CONN_EST_LATENCY, TGAP_CONN_EST_SUPERV_TIMEOUT]"


subsection \<open>The packed structures\<close>

text \<open>A \<open>uint16_t\<close> member at offset \<open>i\<close> of a packed structure, little-endian.\<close>

definition put16 :: "u8 list \<Rightarrow> nat \<Rightarrow> u16 \<Rightarrow> u8 list" where
  "put16 b i w = b[i := LSBYTEOF16BIT w, Suc i := MSBYTEOF16BIT w]"

definition get16 :: "u8 list \<Rightarrow> nat \<Rightarrow> u16" where
  "get16 b i = MAKE16OFXY (b ! Suc i) (b ! i)"

definition SetParamValue_size :: nat where
  "SetParamValue_size = 7"

text \<open>The stores through the structure pointer: the header, then the selected \<open>case\<close>.\<close>

definition SetParamValue_header :: "u8 list \<Rightarrow> u8 list" where
  "SetParamValue_header b = (put16 (b[0 := PKT_COMMAND]) 1 VS_GAP_SET_PARAMETER)[3 := 0x03]"

definition SetParamValue_body :: "u8 \<Rightarrow> u16 \<Rightarrow> u8 list \<Rightarrow> u8 list" where
  "SetParamValue_body ParamId ParamValue b =
     (if ParamId \<in> set (map param_code param_cases) then put16 (b[4 := ParamId]) 5 ParamValue else b)"

definition SetParamValueResp_ok :: "u8 list \<Rightarrow> bool" where
  "SetParamValueResp_ok b \<longleftrightarrow>
     b ! 5 = 0x00 \<and> get16 b 3 = VS_COMMAND_STATUS \<and> get16 b 6 = VS_GAP_SET_PARAMETER \<and>
     b ! 1 = 0xFF \<and> b ! 0 = PKT_EVENT"


subsection \<open>The routine\<close>

text \<open>The reads of \<open>print_buffer\<close>: bytes 0 to \<open>size - 1\<close>.\<close>

definition print_buffer :: "u8 list \<Rightarrow> int \<Rightarrow> unit outcome" where
  "print_buffer b n = outcome_bind (copy_from b (nat n)) (\<lambda>bytes. Returns ())"

text \<open>
  \<open>size\<close> is an uninitialised \<open>int\<close> whose address is passed as a \<open>uint16_t *\<close>: the receive
  writes its low half only, the high half stays indeterminate.
\<close>

definition half_written :: "int \<Rightarrow> u16 \<Rightarrow> int" where
  "half_written high low = high * 65536 + uint low"

definition SetParamValue :: "u8 list \<Rightarrow> u8 \<Rightarrow> u16 \<Rightarrow> int \<Rightarrow> globals \<Rightarrow> (int \<times> globals) outcome" where
  "SetParamValue junk ParamId ParamValue QueueId g =
     (let buf = SetParamValue_body ParamId ParamValue (SetParamValue_header junk);
          (high, g0) = use_junk g in
      outcome_bind (BLECOMWrite buf SetParamValue_size g0) (\<lambda>(w, g1).
      outcome_bind (sys_mq_recv MTEXT_SIZE (kern g1) QueueId buf 0) (\<lambda>(r, buf', n, k).
        let g2 = g1\<lparr>kern := k\<rparr> in
        if r = 0 then
          outcome_bind (print_buffer buf' (half_written high n)) (\<lambda>_.
            Returns (if SetParamValueResp_ok buf' then 0 else -1, g2))
        else Returns (-1, g2))))"

subsection \<open>Properties\<close>

lemma handled_codes_set:
  "set (map param_code param_cases) = insert 0xFE (set (map word_of_nat [0..<35]))"
  by (simp add: param_cases_def upt_rec insert_commute)

text \<open>The \<open>switch\<close> handles exactly the enumerators of the header: the identifiers 0 to 34 and
  0xFE, each once; every other identifier falls through it.\<close>

lemma handled_codes:
  "distinct (map param_code param_cases) \<and>
   (ParamId \<in> set (map param_code param_cases) \<longleftrightarrow> unat ParamId < 35 \<or> ParamId = 0xFE)"
proof
  show "distinct (map param_code param_cases)"
    by (simp add: param_cases_def)
  have "ParamId \<in> set (map word_of_nat [0..<35]) \<longleftrightarrow> unat ParamId < 35"
  proof
    assume "ParamId \<in> set (map word_of_nat [0..<35])"
    then obtain i where "i < 35" "ParamId = word_of_nat i" by auto
    then show "unat ParamId < 35" by (simp add: unat_of_nat)
  next
    assume "unat ParamId < 35"
    then show "ParamId \<in> set (map word_of_nat [0..<35])"
      unfolding set_map set_upt by (intro image_eqI [of _ _ "unat ParamId"]) simp_all
  qed
  then show "ParamId \<in> set (map param_code param_cases) \<longleftrightarrow> unat ParamId < 35 \<or> ParamId = 0xFE"
    unfolding handled_codes_set by blast
qed

lemma length_10:
  "length b = 10 \<Longrightarrow> \<exists>a0 a1 a2 a3 a4 a5 a6 a7 a8 a9. b = [a0, a1, a2, a3, a4, a5, a6, a7, a8, a9]"
  by (auto simp: length_Suc_conv eval_nat_numeral)

lemma header_bytes:
  "length junk = 10 \<Longrightarrow>
   SetParamValue_header junk = [PKT_COMMAND, LSBYTEOF16BIT VS_GAP_SET_PARAMETER,
      MSBYTEOF16BIT VS_GAP_SET_PARAMETER, 0x03] @ drop 4 junk"
  by (drule length_10) (auto simp: SetParamValue_header_def put16_def eval_nat_numeral)

text \<open>For a handled identifier the structure laid over the buffer is, byte for byte, the packet
  that \<open>SET_PARAM\<close> of the central thread builds; for any other identifier the last three bytes
  sent are whatever the uninitialised buffer held.\<close>

lemma SetParamValue_packet:
  assumes "length junk = 10"
  shows "take SetParamValue_size (SetParamValue_body ParamId ParamValue (SetParamValue_header junk)) =
     (if ParamId \<in> set (map param_code param_cases) then SET_PARAM_pac ParamId ParamValue
      else [0x01, 0x30, 0xFE, 0x03, junk ! 4, junk ! 5, junk ! 6])"
proof -
  obtain a0 a1 a2 a3 a4 a5 a6 a7 a8 a9 where j: "junk = [a0, a1, a2, a3, a4, a5, a6, a7, a8, a9]"
    using length_10 [OF assms] by blast
  have h: "SetParamValue_header junk = [0x01, 0x30, 0xFE, 0x03, a4, a5, a6, a7, a8, a9]"
    unfolding header_bytes [OF assms]
    by (simp add: j PKT_COMMAND_def VS_GAP_SET_PARAMETER_def byte_macro_defs)
  have b: "put16 ((SetParamValue_header junk)[4 := ParamId]) 5 ParamValue =
      [0x01, 0x30, 0xFE, 0x03, ParamId, LSBYTEOF16BIT ParamValue, MSBYTEOF16BIT ParamValue, a7, a8, a9]"
    unfolding h put16_def by (simp add: eval_nat_numeral)
  have p: "SET_PARAM_pac ParamId ParamValue =
      [0x01, 0x30, 0xFE, 0x03, ParamId, LSBYTEOF16BIT ParamValue, MSBYTEOF16BIT ParamValue]"
    by (simp add: SET_PARAM_pac_def PKT_COMMAND_def VS_GAP_SET_PARAMETER_def byte_macro_defs)
  have "junk ! 4 = a4" "junk ! 5 = a5" "junk ! 6 = a6"
    unfolding j by simp_all
  then show ?thesis
    unfolding SetParamValue_body_def if_distrib [of "take _"] b p
    by (simp add: h SetParamValue_size_def del: set_map)
qed

lemma SetParamValue_packet_witness:
  "take SetParamValue_size (SetParamValue_body 0x40 0x1234 (SetParamValue_header (replicate 10 0xEE))) =
     (if 0x40 \<in> set (map param_code param_cases) then SET_PARAM_pac 0x40 0x1234
      else [0x01, 0x30, 0xFE, 0x03, replicate 10 0xEE ! 4, replicate 10 0xEE ! 5, replicate 10 0xEE ! 6])"
  by (rule SetParamValue_packet) simp

lemma SetParamValue_length:
  "length junk = 10 \<Longrightarrow> length (SetParamValue_body i v (SetParamValue_header junk)) = 10"
  by (simp add: SetParamValue_body_def header_bytes put16_def)

lemma SetParamValue_eq:
  assumes "length junk = 10"
  shows "SetParamValue junk ParamId ParamValue q g =
     (let buf = SetParamValue_body ParamId ParamValue (SetParamValue_header junk);
          g1 = logged (take 7 buf) (g\<lparr>junk_used := Suc (junk_used g)\<rparr>) in
      outcome_bind (sys_mq_recv MTEXT_SIZE (kern g) q buf 0) (\<lambda>(r, buf', n, k).
        if r = 0 then
          outcome_bind (print_buffer buf' (half_written (env_junk g (junk_used g)) n)) (\<lambda>_.
            Returns (if SetParamValueResp_ok buf' then 0 else -1, g1\<lparr>kern := k\<rparr>))
        else Returns (-1, g1\<lparr>kern := k\<rparr>)))"
proof -
  let ?buf = "SetParamValue_body ParamId ParamValue (SetParamValue_header junk)"
  let ?g0 = "g\<lparr>junk_used := Suc (junk_used g)\<rparr>"
  have "BLECOMWrite ?buf 7 ?g0 = Returns (env_write g (length (tx_log g)) 7, logged (take 7 ?buf) ?g0)"
    using SetParamValue_length [OF assms, of ParamId ParamValue]
    by (simp add: BLECOMWrite_def Let_def)
  then show ?thesis
    by (simp add: SetParamValue_def use_junk_def SetParamValue_size_def Let_def)
qed

text \<open>What the answer looks like when the parameter was set: an event packet, a vendor-specific event
  of any length byte, event 0x067F (command status) low byte first, status 0x00, command 0xFE30
  low byte first, and then anything.\<close>

definition set_param_success :: "u8 list \<Rightarrow> bool" where
  "set_param_success m \<longleftrightarrow> (\<exists>len. take 8 m = [0x04, 0xFF, len, 0x7F, 0x06, 0x00, 0x30, 0xFE])"

lemma response_bytes:
  assumes "8 \<le> length m"
  shows "SetParamValueResp_ok m \<longleftrightarrow> set_param_success m"
proof -
  have "\<exists>a b c d e f x y rest. m = a # b # c # d # e # f # x # y # rest"
    using assms by (auto simp: numeral_eq_Suc Suc_le_length_iff)
  then obtain a b c d e f x y rest where m: "m = a # b # c # d # e # f # x # y # rest" by blast
  show ?thesis
    by (simp add: m SetParamValueResp_ok_def set_param_success_def get16_def make16_eq_iff
        VS_COMMAND_STATUS_def VS_GAP_SET_PARAMETER_def PKT_EVENT_def LSBYTEOF16BIT_def MSBYTEOF16BIT_def) auto
qed

text \<open>C37: Against a response of 9 or 10 bytes the routine returns 0 exactly when the response is the
  success status of the set-parameter command (04 FF xx 7F 06 00 30 FE and one or two more bytes),
  and -1 otherwise, provided the indeterminate high half of \<open>size\<close> is 0; the response is taken
  from the queue.\<close>

theorem SetParamValue_result:
  assumes "length junk = 10" and "globals_ok g" and "contents (kern g) q = Some (m # ms)"
    and "9 \<le> length m" and "length m \<le> 10" and "env_junk g (junk_used g) = 0"
  shows "\<exists>g'. SetParamValue junk ParamId ParamValue q g =
       Returns (if set_param_success m then 0 else -1, g') \<and>
     contents (kern g') = (contents (kern g))(q \<mapsto> ms)"
proof -
  let ?buf = "SetParamValue_body ParamId ParamValue (SetParamValue_header junk)"
  have k: "kernel_ok MTEXT_SIZE (kern g)" using assms(2) by (simp add: globals_ok_def)
  have b: "length ?buf = 10" by (rule SetParamValue_length [OF assms(1)])
  from recv_takes [OF k assms(3), of ?buf 0] b assms(5) obtain k' where
    r: "sys_mq_recv MTEXT_SIZE (kern g) q ?buf 0 =
      Returns (0, m @ drop (length m) ?buf, word_of_nat (length m), k')"
    and c: "contents k' = (contents (kern g))(q \<mapsto> ms)" by auto
  have n: "half_written 0 (word_of_nat (length m)) = int (length m)"
    using assms(5) by (simp add: half_written_def uint_of_nat_u16)
  have p: "print_buffer (m @ drop (length m) ?buf) (int (length m)) = Returns ()"
    by (simp add: print_buffer_def)
  have nth: "(m @ drop (length m) ?buf) ! i = m ! i" if "i < 9" for i
    using that assms(4) by (simp add: nth_append)
  have "SetParamValueResp_ok (m @ drop (length m) ?buf) = SetParamValueResp_ok m"
    unfolding SetParamValueResp_ok_def get16_def by (simp add: nth)
  also have "SetParamValueResp_ok m = set_param_success m" using assms(4) by (simp add: response_bytes)
  finally show ?thesis using r n p c
    by (simp add: SetParamValue_eq [OF assms(1)] assms(6) Let_def)
qed

definition set_param_response :: "u8 list" where
  "set_param_response = [0x04, 0xFF, 0x06, 0x7F, 0x06, 0x00, 0x30, 0xFE, 0x00]"

lemma central_demo_junk: "env_junk (central_demo ms) i = 0"
  by (simp add: central_demo_def)

text \<open>The answer of success, and the same with the status of an invalid parameter.\<close>

theorem SetParamValue_result_witness:
  "(\<exists>g'. SetParamValue (replicate 10 0xEE) 0x02 0x1388 (tCommandRespQId (central_demo [set_param_response]))
         (central_demo [set_param_response]) = Returns (0, g')) \<and>
   (\<exists>g'. SetParamValue (replicate 10 0xEE) 0x02 0x1388 (tCommandRespQId (central_demo [set_param_response[5 := 0x02]]))
         (central_demo [set_param_response[5 := 0x02]]) = Returns (-1, g'))"
proof -
  have m: "\<exists>g'. SetParamValue (replicate 10 0xEE) 0x02 0x1388 (tCommandRespQId (central_demo [m])) (central_demo [m]) =
      Returns (if set_param_success m then 0 else -1, g')" if "length m = 9" for m
  proof -
    have "list_all (\<lambda>m. length m \<le> MTEXT_SIZE) [m]" using that by (simp add: MTEXT_SIZE_def)
    from SetParamValue_result [OF _ central_demo_ok [OF this] central_demo_contents, of "replicate 10 0xEE", OF _ _ _
        central_demo_junk] that
    have "\<exists>g'. SetParamValue (replicate 10 0xEE) 0x02 0x1388 (tCommandRespQId (central_demo [m])) (central_demo [m]) =
        Returns (if set_param_success m then 0 else -1, g') \<and>
      contents (kern g') = (contents (kern (central_demo [m])))(tCommandRespQId (central_demo [m]) \<mapsto> [])" by simp
    then show ?thesis by blast
  qed
  show ?thesis
    using m [of set_param_response] m [of "set_param_response[5 := 0x02]"]
    by (simp add: set_param_response_def set_param_success_def eval_nat_numeral)
qed

text \<open>Any response of more than 10 bytes, such as an advertisement that reached the same queue,
  is copied past the end of the local buffer.\<close>

lemma SetParamValue_overflow:
  assumes "length junk = 10" and "globals_ok g" and "contents (kern g) q = Some (m # ms)" and "10 < length m"
  shows "SetParamValue junk ParamId ParamValue q g = Fault (Overflow 10 (length m))"
proof -
  let ?buf = "SetParamValue_body ParamId ParamValue (SetParamValue_header junk)"
  have k: "kernel_ok MTEXT_SIZE (kern g)" using assms(2) by (simp add: globals_ok_def)
  have "sys_mq_recv MTEXT_SIZE (kern g) q ?buf 0 = Fault (Overflow 10 (length m))"
    using recv_overflow [OF k assms(3), of ?buf 0] SetParamValue_length [OF assms(1), of ParamId ParamValue]
      assms(4) by simp
  then show ?thesis by (simp add: SetParamValue_eq [OF assms(1)] Let_def)
qed

lemma SetParamValue_overflow_witness:
  "SetParamValue (replicate 10 0xEE) 0x02 0x1388 (tCommandRespQId (central_demo [replicate 30 7]))
     (central_demo [replicate 30 7]) = Fault (Overflow 10 (length (replicate 30 (7 :: u8))))"
  by (rule SetParamValue_overflow [OF _ central_demo_ok central_demo_contents])
    (simp_all add: MTEXT_SIZE_def)

end
