(* ===== verification/Uart_Driver.thy ===== *)
theory Uart_Driver
  imports Globals Rx_Parser
begin

text \<open>
  The serial port: \<open>BLECOMOpen\<close>, \<open>BLECOMClose\<close> and \<open>BLECOMRead\<close> of
  \<open>Drivers/UARTDriver.c\<close>, the error table they print from (\<open>generic/errorcommands.c\<close>),
  \<open>main\<close> of \<open>VVDNBLEMeshStack.c\<close>, and the way \<open>UartCmdRxThread\<close> waits for a byte.

  A routine gives the list of system calls it makes with their arguments; the results of
  \<open>open\<close>, \<open>tcgetattr\<close>, \<open>read\<close> and \<open>pthread_create\<close> are arguments.  A set of terminal flags
  is a set of the flag names, with \<open>Other\<close> for those the code never mentions; \<open>cfmakeraw\<close> is
  the library routine as its manual page defines it.
\<close>

subsection \<open>Error texts\<close>

datatype errcodes_t =
    ERR_DEVICE_OPEN_FAILED
  | ERR_DEVICE_WRITE_FAILED
  | ERR_DEVICE_READ_FAILED
  | ERR_COMMAND_RESPONSE_FAILED
  | ERR_GAP_PROFILE_NOT_SUPPORTED
  | ERR_LINK_ESTABLISHED

primrec err_code :: "errcodes_t \<Rightarrow> nat" where
  "err_code ERR_DEVICE_OPEN_FAILED = 0"
| "err_code ERR_DEVICE_WRITE_FAILED = 1"
| "err_code ERR_DEVICE_READ_FAILED = 2"
| "err_code ERR_COMMAND_RESPONSE_FAILED = 3"
| "err_code ERR_GAP_PROFILE_NOT_SUPPORTED = 4"
| "err_code ERR_LINK_ESTABLISHED = 5"

definition err_db :: "(errcodes_t \<times> string) list" where
  "err_db =
     [(ERR_DEVICE_OPEN_FAILED, ''[Open Error] : Device Opening Failed'' @ [CHR 0x0A]),
      (ERR_DEVICE_WRITE_FAILED, ''[Write Error] : Device Writing Failed'' @ [CHR 0x0A]),
      (ERR_DEVICE_READ_FAILED, ''[Read Error] : Device Reading Failed'' @ [CHR 0x0A]),
      (ERR_COMMAND_RESPONSE_FAILED, ''[Response Error] : Inavlid Stack Response'' @ [CHR 0x0A]),
      (ERR_GAP_PROFILE_NOT_SUPPORTED, ''[GAP Error]: Profile Not Supported'' @ [CHR 0x0A]),
      (ERR_LINK_ESTABLISHED, ''[LINK Establish]: Failed To Establish The Link'' @ [CHR 0x0A])]"

text \<open>\<open>err_db[code].errname\<close>\<close>

definition errname :: "errcodes_t \<Rightarrow> string" where
  "errname e = snd (err_db ! err_code e)"

text \<open>The table is indexed by the code it is about: each entry carries its own index.\<close>

lemma err_db_indexed: "err_code e < length err_db \<and> fst (err_db ! err_code e) = e"
  by (cases e) (simp_all add: err_db_def)


subsection \<open>Terminal settings\<close>

datatype open_flag = O_RDWR | O_NOCTTY | O_NDELAY

datatype tflag =
    IGNBRK | BRKINT | PARMRK | ISTRIP | INLCR | IGNCR | ICRNL | IXON
  | OPOST
  | ICANON | ECHO | ECHOE | ECHONL | ISIG | IEXTEN
  | CLOCAL | CREAD | PARENB
  | Other nat

record termios =
  c_iflag :: "tflag set"
  c_oflag :: "tflag set"
  c_lflag :: "tflag set"
  c_cflag :: "tflag set"
  c_csize :: nat              \<comment> \<open>the \<open>CSIZE\<close> field of \<open>c_cflag\<close>, in bits\<close>
  c_vmin :: u8                \<comment> \<open>\<open>c_cc[VMIN]\<close>\<close>
  c_vtime :: u8               \<comment> \<open>\<open>c_cc[VTIME]\<close>\<close>
  c_ispeed :: nat
  c_ospeed :: nat

definition B115200 :: nat where "B115200 = 115200"

definition cfmakeraw :: "termios \<Rightarrow> termios" where
  "cfmakeraw t =
     t\<lparr>c_iflag := c_iflag t - {IGNBRK, BRKINT, PARMRK, ISTRIP, INLCR, IGNCR, ICRNL, IXON},
       c_oflag := c_oflag t - {OPOST},
       c_lflag := c_lflag t - {ECHO, ECHONL, ICANON, ISIG, IEXTEN},
       c_cflag := c_cflag t - {PARENB}, c_csize := 8\<rparr>"

record uart_driver =
  iModemFd :: int
  options :: termios
  baudrate :: nat

datatype uart_call =
    Open string "open_flag list"
  | Fcntl_Setfl int "open_flag list"
  | Tcgetattr int
  | Tcsetattr_Flush int termios
  | Sleep nat
  | Tcflush_Both int
  | Close int
  | Usleep nat
  | Print string             \<comment> \<open>one \<open>printf\<close>, the text up to its last newline\<close>


subsection \<open>The driver\<close>

definition BLECOMOpen ::
  "string \<Rightarrow> int \<Rightarrow> termios option \<Rightarrow> uart_driver \<Rightarrow> uart_call list \<times> int \<times> uart_driver" where
  "BLECOMOpen dev_name fd got d =
     (let d = d\<lparr>iModemFd := fd\<rparr>;
          opened = [Print dev_name, Print (''BLECOMOpen '' @ dev_name),
                    Open dev_name [O_RDWR, O_NOCTTY, O_NDELAY]] in
      if fd < 0 then (opened @ [Print (errname ERR_DEVICE_OPEN_FAILED)], -1, d)
      else
        let t = (case got of None \<Rightarrow> options d | Some t \<Rightarrow> t);
            t = t\<lparr>c_cflag := c_cflag t \<union> {CLOCAL, CREAD}\<rparr>;
            t = t\<lparr>c_lflag := c_lflag t - {ICANON, ECHO, ECHOE, ISIG}\<rparr>;
            t = t\<lparr>c_oflag := c_oflag t - {OPOST}\<rparr>;
            t = cfmakeraw t;
            t = t\<lparr>c_vmin := 1\<rparr>;
            t = t\<lparr>c_vtime := 0\<rparr>;
            d = d\<lparr>baudrate := B115200\<rparr>;
            t = t\<lparr>c_ospeed := baudrate d\<rparr>;
            t = t\<lparr>c_ispeed := baudrate d\<rparr>
        in (opened @ [Fcntl_Setfl fd [O_RDWR], Tcgetattr fd, Tcsetattr_Flush fd t, Sleep 2, Tcflush_Both fd],
            fd, d\<lparr>options := t\<rparr>))"

definition BLECOMClose :: "uart_driver \<Rightarrow> uart_call list \<times> int" where
  "BLECOMClose d = ([Close (iModemFd d)], 0)"

text \<open>
  \<open>BLECOMRead\<close> for a \<open>read\<close> with result \<open>iRead\<close> that delivered \<open>bytes\<close> into the caller's
  array; no code calls it.
\<close>

definition BLECOMRead :: "u8 list \<Rightarrow> u8 list \<Rightarrow> int \<Rightarrow> (uart_call list \<times> int \<times> u8 list) outcome" where
  "BLECOMRead rBytes bytes iRead =
     outcome_bind (copy_into rBytes bytes) (\<lambda>buf.
       Returns (if iRead < 0 then ([Print (errname ERR_DEVICE_READ_FAILED)], -1, buf)
                else if iRead > 0 then ([Usleep 10000], iRead, buf)
                else ([], iRead, buf)))"


subsection \<open>The program's start\<close>

definition BLEttyPath :: string where "BLEttyPath = ''/dev/ttyACM0''"

datatype started =
    Exited int
  | Joining "string list" bool     \<comment> \<open>the threads created, and \<open>SysExitFlag\<close>\<close>

text \<open>\<open>rx_failed\<close> and \<open>central_failed\<close>: \<open>pthread_create\<close> gave an error.\<close>

definition main_start ::
  "int \<Rightarrow> termios option \<Rightarrow> bool \<Rightarrow> bool \<Rightarrow> uart_driver \<Rightarrow> uart_call list \<times> started \<times> uart_driver" where
  "main_start fd got rx_failed central_failed d =
     (let (calls, r, d) = BLECOMOpen BLEttyPath fd got d in
      if r < 0 then (calls @ [Print (''Port Opening Error - '' @ BLEttyPath)], Exited 0, d)
      else (calls,
            Joining ((if rx_failed then [] else [''UartCmdRxThread'']) @
                     (if central_failed then [] else [''CentralModeThread'']))
                    (rx_failed \<or> central_failed), d))"


subsection \<open>Waiting for a byte\<close>

text \<open>
  One iteration of the loop of \<open>UartCmdRxThread\<close> up to the \<open>switch\<close>.  \<open>select\<close> is called
  without a timeout on the one descriptor: it returns when the descriptor is readable, or with
  an error and the set as it was, and in both cases \<open>FD_ISSET\<close> holds and \<open>read\<close> is called.  Its
  result is ignored: \<open>No_Byte\<close>, an end of file or an error, leaves \<open>rx_byte\<close> as it was.
\<close>

datatype read_result = Got u8 | No_Byte

record rx_thread =
  rx_byte_var :: u8
  machine :: rx

definition rx_iteration :: "read_result \<Rightarrow> rx_thread \<Rightarrow> ((u8 list \<times> u8) option \<times> rx_thread) outcome" where
  "rx_iteration res t =
     (let b = (case res of Got b \<Rightarrow> b | No_Byte \<Rightarrow> rx_byte_var t) in
      outcome_bind (rx_byte b (machine t)) (\<lambda>(f, r). Returns (f, \<lparr>rx_byte_var = b, machine = r\<rparr>)))"

text \<open>The byte an iteration works on, and the bytes a run of iterations works on.\<close>

primrec seen :: "u8 \<Rightarrow> read_result list \<Rightarrow> u8 list" where
  "seen b [] = []"
| "seen b (x # xs) = (let c = (case x of Got c \<Rightarrow> c | No_Byte \<Rightarrow> b) in c # seen c xs)"

lemma seen_Got [simp]: "seen b (map Got bs) = bs"
  by (induction bs arbitrary: b) simp_all

lemma seen_No_Byte [simp]: "seen b (replicate n No_Byte) = replicate n b"
  by (induction n) simp_all

lemma seen_append: "seen b (xs @ ys) = seen b xs @ seen (last (b # seen b xs)) ys"
  by (induction xs arbitrary: b) (simp_all add: Let_def)

lemma length_seen [simp]: "length (seen b xs) = length xs"
  by (induction xs arbitrary: b) (simp_all add: Let_def)

text \<open>The thread is the byte machine run on the bytes seen.\<close>

lemma feed_iteration:
  "feed rx_iteration xs t =
     outcome_bind (feed rx_byte (seen (rx_byte_var t) xs) (machine t)) (\<lambda>(fs, r).
       Returns (fs, \<lparr>rx_byte_var = last (rx_byte_var t # seen (rx_byte_var t) xs), machine = r\<rparr>))"
proof (induction xs arbitrary: t)
  case Nil
  show ?case by simp
next
  case (Cons x xs)
  let ?b = "case x of Got c \<Rightarrow> c | No_Byte \<Rightarrow> rx_byte_var t"
  show ?case
  proof (cases "rx_byte ?b (machine t)")
    case (Returns fr)
    obtain f r where fr: "fr = (f, r)" by (cases fr)
    have "rx_iteration x t = Returns (f, \<lparr>rx_byte_var = ?b, machine = r\<rparr>)"
      using Returns by (simp add: rx_iteration_def Let_def fr)
    then show ?thesis
      by (cases "feed rx_byte (seen ?b xs) r") (auto simp: feed.simps(2) Cons.IH Returns fr Let_def)
  qed (simp_all add: feed.simps(2) rx_iteration_def Let_def)
qed


lemma seen_then_nothing:
  "bs \<noteq> [] \<Longrightarrow> seen b (map Got bs @ replicate n No_Byte) = bs @ replicate n (last bs)"
  by (simp add: seen_append)


subsection \<open>What the calls do to the port\<close>

record port =
  p_nonblock :: bool
  p_attr :: termios

primrec port_call :: "uart_call \<Rightarrow> port \<Rightarrow> port" where
  "port_call (Open dev fl) p = p\<lparr>p_nonblock := O_NDELAY \<in> set fl\<rparr>"
| "port_call (Fcntl_Setfl fd fl) p = p\<lparr>p_nonblock := O_NDELAY \<in> set fl\<rparr>"
| "port_call (Tcgetattr fd) p = p"
| "port_call (Tcsetattr_Flush fd t) p = p\<lparr>p_attr := t\<rparr>"
| "port_call (Sleep n) p = p"
| "port_call (Tcflush_Both fd) p = p"
| "port_call (Close fd) p = p"
| "port_call (Usleep n) p = p"
| "port_call (Print s) p = p"

text \<open>An 8-bit transparent line at the given speed.\<close>

definition raw_line :: "nat \<Rightarrow> termios \<Rightarrow> bool" where
  "raw_line speed t \<longleftrightarrow>
     c_iflag t \<inter> {IGNBRK, BRKINT, PARMRK, ISTRIP, INLCR, IGNCR, ICRNL, IXON} = {} \<and>
     OPOST \<notin> c_oflag t \<and> c_lflag t \<inter> {ICANON, ECHO, ECHOE, ECHONL, ISIG, IEXTEN} = {} \<and>
     {CLOCAL, CREAD} \<subseteq> c_cflag t \<and> PARENB \<notin> c_cflag t \<and> c_csize t = 8 \<and>
     c_ispeed t = speed \<and> c_ospeed t = speed"

text \<open>A \<open>read\<close> of one byte waits without limit: \<open>VMIN\<close> bytes must come and no timer runs.\<close>

definition reads_wait :: "port \<Rightarrow> bool" where
  "reads_wait p \<longleftrightarrow> \<not> p_nonblock p \<and> c_vmin (p_attr p) = 1 \<and> c_vtime (p_attr p) = 0"

text \<open>C29: Opening the port leaves it a transparent 8-bit line at 115200 baud in both directions
  whose reads wait without a time limit, whatever the settings before, and even when they could
  not be read; a flag the code does not name, such as two stop bits or hardware flow control,
  stays as it was found.  A failed \<open>open\<close> gives -1 and touches no setting.\<close>

theorem uart_open_raw:
  shows "case BLECOMOpen dev fd got d of (calls, r, d') \<Rightarrow>
     (if fd < 0 then r = -1 \<and> options d' = options d \<and> p_attr (fold port_call calls p) = p_attr p
      else r = fd \<and> iModemFd d' = fd \<and>
        raw_line 115200 (p_attr (fold port_call calls p)) \<and> reads_wait (fold port_call calls p) \<and>
        (Other n \<in> c_cflag (p_attr (fold port_call calls p)) \<longleftrightarrow>
         Other n \<in> c_cflag (case got of None \<Rightarrow> options d | Some t \<Rightarrow> t)))"
  by (simp add: BLECOMOpen_def Let_def raw_line_def reads_wait_def cfmakeraw_def B115200_def
      Int_Diff Diff_Int_distrib2 Diff_eq Int_commute Int_left_commute) (auto split: option.splits)


text \<open>\<open>main\<close> starts its threads on an open port only, and asks them to stop when one is missing.\<close>

lemma main_start_port:
  "main_start fd got rx_failed central_failed d = (calls, Joining ts stop, d') \<Longrightarrow>
   0 \<le> fd \<and> iModemFd d' = fd \<and> (stop \<longleftrightarrow> length ts < 2)"
  by (auto simp: main_start_def BLECOMOpen_def Let_def split: if_splits)

subsection \<open>Properties of the waiting loop\<close>

definition thread_idle :: "rx_thread \<Rightarrow> bool" where
  "thread_idle t \<longleftrightarrow> rx_idle (machine t)"

lemma frame_delivered:
  assumes "thread_idle t" and "event_frame fr" and "seen (rx_byte_var t) xs = fr"
  shows "\<exists>f t'. feed rx_iteration xs t = Returns ([f], t') \<and> thread_idle t' \<and>
     delivered_bytes f = fr \<and> rx_byte_var t' = last fr"
proof -
  obtain f r where "feed rx_byte fr (machine t) = Returns ([f], r)" "rx_idle r" "delivered_bytes f = fr"
    using rx_frames.one_frame [of "machine t" fr] assms(1,2) by (auto simp: thread_idle_def)
  moreover have "fr \<noteq> []" using assms(2) by (auto simp: event_frame_def)
  ultimately show ?thesis
    by (simp add: feed_iteration assms(3) thread_idle_def)
qed

text \<open>C17: A line that goes dead in the middle of an event is not noticed: the thread goes on with
  the last byte it received, so after as many failed reads as bytes were missing the truncated
  event is handed to the dispatcher, filled up with copies of that byte, with its full length.\<close>

theorem hangup_completes_frame:
  assumes "thread_idle t" and "length p \<le> unat n" and "1 \<le> unat n" and "unat n \<le> 252"
  shows "\<exists>f t'. feed rx_iteration (map Got ([BLE_EVT_PKT, ev, n] @ p) @ replicate (unat n - length p) No_Byte) t =
       Returns ([f], t') \<and> thread_idle t' \<and>
     delivered_bytes f = [BLE_EVT_PKT, ev, n] @ p @ replicate (unat n - length p) (last ([n] @ p))"
proof -
  let ?fr = "[BLE_EVT_PKT, ev, n] @ p @ replicate (unat n - length p) (last ([n] @ p))"
  have "seen (rx_byte_var t) (map Got ([BLE_EVT_PKT, ev, n] @ p) @ replicate (unat n - length p) No_Byte) = ?fr"
    using seen_then_nothing [of "[BLE_EVT_PKT, ev, n] @ p"] by simp
  moreover have "event_frame ?fr" using assms by (simp add: event_frame_def)
  ultimately show ?thesis using frame_delivered [OF assms(1)] by blast
qed

definition demo_thread :: "u8 \<Rightarrow> rx_thread" where
  "demo_thread b = \<lparr>rx_byte_var = b, machine = demo_rx\<rparr>"

lemma demo_thread_idle: "thread_idle (demo_thread b)"
  by (simp add: thread_idle_def demo_thread_def demo_rx_idle)

theorem hangup_completes_frame_witness:
  "\<exists>f t'. feed rx_iteration (map Got ([BLE_EVT_PKT, 0xFF, 5] @ [7, 9]) @
        replicate (unat (5 :: u8) - length [7, 9 :: u8]) No_Byte) (demo_thread 3) = Returns ([f], t') \<and>
     thread_idle t' \<and>
     delivered_bytes f = [BLE_EVT_PKT, 0xFF, 5] @ [7, 9] @
       replicate (unat (5 :: u8) - length [7, 9 :: u8]) (last ([5] @ [7, 9]))"
  by (rule hangup_completes_frame [OF demo_thread_idle]) simp_all

text \<open>When the last byte before the line went dead is 0x04, the thread invents events: every
  seven failed reads give one event of code 4 with four payload bytes, without end.\<close>

lemma hangup_invents_events:
  assumes "thread_idle t" and "rx_byte_var t = 0x04"
  shows "\<exists>fs t'. feed rx_iteration (replicate (7 * k) No_Byte) t = Returns (fs, t') \<and>
     length fs = k \<and> (\<forall>f \<in> set fs. delivered_bytes f = replicate 7 0x04)"
proof -
  have "replicate 7 b = b # b # b # replicate 4 b" for b :: u8
    by (simp add: numeral_eq_Suc)
  then have frame: "event_frame (replicate 7 0x04)"
    by (simp add: event_frame_def BLE_EVT_PKT_def)
  have "\<exists>fs t'. feed rx_iteration (replicate (7 * k) No_Byte) t = Returns (fs, t') \<and> length fs = k \<and>
     (\<forall>f \<in> set fs. delivered_bytes f = replicate 7 0x04)"
    using assms
  proof (induction k arbitrary: t)
    case 0
    show ?case by simp
  next
    case (Suc k)
    obtain f t1 where 1: "feed rx_iteration (replicate 7 No_Byte) t = Returns ([f], t1)" "thread_idle t1"
      "delivered_bytes f = replicate 7 0x04" "rx_byte_var t1 = 0x04"
      using frame_delivered [OF Suc.prems(1) frame, of "replicate 7 No_Byte"] Suc.prems(2) by auto
    obtain fs t2 where 2: "feed rx_iteration (replicate (7 * k) No_Byte) t1 = Returns (fs, t2)"
      "length fs = k" "\<forall>f \<in> set fs. delivered_bytes f = replicate 7 0x04"
      using Suc.IH [OF 1(2,4)] by blast
    have "replicate (7 * Suc k) No_Byte = replicate 7 No_Byte @ replicate (7 * k) No_Byte"
      by (simp add: replicate_add [symmetric])
    with feed_append [OF 1(1) 2(1)] 1(3) 2(2,3) show ?case by auto
  qed
  then show ?thesis .
qed

lemma hangup_invents_events_witness:
  "\<exists>fs t'. feed rx_iteration (replicate (7 * 1000) No_Byte) (demo_thread 0x04) = Returns (fs, t') \<and>
     length fs = 1000 \<and> (\<forall>f \<in> set fs. delivered_bytes f = replicate 7 0x04)"
  by (rule hangup_invents_events [OF demo_thread_idle]) (simp add: demo_thread_def)

end
