(* ===== verification/Led.thy ===== *)
theory Led
  imports C_Strings
begin

text \<open>
  The LED manager (\<open>LED_Manager/led_manager.c\<close>), which turns a command line into a shell
  command or a message on a FIFO, and the LED controller (\<open>LED_Manager/led_controller.c\<close>),
  which parses the messages and drives the pins.  Characters are bytes.  The FIFO is a byte
  stream: \<open>read\<close> delivers between 0 and 6 of the bytes written so far, whatever writes they
  came from.  Of printing only the line that prints the received buffer is kept, as it may read past
  it; what \<open>system\<close> does with its argument is not modelled.
\<close>

subsection \<open>The manager\<close>

datatype manager_call = System "u8 list" | Fifo_Write "u8 list"

definition led_manager :: "u8 list list \<Rightarrow> manager_call list outcome" where
  "led_manager argv =
     (if length argv = 4 then
        if argv ! 1 = bytes_of ''-d'' then
          outcome_bind (sprintf_into 50 (bytes_of ''/sys/class/gpio/export '' @ argv ! 2)) (\<lambda>b1.
          outcome_bind (sprintf_into 50
              (bytes_of ''/sys/class/gpio/gpio'' @ argv ! 2 @ bytes_of ''/direction '' @ argv ! 3)) (\<lambda>b2.
            Returns [System b1, System b2]))
        else if argv ! 1 = bytes_of ''-o'' then
          (if argv ! 3 = bytes_of ''2'' \<or> argv ! 3 = bytes_of ''1'' \<or> argv ! 3 = bytes_of ''0'' then
             outcome_bind (sprintf_into 50 (bytes_of ''#'' @ argv ! 2 @ bytes_of ''~'' @ argv ! 3 @ bytes_of ''!''))
               (\<lambda>b. Returns [Fifo_Write b])
           else Returns [])
        else Returns []
      else Returns [])"


subsection \<open>The controller: receiving\<close>

definition NUMBER_OF_LED :: nat where "NUMBER_OF_LED = 4"
definition DATA_LENGTH :: nat where "DATA_LENGTH = 6"

record led_state =
  ls_state :: int
  ls_direction :: int
  ls_flag :: int

record controller =
  led_fifo_buff :: "u8 list"     \<comment> \<open>20 bytes\<close>
  led_value :: "u8 list"         \<comment> \<open>\<open>value[3]\<close>\<close>
  gpio_number :: int
  GPIO :: "led_state list"       \<comment> \<open>\<open>GPIO[NUMBER_OF_LED]\<close>\<close>

definition update_structure :: "int \<Rightarrow> int \<Rightarrow> controller \<Rightarrow> controller outcome" where
  "update_structure n v c =
     (if 0 \<le> n \<and> n < int (length (GPIO c))
      then Returns (c\<lparr>GPIO := (GPIO c)[nat n := (GPIO c ! nat n)\<lparr>ls_state := v\<rparr>]\<rparr>)
      else Fault (Index_Range (length (GPIO c)) n))"

definition gpio_value :: "u8 \<Rightarrow> int" where
  "gpio_value b = (if b = 49 then 1 else if b = 50 then 2 else 0)"

text \<open>\<open>sscanf\<close> of the array \<open>value\<close> into \<open>gpio_number\<close>, then \<open>update_structure\<close>.\<close>

definition scan_and_update :: "u8 \<Rightarrow> controller \<Rightarrow> controller outcome" where
  "scan_and_update b c =
     outcome_bind (c_string (led_value c)) (\<lambda>s.
       let n = (case scan_int s of None \<Rightarrow> gpio_number c | Some n \<Rightarrow> n) in
       update_structure n (gpio_value b) (c\<lparr>gpio_number := n\<rparr>))"

text \<open>The \<open>printf\<close> of the buffer after a \<open>read\<close> that delivered \<open>bytes\<close>: nothing ever terminates the
  buffer, so without a zero byte among its 20 the text runs on past it.\<close>

definition printed_line :: "u8 list \<Rightarrow> controller \<Rightarrow> u8 list outcome" where
  "printed_line bytes c = c_string (bytes @ drop (length bytes) (led_fifo_buff c))"

text \<open>The rest of the iteration of \<open>Led_Controller\<close> after that line: parsing the message.\<close>

definition Led_Controller :: "u8 list \<Rightarrow> controller \<Rightarrow> controller outcome" where
  "Led_Controller bytes c =
     (let buff = bytes @ drop (length bytes) (led_fifo_buff c);
          c = c\<lparr>led_fifo_buff := buff\<rparr> in
      if buff ! 0 = 35 \<and> (buff ! (DATA_LENGTH - 1) = 33 \<or> buff ! (DATA_LENGTH - 2) = 33) then
        if buff ! 2 = 126 then
          scan_and_update (buff ! 3) (c\<lparr>led_value := (led_value c)[0 := 0, 1 := 0, 0 := buff ! 1]\<rparr>)
        else if buff ! 3 = 126 then
          scan_and_update (buff ! 4) (c\<lparr>led_value := (led_value c)[0 := buff ! 1, 1 := buff ! 2]\<rparr>)
        else Returns c
      else Returns c)"

text \<open>A whole iteration for a \<open>read\<close> that delivered \<open>bytes\<close>.\<close>

definition Led_Controller_iteration :: "u8 list \<Rightarrow> controller \<Rightarrow> controller outcome" where
  "Led_Controller_iteration bytes c = outcome_bind (printed_line bytes c) (\<lambda>line. Led_Controller bytes c)"


subsection \<open>The controller: driving the pins\<close>

datatype pin_call = pin_ON int | pin_OFF int

text \<open>The body of the \<open>for\<close> loop for pin \<open>i\<close>.\<close>

definition process_pin :: "int \<Rightarrow> led_state \<Rightarrow> pin_call list \<times> led_state" where
  "process_pin i s =
     (if ls_state s = 1 then ([pin_ON i], s\<lparr>ls_state := 5\<rparr>)
      else if ls_state s = 0 then ([pin_OFF i], s\<lparr>ls_state := 5\<rparr>)
      else if ls_state s = 2 \<and> ls_flag s = 1 then ([pin_ON i], s\<lparr>ls_flag := 0\<rparr>)
      else if ls_state s = 2 \<and> ls_flag s = 0 then ([pin_OFF i], s\<lparr>ls_flag := 1\<rparr>)
      else ([], s))"

primrec process_from :: "int \<Rightarrow> led_state list \<Rightarrow> pin_call list \<times> led_state list" where
  "process_from i [] = ([], [])"
| "process_from i (s # ss) =
     (let (calls, s') = process_pin i s; (rest, ss') = process_from (i + 1) ss in (calls @ rest, s' # ss'))"

definition Led_Controller_Processing :: "led_state list \<Rightarrow> pin_call list \<times> led_state list" where
  "Led_Controller_Processing l = process_from 0 l"

text \<open>The text the two pin routines format.\<close>

definition pin_text :: "int \<Rightarrow> string \<Rightarrow> u8 list outcome" where
  "pin_text n v =
     sprintf_into 50 (bytes_of ''/sys/class/gpio/gpio'' @ decimal n @ bytes_of ''/value'' @ bytes_of '' '' @ bytes_of v)"

primrec pin_format :: "pin_call \<Rightarrow> u8 list outcome" where
  "pin_format (pin_ON n) = pin_text n ''1''"
| "pin_format (pin_OFF n) = pin_text n ''0''"

subsection \<open>Facts\<close>

definition controller_ok :: "controller \<Rightarrow> bool" where
  "controller_ok c \<longleftrightarrow> length (led_fifo_buff c) = 20 \<and> length (led_value c) = 3 \<and> length (GPIO c) = NUMBER_OF_LED"

lemma length_3: "length xs = 3 \<Longrightarrow> \<exists>a b c. xs = [a, b, c]"
  by (auto simp: length_Suc_conv numeral_3_eq_3)

lemma c_string_1 [simp]: "c \<noteq> 0 \<Longrightarrow> c_string [c, 0, v] = Returns [c]"
  by (simp add: c_string_def)

lemma c_string_2: "c \<noteq> 0 \<Longrightarrow> d \<noteq> 0 \<Longrightarrow>
  c_string [c, d, v] = (if v = 0 then Returns [c, d] else Fault (Index_Range 3 3))"
  by (simp add: c_string_def)

lemma fifo_prefix:
  "controller_ok c \<Longrightarrow> length bytes \<le> 6 \<Longrightarrow> i < length bytes \<Longrightarrow>
   (bytes @ drop (length bytes) (led_fifo_buff c)) ! i = bytes ! i"
  by (simp add: nth_append)

text \<open>A command for a one-digit pin, and one for a two-digit pin.\<close>

lemma one_digit_command:
  assumes ok: "controller_ok c" and p: "is_digit p"
  shows "\<exists>c'. Led_Controller [35, p, 126, v, 33] c =
     update_structure (uint p - 48) (gpio_value v) c' \<and> GPIO c' = GPIO c"
proof -
  obtain a b z where val: "led_value c = [a, b, z]"
    using length_3 [of "led_value c"] ok by (auto simp: controller_ok_def)
  have "scan_int [p] = Some (uint p - 48)"
    using scan_digits [of "[p]"] p by (simp add: digits_value_def)
  with val digit_plain [OF p] show ?thesis
    by (intro exI [of _ "c\<lparr>led_fifo_buff := [35, p, 126, v, 33] @ drop (length [35, p, 126, v, 33]) (led_fifo_buff c),
        led_value := [p, 0, z], gpio_number := uint p - 48\<rparr>"])
      (simp add: Led_Controller_def scan_and_update_def DATA_LENGTH_def Let_def)
qed

lemma two_digit_command:
  assumes ok: "controller_ok c" and p: "is_digit p" "is_digit q"
  shows "\<exists>c'. Led_Controller [35, p, q, 126, v, 33] c =
     (if led_value c ! 2 = 0
      then update_structure (10 * (uint p - 48) + (uint q - 48)) (gpio_value v) c'
      else Fault (Index_Range 3 3)) \<and> GPIO c' = GPIO c"
proof -
  obtain a b z where val: "led_value c = [a, b, z]"
    using length_3 [of "led_value c"] ok by (auto simp: controller_ok_def)
  have "scan_int [p, q] = Some (10 * (uint p - 48) + (uint q - 48))"
    using scan_digits [of "[p, q]"] p by (simp add: digits_value_def)
  with val digit_plain [OF p(1)] digit_plain [OF p(2)] show ?thesis
    by (intro exI [of _ "c\<lparr>led_fifo_buff := [35, p, q, 126, v, 33] @
          drop (length [35, p, q, 126, v, 33]) (led_fifo_buff c),
        led_value := [p, q, 0], gpio_number := 10 * (uint p - 48) + (uint q - 48)\<rparr>"])
      (simp add: Led_Controller_def scan_and_update_def DATA_LENGTH_def c_string_2 Let_def)
qed

subsection \<open>Properties\<close>

lemma ascii_hash: "bytes_of ''#'' = [35]" and ascii_tilde: "bytes_of ''~'' = [126]"
  and ascii_bang: "bytes_of ''!'' = [33]" and ascii_o: "bytes_of ''-o'' = [45, 111]"
  and ascii_d: "bytes_of ''-d'' = [45, 100]"
  and ascii_012: "bytes_of ''0'' = [48]" "bytes_of ''1'' = [49]" "bytes_of ''2'' = [50]"
  by (simp_all add: bytes_of_def of_char_def)

lemmas ascii = ascii_hash ascii_tilde ascii_bang ascii_o ascii_d ascii_012


definition demo_controller :: controller where
  "demo_controller =
     \<lparr>led_fifo_buff = replicate 20 0x7F, led_value = [1, 2, 0], gpio_number = 99,
      GPIO = replicate 4 \<lparr>ls_state = 0, ls_direction = 0, ls_flag = 0\<rparr>\<rparr>"

lemma demo_controller_ok: "controller_ok demo_controller"
  by (simp add: controller_ok_def demo_controller_def NUMBER_OF_LED_def)


lemma two_digits_ge: "1 \<le> (x :: int) \<Longrightarrow> 0 \<le> y \<Longrightarrow> 10 \<le> 10 * x + y"
  by linarith

text \<open>A command for a pin from 10 to 99 always leaves an array: with a zero third byte in
  \<open>value\<close> the pin number indexes the four LED states, otherwise \<open>sscanf\<close> reads past \<open>value\<close>.\<close>

lemma two_digit_pin_faults:
  assumes "controller_ok c" and "is_digit p" and "p \<noteq> 48" and "is_digit q"
  shows "Led_Controller [35, p, q, 126, v, 33] c =
     Fault (if led_value c ! 2 = 0 then Index_Range 4 (10 * (uint p - 48) + (uint q - 48)) else Index_Range 3 3)"
proof -
  obtain c1 where c1: "Led_Controller [35, p, q, 126, v, 33] c =
      (if led_value c ! 2 = 0
       then update_structure (10 * (uint p - 48) + (uint q - 48)) (gpio_value v) c1
       else Fault (Index_Range 3 3))" and g: "GPIO c1 = GPIO c"
    using two_digit_command [OF assms(1,2,4)] by blast
  have "unat p \<noteq> 48"
    using assms(3) by (metis of_nat_unat ucast_id of_nat_numeral)
  then have "49 \<le> unat p" using assms(2) by (simp add: digit_range)
  moreover have "uint p = int (unat p)" by simp
  ultimately have "1 \<le> uint p - 48" by linarith
  then have "10 \<le> 10 * (uint p - 48) + (uint q - 48)" using conjunct1 [OF digit_uint [OF assms(4)]] by (rule two_digits_ge)
  moreover have "length (GPIO c1) = 4" using assms(1) g by (simp add: controller_ok_def NUMBER_OF_LED_def)
  ultimately have "update_structure (10 * (uint p - 48) + (uint q - 48)) (gpio_value v) c1 =
      Fault (Index_Range 4 (10 * (uint p - 48) + (uint q - 48)))"
    unfolding update_structure_def by simp
  then show ?thesis using c1 by simp
qed

lemma two_digit_pin_faults_witness:
  "Led_Controller [35, 49, 50, 126, 49, 33] demo_controller =
     Fault (if led_value demo_controller ! 2 = 0 then Index_Range 4 (10 * (uint (49 :: u8) - 48) + (uint (50 :: u8) - 48))
            else Index_Range 3 3)"
  by (rule two_digit_pin_faults [OF demo_controller_ok]) (simp_all add: is_digit_def)

text \<open>Messages written back to back are lost: a message for a one-digit pin has 5 bytes but the
  controller reads 6, so of two such messages waiting in the FIFO the second never takes
  effect; its first byte is swallowed and the rest is no message.\<close>

lemma second_message_lost:
  assumes "controller_ok c" and "is_digit p" and "uint p - 48 < 4" and "is_digit q"
  shows "\<exists>c1 c2. Led_Controller (take 6 ([35, p, 126, v, 33] @ [35, q, 126, w, 33])) c = Returns c1 \<and>
     Led_Controller (drop 6 ([35, p, 126, v, 33] @ [35, q, 126, w, 33])) c1 = Returns c2 \<and>
     GPIO c1 = (GPIO c)[unat p - 48 := (GPIO c ! (unat p - 48))\<lparr>ls_state := gpio_value v\<rparr>] \<and>
     GPIO c2 = GPIO c1"
proof -
  obtain a b z where val: "led_value c = [a, b, z]"
    using length_3 [of "led_value c"] assms(1) by (auto simp: controller_ok_def)
  have len: "length (GPIO c) = 4" using assms(1) by (simp add: controller_ok_def NUMBER_OF_LED_def)
  have p: "0 \<le> uint p - 48" "nat (uint p - 48) = unat p - 48"
    using digit_uint [OF assms(2)] by (simp_all add: nat_diff_distrib)
  have "scan_int [p] = Some (uint p - 48)"
    using scan_digits [of "[p]"] assms(2) by (simp add: digits_value_def)
  then have "\<exists>c1. Led_Controller [35, p, 126, v, 33, 35] c = Returns c1 \<and>
      GPIO c1 = (GPIO c)[unat p - 48 := (GPIO c ! (unat p - 48))\<lparr>ls_state := gpio_value v\<rparr>]"
    using val len p assms(3) digit_plain [OF assms(2)]
    by (simp add: Led_Controller_def scan_and_update_def DATA_LENGTH_def Let_def update_structure_def)
  then obtain c1 where c1: "Led_Controller [35, p, 126, v, 33, 35] c = Returns c1"
    "GPIO c1 = (GPIO c)[unat p - 48 := (GPIO c ! (unat p - 48))\<lparr>ls_state := gpio_value v\<rparr>]" by blast
  have "q \<noteq> 35" using assms(4) by (auto simp: is_digit_def)
  then have "Led_Controller [q, 126, w, 33] c1 =
      Returns (c1\<lparr>led_fifo_buff := [q, 126, w, 33] @ drop (length [q, 126, w, 33]) (led_fifo_buff c1)\<rparr>)"
    by (simp add: Led_Controller_def)
  with c1 show ?thesis by (auto simp: eval_nat_numeral)
qed

lemma second_message_lost_witness:
  "\<exists>c1 c2. Led_Controller (take 6 ([35, 48, 126, 49, 33] @ [35, 49, 126, 49, 33])) demo_controller = Returns c1 \<and>
     Led_Controller (drop 6 ([35, 48, 126, 49, 33] @ [35, 49, 126, 49, 33])) c1 = Returns c2 \<and>
     GPIO c1 = (GPIO demo_controller)[unat (48 :: u8) - 48 :=
       (GPIO demo_controller ! (unat (48 :: u8) - 48))\<lparr>ls_state := gpio_value 49\<rparr>] \<and>
     GPIO c2 = GPIO c1"
  by (rule second_message_lost [OF demo_controller_ok]) (simp_all add: is_digit_def)

definition toggles :: "led_state \<Rightarrow> bool" where
  "toggles s \<longleftrightarrow> ls_state s = 2 \<and> ls_flag s \<in> {0, 1}"

primrec opposite :: "pin_call \<Rightarrow> pin_call" where
  "opposite (pin_ON n) = pin_OFF n"
| "opposite (pin_OFF n) = pin_ON n"

definition led_settled :: "led_state \<Rightarrow> bool" where
  "led_settled s \<longleftrightarrow> ls_state s \<in> {0, 1, 5} \<or> toggles s"

text \<open>The calls for the toggling pins of a list, numbered from \<open>i\<close>.\<close>

primrec toggle_calls :: "int \<Rightarrow> led_state list \<Rightarrow> pin_call list" where
  "toggle_calls i [] = []"
| "toggle_calls i (s # ss) =
     (if toggles s then [if ls_flag s = 1 then pin_ON i else pin_OFF i] else []) @ toggle_calls (i + 1) ss"

lemma process_twice_from:
  "list_all led_settled l \<Longrightarrow>
   fst (process_from i (snd (process_from i l))) = map opposite (toggle_calls i l) \<and>
   map ls_flag (snd (process_from i (snd (process_from i l)))) = map ls_flag l \<and>
   snd (process_from i (snd (process_from i (snd (process_from i l))))) = snd (process_from i l)"
proof (induction l arbitrary: i)
  case (Cons s ss)
  obtain c ss1 where 1: "process_from (i + 1) ss = (c, ss1)" by force
  obtain c2 ss2 where 2: "process_from (i + 1) ss1 = (c2, ss2)" by force
  obtain c3 ss3 where 3: "process_from (i + 1) ss2 = (c3, ss3)" by force
  from Cons.IH [of "i + 1"] Cons.prems 1 2 3 have
    IH: "c2 = map opposite (toggle_calls (i + 1) ss)" "map ls_flag ss2 = map ls_flag ss" "ss3 = ss1"
    by simp_all
  have "led_settled s" using Cons.prems by simp
  then show ?case
    by (auto simp: led_settled_def toggles_def process_pin_def 1 2 3 IH)
qed simp

lemma process_once_from:
  "list_all toggles l \<Longrightarrow> fst (process_from i l) = toggle_calls i l"
  by (induction l arbitrary: i) (auto simp: toggles_def process_pin_def split_beta)

text \<open>The processing loop drives each pin once per command and blinks the toggled ones: the
  second pass makes exactly one call for every pin in the toggle state, the opposite of the
  first pass's call for it, and none for the others; after it every flag is as before the first pass, and a
  third pass leaves the table as the first one did.\<close>

lemma processing_blinks:
  assumes "list_all led_settled l"
  shows "let (calls1, l1) = Led_Controller_Processing l; (calls2, l2) = Led_Controller_Processing l1 in
     (list_all toggles l \<longrightarrow> calls1 = toggle_calls 0 l) \<and>
     calls2 = map opposite (toggle_calls 0 l) \<and> map ls_flag l2 = map ls_flag l \<and>
     snd (Led_Controller_Processing l2) = l1"
  using process_twice_from [OF assms, of 0] process_once_from [of l 0]
  by (simp add: Led_Controller_Processing_def Let_def split_beta)

lemma processing_blinks_witness:
  "let (calls1, l1) = Led_Controller_Processing
        [\<lparr>ls_state = 1, ls_direction = 0, ls_flag = 0\<rparr>, \<lparr>ls_state = 2, ls_direction = 0, ls_flag = 0\<rparr>];
       (calls2, l2) = Led_Controller_Processing l1 in
     (list_all toggles [\<lparr>ls_state = 1, ls_direction = 0, ls_flag = 0\<rparr>, \<lparr>ls_state = 2, ls_direction = 0, ls_flag = 0\<rparr>] \<longrightarrow>
        calls1 = toggle_calls 0 [\<lparr>ls_state = 1, ls_direction = 0, ls_flag = 0\<rparr>, \<lparr>ls_state = 2, ls_direction = 0, ls_flag = 0\<rparr>]) \<and>
     calls2 = map opposite (toggle_calls 0
        [\<lparr>ls_state = 1, ls_direction = 0, ls_flag = 0\<rparr>, \<lparr>ls_state = 2, ls_direction = 0, ls_flag = 0\<rparr>]) \<and>
     map ls_flag l2 = map ls_flag
        [\<lparr>ls_state = 1, ls_direction = 0, ls_flag = 0\<rparr>, \<lparr>ls_state = 2, ls_direction = 0, ls_flag = 0\<rparr>] \<and>
     snd (Led_Controller_Processing l2) = l1"
  by (rule processing_blinks) (simp add: led_settled_def toggles_def)

text \<open>The pin routines never overrun their 50-byte buffer, for any value of a 32-bit \<open>int\<close>.\<close>

lemma pin_format_fits:
  assumes "-(2 ^ 31) \<le> n" and "n < 2 ^ 31"
  shows "(\<exists>s. pin_format (pin_ON n) = Returns s) \<and> (\<exists>s. pin_format (pin_OFF n) = Returns s)"
proof -
  have "length (decimal n) \<le> 11" using assms by (intro decimal_length) auto
  then show ?thesis by (simp add: pin_text_def sprintf_into_def bytes_of_def)
qed

lemma pin_format_fits_witness:
  "(\<exists>s. pin_format (pin_ON (-2147483648)) = Returns s) \<and> (\<exists>s. pin_format (pin_OFF (-2147483648)) = Returns s)"
  by (rule pin_format_fits) simp_all

text \<open>The manager writes its message safely exactly for pin arguments of at most 45 characters;
  a longer argument from the command line is formatted past the end of its buffer.\<close>

lemma led_manager_safe_iff:
  assumes "v \<in> {48, 49, 50}"
  shows "(\<exists>fr. led_manager [prog, [45, 111], pin, [v]] = Returns [Fifo_Write fr]) \<longleftrightarrow> length pin \<le> 45"
  using assms by (auto simp: led_manager_def ascii sprintf_into_def)

lemma led_manager_safe_iff_witness:
  "(\<exists>fr. led_manager [[], [45, 111], replicate 46 49, [49]] = Returns [Fifo_Write fr]) \<longleftrightarrow>
     length (replicate 46 (49 :: u8)) \<le> 45"
  by (rule led_manager_safe_iff) simp

end
