(* ===== verification/Led_Threads.thy ===== *)
theory Led_Threads
  imports Led
begin

text \<open>
  The two threads of \<open>led_controller.c\<close> over the table \<open>GPIO\<close> they share without a lock:
  \<open>Led_Controller\<close> stores a state for a pin whenever a message comes, and
  \<open>Led_Controller_Processing\<close> goes round the pins.  A step of the first is one message: its only
  access to the table is its last one.  A step of the second is one condition of the \<open>if\<close> chain,
  with the pin call of the branch it selects, or one store, so that a message can arrive between a
  pin call and the store after it.
\<close>

subsection \<open>The processing thread, step by step\<close>

text \<open>
  \<open>Test i k\<close>: at the \<open>k\<close>-th condition for pin \<open>i\<close>; \<open>Store i k\<close>: the pin call of the \<open>k\<close>-th
  branch is made and its store still to do.
\<close>

datatype led_pc = Test nat nat | Store nat nat

record led_threads =
  ctl :: controller              \<comment> \<open>locals of \<open>Led_Controller\<close>, and \<open>GPIO\<close>\<close>
  at_pc :: led_pc
  calls :: "pin_call list"       \<comment> \<open>pin routines called so far\<close>

definition next_pin :: "nat \<Rightarrow> led_pc" where
  "next_pin i = Test ((i + 1) mod NUMBER_OF_LED) 0"

text \<open>The conditions of the chain, the calls and the stores of its branches.\<close>

definition branch_test :: "nat \<Rightarrow> led_state \<Rightarrow> bool" where
  "branch_test k s =
     (if k = 0 then ls_state s = 1
      else if k = 1 then ls_state s = 0
      else if k = 2 then ls_state s = 2 \<and> ls_flag s = 1
      else ls_state s = 2 \<and> ls_flag s = 0)"

definition branch_call :: "nat \<Rightarrow> nat \<Rightarrow> pin_call" where
  "branch_call k i = (if k = 0 \<or> k = 2 then pin_ON (int i) else pin_OFF (int i))"

definition branch_store :: "nat \<Rightarrow> led_state \<Rightarrow> led_state" where
  "branch_store k s =
     (if k = 0 \<or> k = 1 then s\<lparr>ls_state := 5\<rparr>
      else if k = 2 then s\<lparr>ls_flag := 0\<rparr>
      else s\<lparr>ls_flag := 1\<rparr>)"

abbreviation set_pin :: "nat \<Rightarrow> led_state \<Rightarrow> controller \<Rightarrow> controller" where
  "set_pin i l c \<equiv> c\<lparr>GPIO := (GPIO c)[i := l]\<rparr>"

definition processing_step :: "led_threads \<Rightarrow> led_threads" where
  "processing_step w =
     (case at_pc w of
        Test i k \<Rightarrow>
          if branch_test k (GPIO (ctl w) ! i)
          then w\<lparr>at_pc := Store i k, calls := calls w @ [branch_call k i]\<rparr>
          else w\<lparr>at_pc := (if k < 3 then Test i (Suc k) else next_pin i)\<rparr>
      | Store i k \<Rightarrow>
          w\<lparr>ctl := set_pin i (branch_store k (GPIO (ctl w) ! i)) (ctl w), at_pc := next_pin i\<rparr>)"

datatype led_system = Led_Runs led_threads | Led_Crashed fault

inductive led_step :: "led_system \<Rightarrow> led_system \<Rightarrow> bool" where
  processing: "led_step (Led_Runs w) (Led_Runs (processing_step w))"
| received: "length bytes \<le> DATA_LENGTH \<Longrightarrow> Led_Controller_iteration bytes (ctl w) = Returns c \<Longrightarrow>
    led_step (Led_Runs w) (Led_Runs (w\<lparr>ctl := c\<rparr>))"
| receive_fault: "length bytes \<le> DATA_LENGTH \<Longrightarrow> Led_Controller_iteration bytes (ctl w) = Fault e \<Longrightarrow>
    led_step (Led_Runs w) (Led_Crashed e)"

inductive_cases led_stepE: "led_step s t"

text \<open>\<open>main\<close> starts both threads on the zeroed table; the locals are indeterminate.\<close>

primrec led_init :: "led_system \<Rightarrow> bool" where
  "led_init (Led_Runs w) \<longleftrightarrow>
     controller_ok (ctl w) \<and> at_pc w = Test 0 0 \<and> calls w = [] \<and>
     GPIO (ctl w) = replicate NUMBER_OF_LED \<lparr>ls_state = 0, ls_direction = 0, ls_flag = 0\<rparr>"
| "led_init (Led_Crashed e) = False"


subsection \<open>The invariant of the two threads\<close>

definition pin_ok :: "led_state \<Rightarrow> bool" where
  "pin_ok s \<longleftrightarrow> ls_state s \<in> {0, 1, 2, 5} \<and> ls_flag s \<in> {0, 1}"

text \<open>A pending store of a toggle branch: the flag is still what the branch tested.\<close>

primrec pc_ok :: "led_pc \<Rightarrow> led_state list \<Rightarrow> bool" where
  "pc_ok (Test i k) l \<longleftrightarrow> i < NUMBER_OF_LED \<and> k < 4"
| "pc_ok (Store i k) l \<longleftrightarrow> i < NUMBER_OF_LED \<and> k < 4 \<and>
     (k = 2 \<longrightarrow> ls_flag (l ! i) = 1) \<and> (k = 3 \<longrightarrow> ls_flag (l ! i) = 0)"

definition threads_ok :: "led_threads \<Rightarrow> bool" where
  "threads_ok w \<longleftrightarrow>
     controller_ok (ctl w) \<and> list_all pin_ok (GPIO (ctl w)) \<and> pc_ok (at_pc w) (GPIO (ctl w))"

text \<open>The three ways out of the defined part of C: printing past the 20 bytes of the buffer, scanning past
  the three of \<open>value\<close>, a number that is no index of the table.\<close>

definition led_fault :: "fault \<Rightarrow> bool" where
  "led_fault e \<longleftrightarrow>
     e = Index_Range 20 20 \<or> e = Index_Range 3 3 \<or> (\<exists>n. e = Index_Range 4 n \<and> (n < 0 \<or> 4 \<le> n))"

primrec led_inv :: "led_system \<Rightarrow> bool" where
  "led_inv (Led_Runs w) = threads_ok w"
| "led_inv (Led_Crashed e) = led_fault e"

lemma controller_ok_GPIO [simp]:
  "length l = NUMBER_OF_LED \<Longrightarrow> controller_ok c \<Longrightarrow> controller_ok (c\<lparr>GPIO := l\<rparr>)"
  by (simp add: controller_ok_def)

lemma next_pin_ok [simp]: "pc_ok (next_pin i) l"
  by (simp add: next_pin_def NUMBER_OF_LED_def)

lemma branch_store_ok: "pin_ok s \<Longrightarrow> pin_ok (branch_store k s)"
  by (simp add: pin_ok_def branch_store_def)

lemma processing_ok: "threads_ok w \<Longrightarrow> threads_ok (processing_step w)"
proof (cases "at_pc w")
  case (Test i k)
  assume ok: "threads_ok w"
  have "branch_test k s \<Longrightarrow> (k = 2 \<longrightarrow> ls_flag s = 1) \<and> (k = 3 \<longrightarrow> ls_flag s = 0)" for s
    by (auto simp: branch_test_def split: if_splits)
  with Test ok show ?thesis
    by (auto simp: processing_step_def threads_ok_def split: if_splits)
next
  case (Store i k)
  assume ok: "threads_ok w"
  then have "pin_ok (GPIO (ctl w) ! i)" "length (GPIO (ctl w)) = NUMBER_OF_LED"
    using Store by (auto simp: threads_ok_def controller_ok_def list_all_length)
  with Store ok show ?thesis
    by (simp add: processing_step_def threads_ok_def list_update_all branch_store_ok)
qed


text \<open>What one message can do to the table.\<close>

definition table_after :: "led_state list \<Rightarrow> led_state list \<Rightarrow> bool" where
  "table_after l l' \<longleftrightarrow>
     l' = l \<or> (\<exists>n v. n < NUMBER_OF_LED \<and> v \<in> {0, 1, 2} \<and> l' = l[n := (l ! n)\<lparr>ls_state := v\<rparr>])"

primrec message_ok :: "led_state list \<Rightarrow> controller outcome \<Rightarrow> bool" where
  "message_ok l (Returns c) \<longleftrightarrow> controller_ok c \<and> table_after l (GPIO c)"
| "message_ok l Blocks \<longleftrightarrow> False"
| "message_ok l (Fault e) \<longleftrightarrow> led_inv (Led_Crashed e)"

lemma update_structure_message:
  assumes "controller_ok c"
  shows "message_ok (GPIO c) (update_structure n (gpio_value v) c)"
proof -
  have "gpio_value v \<in> {0, 1, 2}" by (simp add: gpio_value_def)
  moreover have "0 \<le> n \<Longrightarrow> n < 4 \<Longrightarrow> nat n < NUMBER_OF_LED" by (simp add: NUMBER_OF_LED_def)
  ultimately show ?thesis
    using assms by (auto simp: update_structure_def controller_ok_def table_after_def NUMBER_OF_LED_def led_fault_def)
qed

lemma scan_message: "controller_ok c \<Longrightarrow> message_ok (GPIO c) (scan_and_update v c)"
proof -
  assume ok: "controller_ok c"
  then have ok': "controller_ok (c\<lparr>gpio_number := n\<rparr>)" for n by (simp add: controller_ok_def)
  show ?thesis
    using ok update_structure_message [OF ok', where v = v]
    by (auto simp: scan_and_update_def c_string_def controller_ok_def Let_def led_fault_def)
qed

lemma Led_Controller_message:
  assumes "controller_ok c" and "length bytes \<le> DATA_LENGTH"
  shows "message_ok (GPIO c) (Led_Controller bytes c)"
proof -
  let ?b = "bytes @ drop (length bytes) (led_fifo_buff c)"
  have "controller_ok (c\<lparr>led_fifo_buff := ?b\<rparr>)"
    and "controller_ok (c\<lparr>led_fifo_buff := ?b, led_value := (led_value c)[0 := x, 1 := y, 0 := z]\<rparr>)"
    and "controller_ok (c\<lparr>led_fifo_buff := ?b, led_value := (led_value c)[0 := x, 1 := y]\<rparr>)" for x y z
    using assms by (simp_all add: controller_ok_def DATA_LENGTH_def)
  from this(1) this(2,3) [THEN scan_message] show ?thesis
    by (simp add: Led_Controller_def Let_def table_after_def)
qed

lemma iteration_message:
  assumes "controller_ok c" and "length bytes \<le> DATA_LENGTH"
  shows "message_ok (GPIO c) (Led_Controller_iteration bytes c)"
proof -
  have "length (bytes @ drop (length bytes) (led_fifo_buff c)) = 20"
    using assms by (simp add: controller_ok_def DATA_LENGTH_def)
  with Led_Controller_message [OF assms] show ?thesis
    by (simp add: Led_Controller_iteration_def printed_line_def c_string_def led_fault_def)
qed

lemma table_after_ok:
  assumes "table_after l l'" and "list_all pin_ok l" and "pc_ok pc l" and len: "length l = NUMBER_OF_LED"
  shows "list_all pin_ok l' \<and> pc_ok pc l'"
  using assms(1) unfolding table_after_def
proof (elim disjE exE conjE)
  fix n v
  assume n: "n < NUMBER_OF_LED" and v: "v \<in> {0, 1, 2 :: int}"
    and l': "l' = l[n := (l ! n)\<lparr>ls_state := v\<rparr>]"
  have "pin_ok ((l ! n)\<lparr>ls_state := v\<rparr>)"
    using assms(2) n v len by (auto simp: pin_ok_def list_all_length)
  moreover have "ls_flag (l' ! i) = ls_flag (l ! i)" for i
    using n len by (cases "i = n") (simp_all add: l')
  ultimately show ?thesis using assms(2,3) by (cases pc) (simp_all add: l' list_update_all)
qed (use assms in simp)

interpretation led_threads: step_invariant led_init led_step led_inv
proof
  fix s assume "led_init s"
  then show "led_inv s"
    by (cases s) (simp_all add: threads_ok_def NUMBER_OF_LED_def pin_ok_def list_all_iff)
next
  fix s t assume step: "led_step s t" and inv: "led_inv s"
  from step show "led_inv t"
  proof cases
    case (processing w)
    then show ?thesis using inv by (simp add: processing_ok)
  next
    case (received bytes w c)
    then have ok: "threads_ok w" using inv by simp
    then have "message_ok (GPIO (ctl w)) (Returns c)"
      using iteration_message [of "ctl w" bytes] received by (simp add: threads_ok_def)
    with ok table_after_ok [of "GPIO (ctl w)" "GPIO c" "at_pc w"] show ?thesis
      unfolding received by (simp add: threads_ok_def controller_ok_def)
  next
    case (receive_fault bytes w e)
    then show ?thesis
      using iteration_message [of "ctl w" bytes] inv by (simp add: threads_ok_def)
  qed
qed

text \<open>Each of the three ways out is taken by the first message to some content of the uninitialised locals.\<close>

lemma first_message_crashes:
  assumes "controller_ok c" and "GPIO c = replicate NUMBER_OF_LED \<lparr>ls_state = 0, ls_direction = 0, ls_flag = 0\<rparr>"
    and "length bytes \<le> DATA_LENGTH" and "Led_Controller_iteration bytes c = Fault e"
  shows "reaches led_init led_step (Led_Crashed e)"
proof -
  have "reaches led_init led_step (Led_Runs \<lparr>ctl = c, at_pc = Test 0 0, calls = []\<rparr>)"
    using assms(1,2) by (intro reaches.start) simp
  moreover have "led_step (Led_Runs \<lparr>ctl = c, at_pc = Test 0 0, calls = []\<rparr>) (Led_Crashed e)"
    using assms(3,4) by (intro led_step.receive_fault) simp_all
  ultimately show ?thesis by (rule reaches.next_state)
qed

definition fresh_controller :: "u8 list \<Rightarrow> u8 list \<Rightarrow> int \<Rightarrow> controller" where
  "fresh_controller buff v n =
     \<lparr>led_fifo_buff = buff, led_value = v, gpio_number = n,
      GPIO = replicate NUMBER_OF_LED \<lparr>ls_state = 0, ls_direction = 0, ls_flag = 0\<rparr>\<rparr>"

lemma every_fault_occurs:
  assumes "led_fault e"
  shows "reaches led_init led_step (Led_Crashed e)"
proof -
  have crash: "reaches led_init led_step (Led_Crashed e)"
    if "length buff = 20" "length v = 3" "length bytes \<le> DATA_LENGTH"
      "Led_Controller_iteration bytes (fresh_controller buff v n) = Fault e" for buff v n bytes
    using first_message_crashes [OF _ _ that(3,4)] that(1,2) by (simp add: controller_ok_def fresh_controller_def)
  note defs = Led_Controller_iteration_def printed_line_def c_string_def Led_Controller_def scan_and_update_def
    DATA_LENGTH_def fresh_controller_def Let_def
  from assms consider "e = Index_Range 20 20" | "e = Index_Range 3 3" | n where "e = Index_Range 4 n" "n < 0 \<or> 4 \<le> n"
    unfolding led_fault_def by blast
  then show ?thesis
  proof cases
    case 1
    then show ?thesis by (intro crash [of "replicate 20 1" "[0, 0, 0]" "[65]" 0]) (simp_all add: defs)
  next
    case 2
    then show ?thesis
      by (intro crash [of "replicate 20 0" "[0, 0, 1]" "[35, 49, 50, 126, 49, 33]" 0]) (simp_all add: defs)
  next
    case (3 n)
    have "scan_int [120] = None" by (simp add: scan_int_def is_space_def is_digit_def)
    with 3 show ?thesis
      by (intro crash [of "replicate 20 0" "[0, 0, 0]" "[35, 120, 126, 49, 33]" n])
        (auto simp: defs update_structure_def NUMBER_OF_LED_def)
  qed
qed

text \<open>C18: Whatever messages arrive and however the two threads interleave, the table keeps its
  four entries with states off, on, toggle or executed and flags 0 or 1, and the processing thread
  is at one of its conditions or stores for one of the four pins.  The ways to leave the
  defined part of C are exactly these: the \<open>printf\<close> of the 20 bytes of the buffer when no byte of
  it is zero, the \<open>sscanf\<close> that runs off the three bytes of \<open>value\<close>, and an access to the table at
  any number that is no index of it; each of them can happen.\<close>

theorem led_threads_typed:
  "(reaches led_init led_step (Led_Runs w) \<longrightarrow>
      controller_ok (ctl w) \<and> list_all pin_ok (GPIO (ctl w)) \<and> pc_ok (at_pc w) (GPIO (ctl w))) \<and>
   (reaches led_init led_step (Led_Crashed e) \<longleftrightarrow>
      e = Index_Range 20 20 \<or> e = Index_Range 3 3 \<or> (\<exists>n. e = Index_Range 4 n \<and> (n < 0 \<or> 4 \<le> n)))"
proof
  show "reaches led_init led_step (Led_Runs w) \<longrightarrow>
      controller_ok (ctl w) \<and> list_all pin_ok (GPIO (ctl w)) \<and> pc_ok (at_pc w) (GPIO (ctl w))"
    using led_threads.reaches_inv [of "Led_Runs w"] by (simp add: threads_ok_def)
  show "reaches led_init led_step (Led_Crashed e) \<longleftrightarrow>
      e = Index_Range 20 20 \<or> e = Index_Range 3 3 \<or> (\<exists>n. e = Index_Range 4 n \<and> (n < 0 \<or> 4 \<le> n))"
    unfolding led_fault_def [symmetric]
    using led_threads.reaches_inv [of "Led_Crashed e"] every_fault_occurs by auto
qed

text \<open>A process that has printed and parsed a message, and a crash.\<close>

theorem led_threads_typed_witness:
  "\<exists>w. reaches led_init led_step (Led_Runs w) \<and> ls_state (GPIO (ctl w) ! 2) = 1 \<and>
     list_all pin_ok (GPIO (ctl w)) \<and> reaches led_init led_step (Led_Crashed (Index_Range 4 7))"
proof -
  let ?c = "fresh_controller (replicate 20 0) [0, 0, 0] 0"
  let ?w = "\<lparr>ctl = ?c, at_pc = Test 0 0, calls = []\<rparr>"
  have r: "reaches led_init led_step (Led_Runs ?w)"
    by (intro reaches.start) (simp add: controller_ok_def fresh_controller_def)
  have "scan_int [50] = Some 2" by (simp add: scan_int_def is_space_def is_digit_def digits_value_def)
  then obtain c where c: "Led_Controller_iteration [35, 50, 126, 49, 33] ?c = Returns c" "ls_state (GPIO c ! 2) = 1"
    by (simp add: Led_Controller_iteration_def printed_line_def c_string_def Led_Controller_def scan_and_update_def
        DATA_LENGTH_def fresh_controller_def Let_def update_structure_def NUMBER_OF_LED_def gpio_value_def)
  have "led_step (Led_Runs ?w) (Led_Runs (?w\<lparr>ctl := c\<rparr>))"
    by (rule led_step.received [of "[35, 50, 126, 49, 33]"]) (simp_all add: DATA_LENGTH_def c(1))
  from reaches.next_state [OF r this] have w: "reaches led_init led_step (Led_Runs (?w\<lparr>ctl := c\<rparr>))" .
  with led_threads_typed [of "?w\<lparr>ctl := c\<rparr>" "Index_Range 4 7"] c(2) show ?thesis
    by (intro exI [of _ "?w\<lparr>ctl := c\<rparr>"]) simp
qed


subsection \<open>The sweep without messages\<close>

text \<open>A number of steps of the processing thread alone.\<close>

primrec processes :: "nat \<Rightarrow> led_threads \<Rightarrow> led_threads" where
  "processes 0 w = w"
| "processes (Suc m) w = processes m (processing_step w)"

lemma processes_add: "processes (m + k) w = processes k (processes m w)"
  by (induction m arbitrary: w) simp_all

lemma no_branch: "\<not> branch_test k (GPIO c ! i) \<Longrightarrow>
   processing_step \<lparr>ctl = c, at_pc = Test i k, calls = cs\<rparr> =
     \<lparr>ctl = c, at_pc = (if k < 3 then Test i (Suc k) else next_pin i), calls = cs\<rparr>"
  by (simp add: processing_step_def)

lemma branch: "branch_test k (GPIO c ! i) \<Longrightarrow>
   processing_step (processing_step \<lparr>ctl = c, at_pc = Test i k, calls = cs\<rparr>) =
     \<lparr>ctl = set_pin i (branch_store k (GPIO c ! i)) c, at_pc = next_pin i,
      calls = cs @ [branch_call k i]\<rparr>"
  by (simp add: processing_step_def)

text \<open>One pin takes at most five steps, which do what the chain of conditions does in one go.\<close>

lemma one_pin:
  assumes "at_pc w = Test i 0"
  shows "\<exists>m \<le> 5. processes m w = w\<lparr>at_pc := next_pin i,
       calls := calls w @ fst (process_pin (int i) (GPIO (ctl w) ! i)),
       ctl := set_pin i (snd (process_pin (int i) (GPIO (ctl w) ! i))) (ctl w)\<rparr>"
proof -
  obtain c cs where w: "w = \<lparr>ctl = c, at_pc = Test i 0, calls = cs\<rparr>"
    using assms by (cases w) simp
  let ?s = "GPIO c ! i"
  let ?w = "\<lparr>ctl = set_pin i (snd (process_pin (int i) ?s)) c, at_pc = next_pin i,
     calls = cs @ fst (process_pin (int i) ?s)\<rparr>"
  note defs = branch_test_def branch_call_def branch_store_def process_pin_def
  consider (0) "branch_test 0 ?s" | (1) "\<not> branch_test 0 ?s" "branch_test 1 ?s"
    | (2) "\<not> branch_test 0 ?s" "\<not> branch_test 1 ?s" "branch_test 2 ?s"
    | (3) "\<not> branch_test 0 ?s" "\<not> branch_test 1 ?s" "\<not> branch_test 2 ?s" "branch_test 3 ?s"
    | (4) "\<not> branch_test 0 ?s" "\<not> branch_test 1 ?s" "\<not> branch_test 2 ?s" "\<not> branch_test 3 ?s"
    by blast
  then have "\<exists>m \<le> 5. processes m w = ?w"
  proof cases
    case 0
    then have "processes 2 w = ?w" by (simp add: w numeral_2_eq_2 branch) (simp add: defs)
    then show ?thesis by (intro exI [of _ 2]) simp
  next
    case 1
    then have "processes 3 w = ?w"
      by (simp add: w numeral_3_eq_3 no_branch branch) (simp add: defs)
    then show ?thesis by (intro exI [of _ 3]) simp
  next
    case 2
    then have "processes 4 w = ?w"
      by (simp add: w numeral_eq_Suc no_branch branch) (simp add: defs)
    then show ?thesis by (intro exI [of _ 4]) simp
  next
    case 3
    then have "processes 5 w = ?w"
      by (simp add: w numeral_eq_Suc no_branch branch) (simp add: defs)
    then show ?thesis by (intro exI [of _ 5]) simp
  next
    case 4
    then have "processes 4 w = ?w"
      by (simp add: w numeral_eq_Suc no_branch) (simp add: defs)
    then show ?thesis by (intro exI [of _ 4]) simp
  qed
  then show ?thesis by (simp add: w)
qed


lemma pin_at:
  assumes "at_pc w = Test (length l1) 0" and "GPIO (ctl w) = l1 @ s # l2"
  shows "\<exists>m \<le> 5. processes m w = w\<lparr>at_pc := next_pin (length l1),
       calls := calls w @ fst (process_pin (int (length l1)) s),
       ctl := (ctl w)\<lparr>GPIO := l1 @ snd (process_pin (int (length l1)) s) # l2\<rparr>\<rparr>"
  using one_pin [OF assms(1)] unfolding assms(2) nth_append_length list_update_length .

lemma sweep_from:
  "at_pc w = Test (length l1) 0 \<Longrightarrow> GPIO (ctl w) = l1 @ l2 \<Longrightarrow> l2 \<noteq> [] \<Longrightarrow>
   length l1 + length l2 = NUMBER_OF_LED \<Longrightarrow>
   \<exists>m \<le> 5 * length l2. processes m w = w\<lparr>at_pc := Test 0 0,
      calls := calls w @ fst (process_from (int (length l1)) l2),
      ctl := (ctl w)\<lparr>GPIO := l1 @ snd (process_from (int (length l1)) l2)\<rparr>\<rparr>"
proof (induction l2 arbitrary: w l1)
  case Nil
  then show ?case by simp
next
  case (Cons s l2)
  let ?p = "process_pin (int (length l1)) s"
  let ?w = "w\<lparr>at_pc := next_pin (length l1), calls := calls w @ fst ?p,
     ctl := (ctl w)\<lparr>GPIO := l1 @ snd ?p # l2\<rparr>\<rparr>"
  obtain m where m: "m \<le> 5" "processes m w = ?w" using pin_at [OF Cons.prems(1,2)] by blast
  show ?case
  proof (cases "l2 = []")
    case True
    then have "next_pin (length l1) = Test 0 0" using Cons.prems(4) by (simp add: next_pin_def)
    then show ?thesis using m True by (intro exI [of _ m]) (simp add: split_beta)
  next
    case False
    then have "next_pin (length l1) = Test (length (l1 @ [snd ?p])) 0"
      using Cons.prems(4) by (cases l2) (simp_all add: next_pin_def)
    with Cons.IH [of ?w "l1 @ [snd ?p]"] False Cons.prems(4) obtain k where k: "k \<le> 5 * length l2"
      "processes k ?w = ?w\<lparr>at_pc := Test 0 0,
         calls := calls ?w @ fst (process_from (int (length l1) + 1) l2),
         ctl := (ctl ?w)\<lparr>GPIO := (l1 @ [snd ?p]) @ snd (process_from (int (length l1) + 1) l2)\<rparr>\<rparr>"
      by (auto simp: add.commute)
    then show ?thesis using m
      by (intro exI [of _ "m + k"]) (simp add: processes_add split_beta)
  qed
qed

text \<open>C32: Without messages the four pins are swept in at most twenty steps, which call the pin
  routines and change the table exactly as one run of the loop body over the whole table.\<close>

theorem sweep_refines:
  assumes "at_pc w = Test 0 0" and "length (GPIO (ctl w)) = 4"
  shows "\<exists>m \<le> 20. processes m w = w\<lparr>at_pc := Test 0 0,
       calls := calls w @ fst (Led_Controller_Processing (GPIO (ctl w))),
       ctl := (ctl w)\<lparr>GPIO := snd (Led_Controller_Processing (GPIO (ctl w)))\<rparr>\<rparr>"
  using sweep_from [of w "[]" "GPIO (ctl w)"] assms
  by (force simp: NUMBER_OF_LED_def Led_Controller_Processing_def)

definition demo_threads :: "led_pc \<Rightarrow> led_threads" where
  "demo_threads pc = \<lparr>ctl = demo_controller, at_pc = pc, calls = []\<rparr>"

lemma demo_threads_simps [simp]:
  "ctl (demo_threads pc) = demo_controller" "at_pc (demo_threads pc) = pc" "calls (demo_threads pc) = []"
  "length (GPIO demo_controller) = 4"
  by (simp_all add: demo_threads_def demo_controller_def)

theorem sweep_refines_witness:
  "\<exists>m \<le> 20. processes m (demo_threads (Test 0 0)) = (demo_threads (Test 0 0))\<lparr>at_pc := Test 0 0,
       calls := calls (demo_threads (Test 0 0)) @
         fst (Led_Controller_Processing (GPIO (ctl (demo_threads (Test 0 0))))),
       ctl := (ctl (demo_threads (Test 0 0)))\<lparr>GPIO :=
         snd (Led_Controller_Processing (GPIO (ctl (demo_threads (Test 0 0)))))\<rparr>\<rparr>"
  by (rule sweep_refines) simp_all


subsection \<open>Messages during the sweep\<close>

primrec call_pin :: "pin_call \<Rightarrow> int" where
  "call_pin (pin_ON n) = n"
| "call_pin (pin_OFF n) = n"

text \<open>A pin that is marked executed, with no store for it pending, is left alone.\<close>

definition pin_done :: "nat \<Rightarrow> led_threads \<Rightarrow> bool" where
  "pin_done i w \<longleftrightarrow> ls_state (GPIO (ctl w) ! i) = 5 \<and> (\<forall>k. at_pc w \<noteq> Store i k)"

lemma pin_done_step:
  assumes "pin_done i w"
  shows "pin_done i (processing_step w) \<and>
     filter (\<lambda>c. call_pin c = int i) (calls (processing_step w)) = filter (\<lambda>c. call_pin c = int i) (calls w)"
proof (cases "at_pc w")
  case (Test j k)
  have "branch_test k (GPIO (ctl w) ! j) \<Longrightarrow> j \<noteq> i"
    using assms by (auto simp: pin_done_def branch_test_def split: if_splits)
  then show ?thesis
    using assms Test by (auto simp: processing_step_def pin_done_def next_pin_def branch_call_def)
next
  case (Store j k)
  then have "j \<noteq> i" using assms by (auto simp: pin_done_def)
  then show ?thesis using assms Store by (simp add: processing_step_def pin_done_def next_pin_def)
qed

lemma pin_done_processes:
  "pin_done i w \<Longrightarrow> filter (\<lambda>c. call_pin c = int i) (calls (processes m w)) =
     filter (\<lambda>c. call_pin c = int i) (calls w)"
  by (induction m arbitrary: w) (auto dest: pin_done_step)


text \<open>What a message for a one-digit pin does to the table.\<close>

lemma one_digit_table:
  assumes "controller_ok c" and "is_digit p" and "unat p - 48 = i" and "i < 4"
  shows "\<exists>c'. Led_Controller [35, p, 126, v, 33] c = Returns c' \<and>
     GPIO c' = (GPIO c)[i := (GPIO c ! i)\<lparr>ls_state := gpio_value v\<rparr>]"
proof -
  obtain c1 where c1: "Led_Controller [35, p, 126, v, 33] c = update_structure (uint p - 48) (gpio_value v) c1"
    and g: "GPIO c1 = GPIO c"
    using one_digit_command [OF assms(1,2)] by blast
  have "uint p = int (unat p)" by simp
  then have "uint p - 48 = int i" using digit_uint [OF assms(2)] assms(3) by linarith
  with c1 g assms(1,4) show ?thesis
    by (simp add: update_structure_def controller_ok_def NUMBER_OF_LED_def)
qed

text \<open>A command can be lost between the two threads: when it arrives for a pin whose on or off
  branch has called the pin routine and not yet stored 5, that store overwrites it.  The table is
  then the one there would be without the command, and however long the sweep goes on, the pin's
  routines are not called again.\<close>

lemma command_lost:
  assumes "controller_ok (ctl w)" and "at_pc w = Store i k" and "k < 2" and "i < 4"
    and "is_digit p" and "unat p - 48 = i"
  shows "\<exists>c. Led_Controller [35, p, 126, v, 33] (ctl w) = Returns c \<and>
     GPIO (ctl (processing_step (w\<lparr>ctl := c\<rparr>))) = GPIO (ctl (processing_step w)) \<and>
     filter (\<lambda>a. call_pin a = int i) (calls (processes m (processing_step (w\<lparr>ctl := c\<rparr>)))) =
       filter (\<lambda>a. call_pin a = int i) (calls w)"
proof -
  obtain c where c: "Led_Controller [35, p, 126, v, 33] (ctl w) = Returns c"
    and g: "GPIO c = (GPIO (ctl w))[i := (GPIO (ctl w) ! i)\<lparr>ls_state := gpio_value v\<rparr>]"
    using one_digit_table [OF assms(1,5,6,4)] by blast
  have len: "i < length (GPIO (ctl w))" using assms(1,4) by (simp add: controller_ok_def NUMBER_OF_LED_def)
  have k: "k = 0 \<or> k = 1" using assms(3) by auto
  let ?w = "processing_step (w\<lparr>ctl := c\<rparr>)"
  have same: "GPIO (ctl ?w) = GPIO (ctl (processing_step w))"
    using assms(2) k len by (auto simp: processing_step_def branch_store_def g)
  have "pin_done i ?w"
    using assms(2) k len by (auto simp: processing_step_def branch_store_def g pin_done_def next_pin_def)
  moreover have "calls ?w = calls w" using assms(2) by (simp add: processing_step_def)
  ultimately show ?thesis using c same pin_done_processes [of i ?w m] by auto
qed

lemma command_lost_witness:
  "\<exists>c. Led_Controller [35, 50, 126, 48, 33] (ctl (demo_threads (Store 2 0))) = Returns c \<and>
     GPIO (ctl (processing_step (demo_threads (Store 2 0)\<lparr>ctl := c\<rparr>))) =
       GPIO (ctl (processing_step (demo_threads (Store 2 0)))) \<and>
     filter (\<lambda>a. call_pin a = int 2)
       (calls (processes 1000 (processing_step (demo_threads (Store 2 0)\<lparr>ctl := c\<rparr>)))) =
       filter (\<lambda>a. call_pin a = int 2) (calls (demo_threads (Store 2 0)))"
  by (rule command_lost [of _ _ 0]) (simp_all add: demo_controller_ok is_digit_def)

text \<open>A pin set to on or off is served within the round, wherever the sweep stands.\<close>

primrec wanted_call :: "bool \<Rightarrow> int \<Rightarrow> pin_call" where
  "wanted_call True n = pin_ON n"
| "wanted_call False n = pin_OFF n"

lemma pin_served:
  "at_pc w = Test j 0 \<Longrightarrow> (j + d) mod NUMBER_OF_LED = i \<Longrightarrow> d < NUMBER_OF_LED \<Longrightarrow> j < NUMBER_OF_LED \<Longrightarrow>
   ls_state (GPIO (ctl w) ! i) = (if on then 1 else 0) \<Longrightarrow>
   \<exists>m more. m \<le> 5 * Suc d \<and> calls (processes m w) = calls w @ more @ [wanted_call on (int i)]"
proof (induction d arbitrary: w j)
  case 0
  then have "j = i" by simp
  then have "fst (process_pin (int j) (GPIO (ctl w) ! j)) = [wanted_call on (int i)]"
    using 0(5) by (cases on) (simp_all add: process_pin_def)
  moreover obtain m where "m \<le> 5" "processes m w = w\<lparr>at_pc := next_pin j,
      calls := calls w @ fst (process_pin (int j) (GPIO (ctl w) ! j)),
      ctl := set_pin j (snd (process_pin (int j) (GPIO (ctl w) ! j))) (ctl w)\<rparr>"
    using one_pin [OF 0(1)] by blast
  ultimately show ?case by (intro exI [of _ m] exI [of _ "[]"]) simp
next
  case (Suc d)
  let ?j = "(j + 1) mod NUMBER_OF_LED"
  let ?w = "w\<lparr>at_pc := next_pin j, calls := calls w @ fst (process_pin (int j) (GPIO (ctl w) ! j)),
     ctl := set_pin j (snd (process_pin (int j) (GPIO (ctl w) ! j))) (ctl w)\<rparr>"
  have j: "(?j + d) mod NUMBER_OF_LED = i" using Suc.prems(2) by (simp add: mod_add_left_eq)
  have "i \<noteq> j" using Suc.prems(2,3,4) by (auto simp: mod_if split: if_splits)
  then have state: "ls_state (GPIO (ctl ?w) ! i) = (if on then 1 else 0)" using Suc.prems(5) by simp
  obtain m where m: "m \<le> 5" "processes m w = ?w" using one_pin [OF Suc.prems(1)] by blast
  have "at_pc ?w = Test ?j 0" by (simp add: next_pin_def)
  from Suc.IH [OF this j _ _ state] Suc.prems(3) obtain k more where k: "k \<le> 5 * Suc d"
    "calls (processes k ?w) = calls ?w @ more @ [wanted_call on (int i)]"
    by (auto simp: NUMBER_OF_LED_def)
  have "calls (processes (m + k) w) =
      calls w @ (fst (process_pin (int j) (GPIO (ctl w) ! j)) @ more) @ [wanted_call on (int i)]"
    using k(2) by (simp add: processes_add m(2))
  moreover have "m + k \<le> 5 * Suc (Suc d)" using m(1) k(1) by simp
  ultimately show ?case by blast
qed

lemma pin_distance: "i < NUMBER_OF_LED \<Longrightarrow> j < NUMBER_OF_LED \<Longrightarrow>
  \<exists>d. (j + d) mod NUMBER_OF_LED = i \<and> d < NUMBER_OF_LED"
  by (cases "j \<le> i") (intro exI [of _ "if j \<le> i then i - j else NUMBER_OF_LED + i - j"], simp)+

text \<open>Outside that window a command is carried out: an on or off command for pins 0 to 3 that arrives while
  the processing thread is at the start of a pin's chain leads, if no further message comes, within
  twenty steps to the call of the routine it asks for.\<close>

lemma command_executed:
  assumes "controller_ok (ctl w)" and "at_pc w = Test j 0" and "j < 4"
    and "is_digit p" and "unat p - 48 = i" and "i < 4" and "v \<in> {48, 49}"
  shows "\<exists>c m more. Led_Controller [35, p, 126, v, 33] (ctl w) = Returns c \<and> m \<le> 20 \<and>
     calls (processes m (w\<lparr>ctl := c\<rparr>)) = calls w @ more @ [wanted_call (v = 49) (int i)]"
proof -
  obtain c where c: "Led_Controller [35, p, 126, v, 33] (ctl w) = Returns c"
    and g: "GPIO c = (GPIO (ctl w))[i := (GPIO (ctl w) ! i)\<lparr>ls_state := gpio_value v\<rparr>]"
    using one_digit_table [OF assms(1,4,5,6)] by blast
  have state: "ls_state (GPIO (ctl (w\<lparr>ctl := c\<rparr>)) ! i) = (if v = 49 then 1 else 0)"
    using assms(1,6,7) by (auto simp: g controller_ok_def NUMBER_OF_LED_def gpio_value_def)
  have "at_pc (w\<lparr>ctl := c\<rparr>) = Test j 0" using assms(2) by simp
  moreover have n: "i < NUMBER_OF_LED" "j < NUMBER_OF_LED" using assms(3,6) by (simp_all add: NUMBER_OF_LED_def)
  moreover obtain d where d: "(j + d) mod NUMBER_OF_LED = i" "d < NUMBER_OF_LED"
    using pin_distance [OF n] by blast
  ultimately obtain m more where m: "m \<le> 5 * Suc d"
    "calls (processes m (w\<lparr>ctl := c\<rparr>)) = calls (w\<lparr>ctl := c\<rparr>) @ more @ [wanted_call (v = 49) (int i)]"
    using pin_served [OF _ d _ state] by blast
  have "m \<le> 20" using m(1) d(2) by (simp add: NUMBER_OF_LED_def)
  moreover have "calls (w\<lparr>ctl := c\<rparr>) = calls w" by simp
  ultimately show ?thesis using c m(2) by (intro exI [of _ c] exI [of _ m] exI [of _ more]) (simp only: conj_assoc simp_thms)
qed

lemma command_executed_witness:
  "\<exists>c m more. Led_Controller [35, 51, 126, 49, 33] (ctl (demo_threads (Test 2 0))) = Returns c \<and> m \<le> 20 \<and>
     calls (processes m (demo_threads (Test 2 0)\<lparr>ctl := c\<rparr>)) =
       calls (demo_threads (Test 2 0)) @ more @ [wanted_call ((49 :: u8) = 49) (int 3)]"
  by (rule command_executed [where j = 2]) (simp_all add: demo_controller_ok is_digit_def)

end
