(* ===== verification/Led_Commands.thy ===== *)
theory Led_Commands
  imports Led_Threads
begin

text \<open>
  A command on its whole way: from the manager's command line through the FIFO into the table of
  the controller, and from there, while the processing thread is anywhere in its sweep, to the
  call of a pin routine or to nothing.
\<close>

subsection \<open>A pin that waits to be served\<close>

text \<open>The pin is set to on or off and no store that would overwrite this is pending.\<close>

definition overwrites :: "nat \<Rightarrow> led_pc \<Rightarrow> bool" where
  "overwrites i pc \<longleftrightarrow> pc = Store i 0 \<or> pc = Store i 1"

definition awaits :: "bool \<Rightarrow> nat \<Rightarrow> led_threads \<Rightarrow> bool" where
  "awaits on i w \<longleftrightarrow>
     ls_state (GPIO (ctl w) ! i) = (if on then 1 else 0) \<and> length (GPIO (ctl w)) = NUMBER_OF_LED \<and>
     \<not> overwrites i (at_pc w) \<and> pc_ok (at_pc w) (GPIO (ctl w))"

text \<open>The steps left until the processing thread is at its next pin.\<close>

fun steps_left :: "led_pc \<Rightarrow> nat" where
  "steps_left (Test i k) = 5 - k"
| "steps_left (Store i k) = 1"

definition at_pin :: "led_threads \<Rightarrow> bool" where
  "at_pin w \<longleftrightarrow> (\<exists>j < NUMBER_OF_LED. at_pc w = Test j 0)"

lemma at_next_pin: "at_pc w = next_pin i \<Longrightarrow> at_pin w"
  by (auto simp: at_pin_def next_pin_def NUMBER_OF_LED_def)

lemma awaits_step:
  assumes w: "awaits on i w"
  shows "calls (processing_step w) = calls w @ [wanted_call on (int i)] \<or>
     awaits on i (processing_step w) \<and> (\<exists>more. calls (processing_step w) = calls w @ more) \<and>
     (at_pin (processing_step w) \<or> steps_left (at_pc (processing_step w)) < steps_left (at_pc w))"
proof (cases "at_pc w")
  case (Test j k)
  then have jk: "j < NUMBER_OF_LED" "k < 4" using w by (simp_all add: awaits_def)
  show ?thesis
  proof (cases "branch_test k (GPIO (ctl w) ! j)")
    case True
    let ?w = "w\<lparr>at_pc := Store j k, calls := calls w @ [branch_call k j]\<rparr>"
    have st: "processing_step w = ?w" using Test True by (simp add: processing_step_def)
    show ?thesis
    proof (cases "j = i")
      case True: True
      with \<open>branch_test k (GPIO (ctl w) ! j)\<close> w have "branch_call k j = wanted_call on (int i)"
        by (auto simp: awaits_def branch_test_def branch_call_def split: if_splits)
      with st show ?thesis by simp
    next
      case False
      have "pc_ok (Store j k) (GPIO (ctl w))"
        using \<open>branch_test k (GPIO (ctl w) ! j)\<close> jk by (auto simp: branch_test_def split: if_splits)
      with False w have "awaits on i ?w" by (simp add: awaits_def overwrites_def)
      moreover have "1 < 5 - k" using jk(2) by simp
      ultimately show ?thesis using st Test by simp
    qed
  next
    case False
    then have st: "processing_step w = w\<lparr>at_pc := (if k < 3 then Test j (Suc k) else next_pin j)\<rparr>"
      using Test by (simp add: processing_step_def)
    have "awaits on i (processing_step w)"
      using w jk by (auto simp: st awaits_def overwrites_def next_pin_def NUMBER_OF_LED_def)
    moreover have "at_pin (processing_step w) \<or> steps_left (at_pc (processing_step w)) < steps_left (at_pc w)"
      using at_next_pin [of "processing_step w" j] Test by (auto simp: st)
    ultimately show ?thesis by (simp add: st)
  qed
next
  case (Store j k)
  then have st: "processing_step w =
      w\<lparr>ctl := set_pin j (branch_store k (GPIO (ctl w) ! j)) (ctl w), at_pc := next_pin j\<rparr>"
    by (simp add: processing_step_def)
  have "j = i \<Longrightarrow> ls_state (branch_store k (GPIO (ctl w) ! j)) = ls_state (GPIO (ctl w) ! i)"
    using Store w by (auto simp: awaits_def overwrites_def branch_store_def)
  then have "awaits on i (processing_step w)"
    using w Store by (auto simp: st awaits_def overwrites_def next_pin_def NUMBER_OF_LED_def nth_list_update)
  moreover have "at_pin (processing_step w)" using at_next_pin [of "processing_step w" j] by (simp add: st)
  ultimately show ?thesis by (simp add: st)
qed

lemma awaits_to_pin:
  "awaits on i w \<Longrightarrow>
   \<exists>m more. m \<le> steps_left (at_pc w) \<and>
     (calls (processes m w) = calls w @ more @ [wanted_call on (int i)] \<or>
      awaits on i (processes m w) \<and> at_pin (processes m w) \<and> calls (processes m w) = calls w @ more)"
proof (induction "steps_left (at_pc w)" arbitrary: w rule: less_induct)
  case less
  let ?w = "processing_step w"
  have pos: "1 \<le> steps_left (at_pc w)"
    using less.prems by (cases "at_pc w") (auto simp: awaits_def)
  from awaits_step [OF less.prems] consider
    (called) "calls ?w = calls w @ [wanted_call on (int i)]"
  | (pin) more where "awaits on i ?w" "at_pin ?w" "calls ?w = calls w @ more"
  | (on) more where "awaits on i ?w" "calls ?w = calls w @ more" "steps_left (at_pc ?w) < steps_left (at_pc w)"
    by blast
  then show ?case
  proof cases
    case called
    with pos show ?thesis by (intro exI [of _ 1] exI [of _ "[]"]) simp
  next
    case (pin more)
    with pos show ?thesis by (intro exI [of _ 1] exI [of _ more]) simp
  next
    case (on more)
    from less.hyps [OF on(3,1)] obtain m more' where m: "m \<le> steps_left (at_pc ?w)"
      "calls (processes m ?w) = calls ?w @ more' @ [wanted_call on (int i)] \<or>
       awaits on i (processes m ?w) \<and> at_pin (processes m ?w) \<and> calls (processes m ?w) = calls ?w @ more'"
      by blast
    with on(2,3) show ?thesis by (intro exI [of _ "Suc m"] exI [of _ "more @ more'"]) auto
  qed
qed

text \<open>Whatever the processing thread is doing, the pin is served within 25 steps.\<close>

lemma awaits_served:
  assumes w: "awaits on i w" and i: "i < NUMBER_OF_LED"
  shows "\<exists>m more. m \<le> 25 \<and> calls (processes m w) = calls w @ more @ [wanted_call on (int i)]"
proof -
  have five: "steps_left (at_pc w) \<le> 5" by (cases "at_pc w") simp_all
  obtain m more where m: "m \<le> steps_left (at_pc w)"
    "calls (processes m w) = calls w @ more @ [wanted_call on (int i)] \<or>
     awaits on i (processes m w) \<and> at_pin (processes m w) \<and> calls (processes m w) = calls w @ more"
    using awaits_to_pin [OF w] by blast
  from m(2) show ?thesis
  proof (elim disjE conjE)
    assume "calls (processes m w) = calls w @ more @ [wanted_call on (int i)]"
    with m(1) five show ?thesis by (intro exI [of _ m] exI [of _ more]) simp
  next
    let ?w = "processes m w"
    assume a: "awaits on i ?w" "at_pin ?w" "calls ?w = calls w @ more"
    from a(2) obtain j where j: "j < NUMBER_OF_LED" "at_pc ?w = Test j 0" by (auto simp: at_pin_def)
    obtain d where d: "(j + d) mod NUMBER_OF_LED = i" "d < NUMBER_OF_LED" using pin_distance [OF i j(1)] by blast
    have "ls_state (GPIO (ctl ?w) ! i) = (if on then 1 else 0)" using a(1) by (simp add: awaits_def)
    from pin_served [OF j(2) d j(1) this] obtain n more' where
      n: "n \<le> 5 * Suc d" "calls (processes n ?w) = calls ?w @ more' @ [wanted_call on (int i)]" by blast
    have "m + n \<le> 25" using m(1) five n(1) d(2) by (simp add: NUMBER_OF_LED_def)
    with n(2) a(3) show ?thesis
      by (intro exI [of _ "m + n"] exI [of _ "more @ more'"]) (simp add: processes_add)
  qed
qed


subsection \<open>From the command line to the pin\<close>

text \<open>The message the manager writes for \<open>-o pin value\<close>, and what it does to the table.\<close>

lemma manager_writes:
  "v \<in> {48, 49, 50} \<Longrightarrow> led_manager [prog, [45, 111], [p], [v]] = Returns [Fifo_Write [35, p, 126, v, 33]]"
  by (auto simp: led_manager_def ascii sprintf_into_def)

definition lost :: "nat \<Rightarrow> pin_call list \<Rightarrow> led_threads \<Rightarrow> bool" where
  "lost i before w \<longleftrightarrow>
     (\<forall>m. filter (\<lambda>a. call_pin a = int i) (calls (processes m w)) = filter (\<lambda>a. call_pin a = int i) before)"

lemma overwritten_lost:
  assumes "controller_ok (ctl w)" and "overwrites i (at_pc w)" and "i < 4" and "is_digit p" and "unat p - 48 = i"
    and c: "Led_Controller [35, p, 126, v, 33] (ctl w) = Returns c"
  shows "lost i (calls w) (w\<lparr>ctl := c\<rparr>)"
  unfolding lost_def
proof
  fix m
  obtain k where k: "at_pc w = Store i k" "k < 2" using assms(2) by (auto simp: overwrites_def)
  show "filter (\<lambda>a. call_pin a = int i) (calls (processes m (w\<lparr>ctl := c\<rparr>))) = filter (\<lambda>a. call_pin a = int i) (calls w)"
  proof (cases m)
    case (Suc n)
    with command_lost [OF assms(1) k assms(3-5), of v n] c show ?thesis by auto
  qed simp
qed


lemma demo_threads_reached: "reaches led_init led_step (Led_Runs (demo_threads (Test 0 0)))"
  using demo_controller_ok
  by (intro reaches.start) (simp add: demo_threads_def demo_controller_def NUMBER_OF_LED_def)


end
