(* ===== verification/Gpio.thy ===== *)
theory Gpio
  imports C_Strings
begin

text \<open>
  The GPIO routines of \<open>Drivers/GPIOAccess.c\<close>: each formats a path or a shell command into
  local buffers of 50 bytes and makes file-system calls, which are recorded here in program
  order.  What the kernel answers is an argument: whether the pin is already exported, and what
  \<open>open\<close> and \<open>read\<close> return.  The return value of \<open>open\<close> is used unchecked, as in the code.
  The three file helpers of \<open>CentralModeThread.c\<close>, which no code calls, are here too.
\<close>

datatype gpio_call =
    Access "u8 list"
  | Shell "u8 list"
  | Open_RDWR "u8 list"
  | Read1 int
  | Write1 int u8
  | Close int
  | Sleep nat

definition GPIO_BUF :: nat where "GPIO_BUF = 50"

definition gpio_path :: "int \<Rightarrow> u8 list" where
  "gpio_path pin = bytes_of ''/sys/class/gpio/gpio'' @ decimal pin"

definition gpio_io_init :: "bool \<Rightarrow> int \<Rightarrow> u8 list \<Rightarrow> gpio_call list outcome" where
  "gpio_io_init exported pin direction =
     outcome_bind (sprintf_into 5 direction) (\<lambda>dir.
     outcome_bind (sprintf_into GPIO_BUF (bytes_of ''echo '' @ decimal pin @ bytes_of '' > /sys/class/gpio/export'')) (\<lambda>export_dir.
     outcome_bind (sprintf_into GPIO_BUF (gpio_path pin)) (\<lambda>fname.
     outcome_bind (sprintf_into GPIO_BUF (bytes_of ''echo '' @ dir @ bytes_of '' > '' @ gpio_path pin @ bytes_of ''/direction'')) (\<lambda>gpio_dir.
       Returns ([Access fname] @ (if \<not> exported then [Shell export_dir] else []) @ [Shell gpio_dir])))))"

definition gpio_value_path :: "int \<Rightarrow> u8 list" where
  "gpio_value_path pin = gpio_path pin @ bytes_of ''/value''"

text \<open>\<open>data\<close> is the byte \<open>read\<close> stored, or None when it stored nothing; then \<open>'0'\<close> is returned.\<close>

definition gpio_io_read :: "int \<Rightarrow> u8 option \<Rightarrow> int \<Rightarrow> (u8 \<times> gpio_call list) outcome" where
  "gpio_io_read fd data pin_no =
     outcome_bind (sprintf_into GPIO_BUF (gpio_value_path pin_no)) (\<lambda>Dev_path.
       Returns (case data of None \<Rightarrow> 48 | Some b \<Rightarrow> b, [Open_RDWR Dev_path, Read1 fd, Close fd]))"

definition gpio_io_write :: "int \<Rightarrow> int \<Rightarrow> u8 \<Rightarrow> gpio_call list outcome" where
  "gpio_io_write fd pin_no val =
     outcome_bind (sprintf_into GPIO_BUF (gpio_value_path pin_no)) (\<lambda>Dev_path.
       Returns [Open_RDWR Dev_path, Write1 fd val, Close fd])"

definition BLE_HW_Reset :: "int \<Rightarrow> int \<Rightarrow> int \<Rightarrow> gpio_call list outcome" where
  "BLE_HW_Reset fd1 fd2 gpio =
     outcome_bind (gpio_io_write fd1 gpio 48) (\<lambda>low.
     outcome_bind (gpio_io_write fd2 gpio 49) (\<lambda>high.
       Returns (low @ [Sleep 2] @ high @ [Sleep 1])))"

definition BLE_HW_Reset_Init :: "bool \<Rightarrow> int \<Rightarrow> int \<Rightarrow> int \<Rightarrow> gpio_call list outcome" where
  "BLE_HW_Reset_Init exported fd1 fd2 gpio =
     outcome_bind (gpio_io_init exported gpio (bytes_of ''out'')) (\<lambda>init.
     outcome_bind (BLE_HW_Reset fd1 fd2 gpio) (\<lambda>reset. Returns (init @ reset)))"


subsection \<open>The helpers of the central thread\<close>

definition GPIOFILENAME :: string where "GPIOFILENAME = ''/sys/class/gpio/gpio121/value''"

text \<open>\<open>fd\<close> is what \<open>open\<close> returned.\<close>

definition open_gpio :: "int \<Rightarrow> int \<times> gpio_call list" where
  "open_gpio fd = (if fd < 0 then 0 else fd, [Open_RDWR (bytes_of GPIOFILENAME)])"

definition close_gpio :: "int \<Rightarrow> cval \<times> gpio_call list" where
  "close_gpio fd = (No_Value, [Close fd])"

text \<open>A failed \<open>open\<close> is reported as descriptor 0: closing it closes standard input.\<close>

lemma failed_gpio_closes_stdin:
  "fd < 0 \<Longrightarrow> snd (close_gpio (fst (open_gpio fd))) = [Close 0]"
  by (simp add: open_gpio_def close_gpio_def)

text \<open>\<open>BLE_MAC_GET\<close>: \<open>found\<close> is the content of the file, if it can be opened; the result is the new
  \<open>MY_MAC\<close> and the text printed.\<close>

definition BLE_MAC_GET :: "u8 list option \<Rightarrow> u8 list \<Rightarrow> (u8 list \<times> u8 list) outcome" where
  "BLE_MAC_GET found MY_MAC =
     (case found of
        None \<Rightarrow> Fault Null_Pointer
      | Some content \<Rightarrow>
          outcome_bind (copy_into MY_MAC (take 17 content)) (\<lambda>MY_MAC.
          outcome_bind (c_string MY_MAC) (\<lambda>text. Returns (MY_MAC, text))))"

text \<open>The 20 bytes of \<open>MY_MAC\<close>, zero at first, always end with a NUL: at most 17 are ever read.\<close>

definition mac_ok :: "u8 list \<Rightarrow> bool" where
  "mac_ok m \<longleftrightarrow> length m = 20 \<and> drop 17 m = [0, 0, 0]"

lemma c_string_zeros: "\<exists>t. c_string (xs @ 0 # ys) = Returns t \<and> length t \<le> length xs"
  by (induction xs) (auto simp: c_string_def)

lemma BLE_MAC_GET_keeps:
  assumes "mac_ok m"
  shows "case BLE_MAC_GET found m of
     Returns (m', text) \<Rightarrow> mac_ok m' \<and> length text \<le> 17
   | Blocks \<Rightarrow> False
   | Fault e \<Rightarrow> e = Null_Pointer \<and> found = None"
proof (cases found)
  case (Some content)
  let ?n = "length (take 17 content)"
  let ?m = "take 17 content @ drop ?n m"
  have n: "?n \<le> 17" by simp
  then have "drop 17 ?m = drop 17 m" by (simp add: drop_append)
  then have d: "drop 17 ?m = [0, 0, 0]" using assms by (simp add: mac_ok_def)
  have m: "?m = take 17 ?m @ [0, 0, 0]" by (metis append_take_drop_id d)
  have "\<exists>t. c_string ?m = Returns t \<and> length t \<le> 17"
    by (subst m) (use c_string_zeros [of "take 17 ?m" "[0, 0]"] in \<open>auto intro: order_trans\<close>)
  moreover have "length ?m = 20" using assms n by (simp add: mac_ok_def)
  ultimately show ?thesis using assms d n Some by (auto simp: BLE_MAC_GET_def mac_ok_def)
qed (simp add: BLE_MAC_GET_def)


subsection \<open>Properties\<close>

lemma decimal_nat_pos: "0 < length (decimal_nat n)"
  by (subst decimal_nat.simps) simp

text \<open>Initialising a pin stays inside its buffers exactly when the direction has at most 4
  characters and the two formatted commands fit: with the directions of the header, \<open>in\<close> and
  \<open>out\<close>, that is for every pin of up to 8 characters.\<close>

lemma gpio_init_safe_iff:
  "(\<exists>calls. gpio_io_init exported pin dir = Returns calls) \<longleftrightarrow>
     length dir \<le> 4 \<and> length dir + length (decimal pin) \<le> 11"
  by (auto simp: gpio_io_init_def sprintf_into_def GPIO_BUF_def gpio_path_def)

text \<open>A hardware reset of one of the header's pins drives the pin low, waits 2 seconds, drives it
  high and waits 1 second, on the \<open>value\<close> file of that pin, and nothing else.\<close>

lemma hw_reset_pulse:
  assumes "gpio \<in> {40, 125}"
  shows "BLE_HW_Reset fd1 fd2 gpio =
     Returns [Open_RDWR (gpio_value_path gpio), Write1 fd1 48, Close fd1, Sleep 2,
              Open_RDWR (gpio_value_path gpio), Write1 fd2 49, Close fd2, Sleep 1]"
proof -
  have "length (decimal gpio) \<le> 11" using assms by (intro decimal_length) auto
  then show ?thesis
    by (simp add: BLE_HW_Reset_def gpio_io_write_def sprintf_into_def GPIO_BUF_def gpio_value_path_def gpio_path_def)
qed

lemma hw_reset_pulse_witness:
  "BLE_HW_Reset 3 4 125 =
     Returns [Open_RDWR (gpio_value_path 125), Write1 3 48, Close 3, Sleep 2,
              Open_RDWR (gpio_value_path 125), Write1 4 49, Close 4, Sleep 1]"
  by (rule hw_reset_pulse) simp

end
