(* ===== verification/Mosq_Lines.thy ===== *)
theory Mosq_Lines
  imports Mosq_Pub
begin

text \<open>
  How a client started with \<open>-l\<close> comes to its end: the loop of \<open>main\<close> and the acknowledgements of
  the library in any order, and exactly when the client disconnects.
\<close>

subsection \<open>Iterations and acknowledgements\<close>

text \<open>What happens while the connection lasts: an iteration of the loop of \<open>main\<close>, or the callback for
  the acknowledgement of a message.\<close>

datatype pub_event = Main | Ack int

primrec pub_events :: "(nat \<Rightarrow> int \<times> int option) \<Rightarrow> pub_event list \<Rightarrow> pub \<Rightarrow> pub outcome" where
  "pub_events lib [] p = Returns p"
| "pub_events lib (e # es) p =
     (case e of
        Main \<Rightarrow> outcome_bind (pub_iteration lib p) (pub_events lib es)
      | Ack mid \<Rightarrow> pub_events lib es (my_publish_callback mid p))"

definition mains :: "pub_event list \<Rightarrow> nat" where
  "mains es = length (filter (\<lambda>e. e = Main) es)"

lemma mains_simps [simp]: "mains [] = 0" "mains (Main # es) = Suc (mains es)" "mains (Ack m # es) = mains es"
  by (simp_all add: mains_def)

text \<open>Message ids are positive.\<close>

definition acks_ok :: "pub_event list \<Rightarrow> bool" where
  "acks_ok es \<longleftrightarrow> (\<forall>m. Ack m \<in> set es \<longrightarrow> 0 < m)"

lemma acks_ok_Cons: "acks_ok (e # es) \<Longrightarrow> acks_ok es"
  by (simp add: acks_ok_def)

primrec latest_ack :: "int \<Rightarrow> pub_event list \<Rightarrow> int" where
  "latest_ack m [] = m"
| "latest_ack m (e # es) = latest_ack (case e of Main \<Rightarrow> m | Ack mid \<Rightarrow> mid) es"

text \<open>The id of the last message once \<open>n\<close> more have been published.\<close>

definition last_id :: "(nat \<Rightarrow> int \<times> int option) \<Rightarrow> pub \<Rightarrow> nat \<Rightarrow> int" where
  "last_id lib p n = (if n = 0 then pb_mid_sent p else the (snd (lib (length (pb_calls p) + n - 1))))"

lemma pub_events_append:
  "pub_events lib (es @ es') p = outcome_bind (pub_events lib es p) (pub_events lib es')"
proof (induction es arbitrary: p)
  case (Cons e es)
  show ?case
  proof (cases e)
    case Main
    with Cons show ?thesis by (cases "pub_iteration lib p") simp_all
  qed (simp add: Cons)
qed simp


subsection \<open>Until the end of the input\<close>

definition reading :: "string \<Rightarrow> pub \<Rightarrow> bool" where
  "reading input p \<longleftrightarrow>
     line_ready p \<and> pb_status p = STATUS_CONNACK_RECVD \<and> pb_last_mid p = -1 \<and> \<not> pb_disconnect_sent p \<and>
     Disconnect \<notin> set (pb_calls p) \<and> published (pb_calls p) @ stdin_lines (pb_input p) = stdin_lines input"

lemma reading_ack:
  assumes "reading input p" "0 < m"
  shows "reading input (my_publish_callback m p)" "pb_last_mid_sent (my_publish_callback m p) = m"
    "pb_input (my_publish_callback m p) = pb_input p" "last_id lib (my_publish_callback m p) n = last_id lib p n"
  using assms by (simp_all add: reading_def line_ready_def my_publish_callback_def last_id_def)

lemma reading_main:
  assumes p: "reading input p" and lib: "lib_accepts lib" and n: "stdin_lines (pb_input p) \<noteq> []"
  shows "\<exists>q. pub_iteration lib p = Returns q \<and> reading input q \<and> pb_last_mid_sent q = pb_last_mid_sent p \<and>
     length (stdin_lines (pb_input p)) = Suc (length (stdin_lines (pb_input q))) \<and> (\<forall>n. last_id lib q n = last_id lib p (Suc n))"
proof (cases "pb_input p" rule: stdin_cases)
  case tail
  with n show ?thesis by (simp add: stdin_lines_none)
next
  case (line l r)
  have ready: "line_ready p" "pb_status p = STATUS_CONNACK_RECVD" using p by (simp_all add: reading_def)
  obtain bl m where it: "pb_buf_len p \<le> bl" "lib (length (pb_calls p)) = (0, Some m)" "pub_iteration lib p =
      Returns (p\<lparr>pb_buf := l, pb_buf_len := bl, pb_input := r,
        pb_calls := pb_calls p @ [Publish (pb_topic p) l (pb_qos p) (pb_retain p)],
        pb_mid_sent := m, pb_mids := pb_mids p @ [m]\<rparr>)" (is "_ = Returns ?q")
    using line_iteration_next [OF ready lib line] by blast
  have lines: "stdin_lines (pb_input p) = l # stdin_lines r" using line by (simp add: stdin_lines_Cons)
  have "reading input ?q"
    using p it(1) lines line by (auto simp: reading_def line_ready_def short_lines_Cons)
  moreover have "last_id lib ?q n = last_id lib p (Suc n)" for n using it(2) by (simp add: last_id_def)
  ultimately show ?thesis using it(3) lines by simp
qed

lemma reading_events:
  assumes lib: "lib_accepts lib"
  shows "reading input p \<Longrightarrow> acks_ok es \<Longrightarrow> mains es = length (stdin_lines (pb_input p)) \<Longrightarrow>
    \<exists>q. pub_events lib es p = Returns q \<and> reading input q \<and> stdin_lines (pb_input q) = [] \<and>
      pb_last_mid_sent q = latest_ack (pb_last_mid_sent p) es \<and> pb_mid_sent q = last_id lib p (mains es)"
proof (induction es arbitrary: p)
  case (Cons e es)
  show ?case
  proof (cases e)
    case Main
    with Cons.prems(3) have "stdin_lines (pb_input p) \<noteq> []" by auto
    from reading_main [OF Cons.prems(1) lib this] obtain q where q: "pub_iteration lib p = Returns q" "reading input q"
      "pb_last_mid_sent q = pb_last_mid_sent p" "length (stdin_lines (pb_input p)) = Suc (length (stdin_lines (pb_input q)))"
      "\<forall>n. last_id lib q n = last_id lib p (Suc n)" by blast
    have "mains es = length (stdin_lines (pb_input q))" using Cons.prems(3) q(4) Main by simp
    from Cons.IH [OF q(2) acks_ok_Cons [OF Cons.prems(2)] this] q(1,3,5) Main show ?thesis by simp
  next
    case (Ack m)
    have "0 < m" using Cons.prems(2) Ack by (simp add: acks_ok_def)
    note ack = reading_ack [OF Cons.prems(1) this]
    have "mains es = length (stdin_lines (pb_input (my_publish_callback m p)))" using Cons.prems(3) Ack ack(3) by simp
    from Cons.IH [OF ack(1) acks_ok_Cons [OF Cons.prems(2)] this] show ?thesis using Ack ack(2,4) by simp
  qed
qed (simp add: last_id_def)


subsection \<open>After the end of the input\<close>

definition awaiting :: "int \<Rightarrow> pub \<Rightarrow> bool" where
  "awaiting m p \<longleftrightarrow> pb_mode p = MSGMODE_STDIN_LINE \<and> pb_status p = STATUS_WAITING \<and> pb_last_mid p = m \<and>
     (pb_disconnect_sent p \<longleftrightarrow> Disconnect \<in> set (pb_calls p))"

lemma reading_end:
  assumes p: "reading input p" and n: "stdin_lines (pb_input p) = []"
  shows "\<exists>q. pub_iteration lib p = Returns q \<and> awaiting (pb_mid_sent p) q \<and> pb_last_mid_sent q = pb_last_mid_sent p \<and>
     Disconnect \<notin> set (pb_calls q) \<and> published (pb_calls q) = stdin_lines input"
proof -
  have tail: "CHR 0x0A \<notin> set (pb_input p)" using n by (subst (asm) stdin_lines.simps) (simp split: if_splits)
  have ready: "line_ready p" "pb_status p = STATUS_CONNACK_RECVD" using p by (simp_all add: reading_def)
  from line_iteration_last [OF ready tail, of lib] p n show ?thesis
    by (auto simp: awaiting_def reading_def line_ready_def)
qed

lemma awaiting_events:
  "awaiting m p \<Longrightarrow>
   \<exists>q. pub_events lib es p = Returns q \<and> published (pb_calls q) = published (pb_calls p) \<and>
     (Disconnect \<in> set (pb_calls q) \<longleftrightarrow>
      Disconnect \<in> set (pb_calls p) \<or> Ack m \<in> set es \<or> (pb_last_mid_sent p = m \<and> (\<exists>es'. es = Main # es')))"
proof (induction es arbitrary: p)
  case (Cons e es)
  show ?case
  proof (cases e)
    case Main
    let ?q = "if pb_last_mid_sent p = m \<and> \<not> pb_disconnect_sent p then (disconnect p)\<lparr>pb_disconnect_sent := True\<rparr> else p"
    have it: "pub_iteration lib p = Returns ?q" and aw: "awaiting m ?q"
      using Cons.prems by (simp_all add: pub_iteration_def awaiting_def disconnect_def)
    obtain q where q: "pub_events lib es ?q = Returns q" "published (pb_calls q) = published (pb_calls ?q)"
      "Disconnect \<in> set (pb_calls q) \<longleftrightarrow> Disconnect \<in> set (pb_calls ?q) \<or> Ack m \<in> set es \<or>
         (pb_last_mid_sent ?q = m \<and> (\<exists>es'. es = Main # es'))"
      using Cons.IH [OF aw] by blast
    have "published (pb_calls ?q) = published (pb_calls p)" by (simp add: disconnect_def)
    moreover have "Disconnect \<in> set (pb_calls ?q) \<longleftrightarrow> Disconnect \<in> set (pb_calls p) \<or> pb_last_mid_sent p = m"
      using Cons.prems by (auto simp: disconnect_def awaiting_def)
    moreover have "pb_last_mid_sent ?q = pb_last_mid_sent p" by (simp add: disconnect_def)
    ultimately show ?thesis using q it Main by auto
  next
    case (Ack k)
    let ?q = "my_publish_callback k p"
    have aw: "awaiting m ?q" using Cons.prems by (simp add: awaiting_def my_publish_callback_def disconnect_def Let_def)
    have "published (pb_calls ?q) = published (pb_calls p)" "pb_last_mid_sent ?q = k"
      "Disconnect \<in> set (pb_calls ?q) \<longleftrightarrow> Disconnect \<in> set (pb_calls p) \<or> k = m"
      using Cons.prems by (auto simp: my_publish_callback_def disconnect_def awaiting_def Let_def)
    with Cons.IH [OF aw] Ack show ?thesis by auto
  qed
qed simp


subsection \<open>When the client disconnects\<close>

text \<open>C21: How a client started with \<open>-l\<close> comes to its end, for lines that fit the initial buffer, a library
  that accepts every message, and a connection that lasts: from any reachable state in which the
  client is reading (connected, end of input not met, not disconnecting), whatever
  acknowledgements come between the iterations of \<open>main\<close> and in whatever order, it has
  published all lines of standard input, and not disconnected, after one iteration for each
  remaining line and one more.  From then on, again for any sequence of iterations and
  acknowledgements, it disconnects exactly if the acknowledgement of the last message comes then,
  or the latest acknowledgement so far was that one and no other comes before the next
  iteration.  So when the last message is acknowledged before the end of the input is met and
  any other message after it, the client never disconnects.\<close>

theorem line_client_finishes:
  assumes "reaches (line_start input) (pub_step lib) (Pub_Running p)" "short_lines input" "lib_accepts lib"
    and "pb_status p = STATUS_CONNACK_RECVD" and "pb_last_mid p = -1" and "Disconnect \<notin> set (pb_calls p)"
    and "acks_ok es1" and "mains es1 = length (stdin_lines (pb_input p))"
  shows "\<exists>q r. pub_events lib (es1 @ [Main]) p = Returns q \<and> published (pb_calls q) = stdin_lines input \<and>
    Disconnect \<notin> set (pb_calls q) \<and>
    pub_events lib (es1 @ [Main] @ es2) p = Returns r \<and> published (pb_calls r) = stdin_lines input \<and>
    (Disconnect \<in> set (pb_calls r) \<longleftrightarrow>
     Ack (last_id lib p (mains es1)) \<in> set es2 \<or>
     (latest_ack (pb_last_mid_sent p) es1 = last_id lib p (mains es1) \<and> (\<exists>es'. es2 = Main # es')))"
proof -
  have inv: "line_inv input p"
    using line_run.reaches_inv [OF assms(1)] assms(2,3) by (auto simp: line_run_ok_def)
  then have "reading input p"
    using assms(4-6) line_inv_ready [OF inv] by (auto simp: reading_def line_inv_def)
  from reading_events [OF assms(3) this assms(7,8)] obtain u where u: "pub_events lib es1 p = Returns u" "reading input u"
    "stdin_lines (pb_input u) = []" "pb_last_mid_sent u = latest_ack (pb_last_mid_sent p) es1" "pb_mid_sent u = last_id lib p (mains es1)" by blast
  from reading_end [OF u(2,3), of lib] obtain q where q: "pub_iteration lib u = Returns q" "awaiting (pb_mid_sent u) q"
    "pb_last_mid_sent q = pb_last_mid_sent u" "Disconnect \<notin> set (pb_calls q)" "published (pb_calls q) = stdin_lines input"
    by blast
  from awaiting_events [OF q(2), of lib es2] obtain r where r: "pub_events lib es2 q = Returns r"
    "published (pb_calls r) = published (pb_calls q)" "Disconnect \<in> set (pb_calls r) \<longleftrightarrow>
      Disconnect \<in> set (pb_calls q) \<or> Ack (pb_mid_sent u) \<in> set es2 \<or>
      (pb_last_mid_sent q = pb_mid_sent u \<and> (\<exists>es'. es2 = Main # es'))" by blast
  show ?thesis
    by (intro exI [of _ q] exI [of _ r]) (use u q r in \<open>auto simp: pub_events_append\<close>)
qed

text \<open>Two lines, acknowledged in the reverse order before the end of the input is met: however often
  \<open>main\<close> goes round after that, the client does not disconnect.\<close>

definition two_lines :: string where
  "two_lines = ''on'' @ [CHR 0x0A] @ ''off'' @ [CHR 0x0A]"

definition two_pub :: pub where
  "two_pub = (pub_globals two_lines)\<lparr>pb_topic := Some ''led'', pb_mode := MSGMODE_STDIN_LINE\<rparr>"

lemma two_lines_lines: "stdin_lines two_lines = [''on'', ''off'']" "short_lines two_lines"
proof -
  have l: "two_lines = ''on'' @ CHR 0x0A # ''off'' @ CHR 0x0A # []" by (simp add: two_lines_def)
  show "stdin_lines two_lines = [''on'', ''off'']"
    unfolding l by (subst stdin_lines_Cons, simp, subst stdin_lines_Cons, simp, simp add: stdin_lines_none)
  show "short_lines two_lines"
    unfolding l by (subst short_lines_Cons, simp, subst short_lines_Cons) (simp_all add: short_lines_def stdin_lines_none)
qed

lemma two_run: "reaches (line_start two_lines) (pub_step demo_lib) (Pub_Running (my_connect_callback demo_lib 0 two_pub))"
proof -
  have "two_pub = (pub_globals two_lines)\<lparr>pb_topic := Some ''led'', pb_qos := 0, pb_retain := False,
      pb_mode := MSGMODE_STDIN_LINE\<rparr>"
    by (simp add: two_pub_def pub_globals_def)
  then have "line_start two_lines (Pub_Running two_pub)" unfolding line_start_def by blast
  then show ?thesis by (blast intro: reaches.intros pub_connected)
qed

theorem line_client_finishes_witness:
  "\<forall>k. \<exists>r. pub_events demo_lib ([Main, Main, Ack 2, Ack 1] @ [Main] @ replicate k Main)
      (my_connect_callback demo_lib 0 two_pub) = Returns r \<and>
    published (pb_calls r) = [''on'', ''off''] \<and> Disconnect \<notin> set (pb_calls r)"
proof
  fix k :: nat
  let ?p = "my_connect_callback demo_lib 0 two_pub" and ?es = "[Main, Main, Ack 2, Ack 1]"
  have p: "pb_status ?p = STATUS_CONNACK_RECVD" "pb_last_mid ?p = -1" "Disconnect \<notin> set (pb_calls ?p)"
    "acks_ok ?es" "mains ?es = length (stdin_lines (pb_input ?p))" "pb_calls ?p = []"
    by (simp_all add: my_connect_callback_def two_pub_def pub_globals_def acks_ok_def two_lines_lines)
  have id: "last_id demo_lib ?p (mains ?es) = 2" "latest_ack (pb_last_mid_sent ?p) ?es = 1"
    using p(6) by (simp_all add: last_id_def demo_lib_def)
  have none: "Ack 2 \<notin> set (replicate k Main)" by simp
  from line_client_finishes [OF two_run two_lines_lines(2) demo_line_run(3) p(1-5), of "replicate k Main"]
  show "\<exists>r. pub_events demo_lib (?es @ [Main] @ replicate k Main) ?p = Returns r \<and>
      published (pb_calls r) = [''on'', ''off''] \<and> Disconnect \<notin> set (pb_calls r)"
    unfolding id two_lines_lines(1) using none by (elim exE conjE) (rule exI, auto)
qed

end
