(* ===== verification/Mosq_Delivery.thy ===== *)
theory Mosq_Delivery
  imports Mosq_Main
begin

text \<open>
  Both MQTT clients together: what the publisher sends for its command line, and what becomes of
  it in the subscriber's queue.  The broker and the two libraries between them are not in the
  repository; that they hand over a message as it was published is a hypothesis on the message the
  subscriber's callback gets, and no more than its documentation is assumed of the object the
  payload is in.
\<close>

text \<open>A delivered message: the topic, the length, and a pointer to the bytes of the payload.  That is
  what libmosquitto documents; what is behind them in the same object is not said, and stands
  for any bytes here, possibly none.\<close>

definition delivered :: "string \<Rightarrow> string \<Rightarrow> u8 list \<Rightarrow> mqtt_message \<Rightarrow> bool" where
  "delivered t payload slack m \<longleftrightarrow>
     mm_topic m = t \<and> mm_payload m = bytes_of payload @ slack \<and> mm_payloadlen m = length payload"

lemma delivered_ok:
  "delivered t payload slack m \<Longrightarrow> payload \<noteq> [] \<Longrightarrow> 0 \<in> set (bytes_of payload @ slack) \<Longrightarrow> payload_ok m"
  by (simp add: delivered_def payload_ok_def bytes_of_def)

text \<open>Without a NUL in the object \<open>printf\<close> reads past its end.\<close>

lemma no_nul_faults:
  assumes "sb_process_messages s" "wanted matches (sb_cfg s) m" "mm_payloadlen m \<noteq> 0" "\<not> cf_verbose (sb_cfg s)"
    and "0 \<notin> set (mm_payload m)"
  shows "my_message_callback matches m s = Fault (Index_Range (length (mm_payload m)) (int (length (mm_payload m))))"
  using assms by (simp add: callback_wanted print_message_def c_string_def)

text \<open>How the loop of the subscriber starts.\<close>

lemma sub_main_loop:
  assumes "sub_main e k argv = Returns (calls, Main_Loop s)"
  shows "\<exists>cfg. load_config e CLIENT_SUB argv = Returns (cfg, 0) \<and>
     s = sub_start k (client_id_generate cfg ''mosqsub'' (env_pid e) (env_hostname e))"
proof -
  obtain cfg rc where l: "load_config e CLIENT_SUB argv = Returns (cfg, rc)"
    using assms by (auto simp: sub_main_def outcome_bind_eq_Returns)
  have "rc = 0"
    using assms l by (intro ccontr [of "rc = 0"]) (simp add: sub_main_def bad_options_ends [OF l])
  with assms l show ?thesis
    by (auto simp: sub_main_def Let_def split_beta split: if_splits)
qed

lemma sub_main_processes:
  assumes "sub_main e k argv = Returns (calls, Main_Loop s)"
  shows "sb_process_messages s"
  using sub_main_loop [OF assms] by (auto simp: sub_start_def split_beta)

text \<open>What the publisher calls when its connection is accepted.\<close>

lemma pub_main_publishes:
  assumes "pub_main e argv = Some (Returns (calls, Main_Loop p))" and "fst (plib 0) = 0"
    and "Publish t payload q r \<in> set (pb_calls (my_connect_callback plib 0 p))"
  shows "\<exists>cfg. load_config e CLIENT_PUB argv = Returns (cfg, 0) \<and>
     payload = wanted_payload cfg (Option.bind (cf_file_input cfg) (env_files e)) (env_stdin e)"
proof -
  obtain cfg where l: "load_config e CLIENT_PUB argv = Returns (cfg, 0)"
    and c: "client_config_load (env_checks e) CLIENT_PUB
      (Option.bind (default_conf CLIENT_PUB (env_xdg e) (env_home e)) (env_conf e)) argv = Returns (cfg, 0)"
    and s: "pub_setup cfg (Option.bind (cf_file_input cfg) (env_files e)) (pub_globals (env_stdin e)) = Some (0, p)"
    using pub_main_loop [OF assms(1)] by blast
  from options_to_publish [where plib = plib, OF c s assms(2)] assms(3) l show ?thesis by (auto split: if_splits)
qed

text \<open>C25: From one command line to the other program's queue: when both clients are in their loops,
  the publisher's connection has been accepted, and the message it then published is delivered to
  the subscriber (which runs without \<open>-v\<close>, does not filter the message out and whose queue has
  room), the message is what the publisher's options ask for.  What the subscriber does with it
  rests on the bytes behind the payload, which libmosquitto does not document (\<open>slack\<close>): without a
  NUL in the payload and in them \<open>printf\<close> reads past the object; when both together are shorter
  than ten bytes, the copy into the queue does; otherwise the queue gets ten bytes, the
  first ten of the payload, filled up from what is behind it.\<close>

theorem message_delivered:
  assumes "pub_main e argv = Some (Returns (calls, Main_Loop p))" and "fst (plib 0) = 0"
    and "Publish (Some t) payload q r \<in> set (pb_calls (my_connect_callback plib 0 p))"
    and "sub_main e' k argv' = Returns (calls', Main_Loop s)"
    and "delivered t payload slack m" and "payload \<noteq> []"
    and "wanted matches (sb_cfg s) m" and "\<not> cf_verbose (sb_cfg s)"
    and "contents (sb_kernel s) (sb_queue_id s) = Some ms"
    and "room CLIENT_MTEXT_SIZE (sb_kernel s) (sb_queue_id s) 1"
  shows "\<exists>cfg n. load_config e CLIENT_PUB argv = Returns (cfg, 0) \<and> n = length payload + length slack \<and>
     payload = wanted_payload cfg (Option.bind (cf_file_input cfg) (env_files e)) (env_stdin e) \<and>
     (if 0 \<notin> set (bytes_of payload) \<and> 0 \<notin> set slack
      then my_message_callback matches m s = Fault (Index_Range n (int n))
      else if n < 10 then my_message_callback matches m s = Fault (Index_Range n 10)
      else \<exists>s'. my_message_callback matches m s = Returns s' \<and>
        contents (sb_kernel s') = (contents (sb_kernel s))(sb_queue_id s \<mapsto>
          ms @ [take 10 (bytes_of payload) @ take (10 - length payload) slack]))"
proof -
  obtain cfg where c: "load_config e CLIENT_PUB argv = Returns (cfg, 0)"
    "payload = wanted_payload cfg (Option.bind (cf_file_input cfg) (env_files e)) (env_stdin e)"
    using pub_main_publishes [OF assms(1-3)] by blast
  have m: "mm_payload m = bytes_of payload @ slack" "mm_payloadlen m \<noteq> 0" "length (bytes_of payload) = length payload"
    using assms(5,6) by (simp_all add: delivered_def bytes_of_def)
  note go = sub_main_processes [OF assms(4)] assms(7)
  show ?thesis
  proof (cases "0 \<in> set (bytes_of payload @ slack)")
    case True
    from payload_cut_to_ten [OF go delivered_ok [OF assms(5,6) True] assms(8-10)] c m True show ?thesis
      by (intro exI [of _ cfg]) (auto split: if_splits)
  next
    case False
    with no_nul_faults [OF go m(2) assms(8)] c m show ?thesis by (intro exI [of _ cfg]) simp
  qed
qed


subsection \<open>A concrete delivery\<close>

definition demo_text :: string where
  "demo_text = ''level two, lane 3''"

lemma demo_options:
  "option_step demo_checks who c ''-t'' (Some a) =
     (if who = CLIENT_PUB then Took (c\<lparr>cf_topic := Some a\<rparr>) else Took (c\<lparr>cf_topics := cf_topics c @ [a]\<rparr>))"
  "option_step demo_checks CLIENT_PUB c ''-m'' (Some a) =
     (if cf_pub_mode c \<noteq> MSGMODE_NONE then Stop c 1
      else Took (c\<lparr>cf_message := Some a, cf_msglen := int (length a), cf_pub_mode := MSGMODE_CMD\<rparr>))"
  by (simp_all add: demo_checks_def option_step_def opt_identity_def opt_message_def opt_quality_def with_arg_def)

definition text_cfg :: mosq_config where
  "text_cfg = init_config\<lparr>cf_topic := Some ''led'', cf_message := Some demo_text, cf_msglen := int (length demo_text),
     cf_pub_mode := MSGMODE_CMD, cf_host := Some (Literal ''localhost'')\<rparr>"

definition listen_cfg :: mosq_config where
  "listen_cfg = init_config\<lparr>cf_topics := [''led''], cf_host := Some (Literal ''localhost'')\<rparr>"

lemma demo_text_load:
  "load_config demo_surroundings CLIENT_PUB [''-t'', ''led'', ''-m'', demo_text] = Returns (text_cfg, 0)"
  "load_config demo_surroundings CLIENT_SUB [''-t'', ''led''] = Returns (listen_cfg, 0)"
proof -
  let ?cfg = "init_config\<lparr>cf_topic := Some ''led'', cf_message := Some demo_text, cf_msglen := int (length demo_text),
     cf_pub_mode := MSGMODE_CMD\<rparr>"
  have "client_config_line_proc demo_checks CLIENT_PUB init_config [''-t'', ''led'', ''-m'', demo_text] = (?cfg, 0)"
    by (simp add: demo_options)
  moreover have "config_checks CLIENT_PUB ?cfg" by (simp add: config_checks_def)
  ultimately show "load_config demo_surroundings CLIENT_PUB [''-t'', ''led'', ''-m'', demo_text] = Returns (text_cfg, 0)"
    by (simp add: load_config_def default_conf_def demo_surroundings_def client_config_load_def text_cfg_def
        del: client_config_line_proc.simps)
  have "client_config_line_proc demo_checks CLIENT_SUB init_config [''-t'', ''led''] = (init_config\<lparr>cf_topics := [''led'']\<rparr>, 0)"
    by (simp add: demo_options)
  moreover have "config_checks CLIENT_SUB (init_config\<lparr>cf_topics := [''led'']\<rparr>)" by (simp add: config_checks_def)
  ultimately show "load_config demo_surroundings CLIENT_SUB [''-t'', ''led''] = Returns (listen_cfg, 0)"
    by (simp add: load_config_def default_conf_def demo_surroundings_def client_config_load_def listen_cfg_def
        del: client_config_line_proc.simps)
qed

lemma demo_surroundings_simps:
  "env_stdin demo_surroundings = []" "env_new demo_surroundings" "\<And>c. env_lib demo_surroundings c = 0"
  by (simp_all add: demo_surroundings_def)

definition text_pub :: pub where
  "text_pub = (pub_globals [])\<lparr>pb_topic := Some ''led'', pb_message := Some demo_text,
     pb_msglen := int (length demo_text), pb_mode := MSGMODE_CMD\<rparr>"

lemma text_pub_main:
  "\<exists>calls. pub_main demo_surroundings [''-t'', ''led'', ''-m'', demo_text] = Some (Returns (calls, Main_Loop text_pub))"
proof -
  have "pub_setup text_cfg (Option.bind (cf_file_input text_cfg) (env_files demo_surroundings)) (pub_globals []) = Some (0, text_pub)"
    by (simp add: pub_setup_def pub_globals_def text_cfg_def text_pub_def)
  then show ?thesis
    using pub_connect_loops [of demo_surroundings text_cfg] demo_surroundings_simps
    by (simp add: pub_main_def demo_text_load prod_eq_iff)
qed

lemma run_calls_fine: "(\<And>c. lib c = 0) \<Longrightarrow> run_calls lib cs = (cs, 0)"
  by (induction cs) (simp_all add: failure_code_def split: lib_call.split)

lemma listen_sub_main:
  "\<exists>calls. sub_main demo_surroundings empty_kernel [''-t'', ''led''] =
     Returns (calls, Main_Loop (sub_start empty_kernel (client_id_generate listen_cfg ''mosqsub'' 7 ''pi'')))"
proof -
  have "env_pid demo_surroundings = 7" "env_hostname demo_surroundings = ''pi''" by (simp_all add: demo_surroundings_def)
  with demo_surroundings_simps show ?thesis
    by (simp add: sub_main_def demo_text_load opts_set_run run_calls_fine client_connect_def Let_def)
qed

definition text_message :: "u8 list \<Rightarrow> mqtt_message" where
  "text_message slack =
     \<lparr>mm_topic = ''led'', mm_payload = bytes_of demo_text @ slack, mm_payloadlen = length demo_text, mm_retain = False\<rparr>"

text \<open>The same message once with a NUL behind it and once without.\<close>

theorem message_delivered_witness:
  "\<exists>calls s s'. pub_main demo_surroundings [''-t'', ''led'', ''-m'', demo_text] = Some (Returns (calls, Main_Loop text_pub)) \<and>
     s = sub_start empty_kernel (client_id_generate listen_cfg ''mosqsub'' 7 ''pi'') \<and>
     my_message_callback (\<lambda>f t. False) (text_message [0]) s = Returns s' \<and>
     contents (sb_kernel s') = (contents (sb_kernel s))(sb_queue_id s \<mapsto> [bytes_of ''level two,'']) \<and>
     my_message_callback (\<lambda>f t. False) (text_message []) s = Fault (Index_Range 17 17)"
proof -
  let ?s = "sub_start empty_kernel (client_id_generate listen_cfg ''mosqsub'' 7 ''pi'')"
  obtain calls where p: "pub_main demo_surroundings [''-t'', ''led'', ''-m'', demo_text] = Some (Returns (calls, Main_Loop text_pub))"
    using text_pub_main by blast
  obtain calls' where s: "sub_main demo_surroundings empty_kernel [''-t'', ''led''] = Returns (calls', Main_Loop ?s)"
    using listen_sub_main by blast
  have pub: "Publish (Some ''led'') demo_text 0 False \<in> set (pb_calls (my_connect_callback demo_lib 0 text_pub))"
    by (simp add: my_connect_callback_def publish_def text_pub_def pub_globals_def message_payload_def demo_lib_def)
  have d: "delivered ''led'' demo_text slack (text_message slack)" for slack by (simp add: delivered_def text_message_def)
  have w: "wanted (\<lambda>f t. False) (sb_cfg ?s) (text_message slack)" "\<not> cf_verbose (sb_cfg ?s)" for slack
    by (simp_all add: wanted_def text_message_def sub_start_def split_beta client_id_generate_def listen_cfg_def
        init_config_def Let_def)
  have q: "contents (sb_kernel ?s) (sb_queue_id ?s) = Some []" "room CLIENT_MTEXT_SIZE (sb_kernel ?s) (sb_queue_id ?s) 1"
    by (simp_all add: sub_start_def sys_mq_init_def msgget_def empty_kernel_def contents_def room_def queued_bytes_def
        MQBUFSIZE_def CLIENT_MTEXT_SIZE_def)
  have t: "demo_text \<noteq> []" "length demo_text = 17" "take 10 (bytes_of demo_text) = bytes_of ''level two,''"
    "0 \<notin> set (bytes_of demo_text)" by (simp_all add: demo_text_def bytes_of_def)
  have "fst (demo_lib 0) = 0" by (simp add: demo_lib_def)
  note all = message_delivered [OF p this pub s d t(1) w q]
  from all [of "[0]"] obtain s' where "my_message_callback (\<lambda>f t. False) (text_message [0]) ?s = Returns s'"
    "contents (sb_kernel s') = (contents (sb_kernel ?s))(sb_queue_id ?s \<mapsto> [bytes_of ''level two,''])"
    using t by auto
  moreover have "my_message_callback (\<lambda>f t. False) (text_message []) ?s = Fault (Index_Range 17 17)"
    using all [of "[]"] t by auto
  ultimately show ?thesis using p by blast
qed

end
