(* ===== verification/Spec2Isabelle.thy ===== *)
theory Spec2Isabelle
  imports Scan_Spec Wire Opcodes Mosq_Usage Relay Command_Frames Forward_Retry Ble_Params Uart_Driver Led_Commands Gpio
    Mosq_Lines Mosq_Delivery
begin

text \<open>
  A model of the BLE parking gateway, in three groups of programs that run on one board and talk
  through System V queues, a FIFO and an MQTT broker.

  \<^bold>\<open>The scanner\<close> (\<open>BLE_Scanner/\<close>).  \<open>main\<close> (\<open>VVDNBLEMeshStack.c\<close>) starts
  two threads.  \<open>UartCmdRxThread\<close> cuts the byte stream of the BLE controller into packets and
  sorts them into queues; \<open>CentralModeThread\<close> sends HCI commands and runs the state machine
  scan, cancel, connect on the packets it takes from its queue.
  \<^item> \<open>Prelude\<close>: bytes, faults and outcomes of C code, accesses to arrays, reachability and the
    locale \<open>step_invariant\<close>.
  \<^item> \<open>HCI\<close>: the byte macros and opcodes of \<open>HCI_Commands.h\<close>, and what a command frame is;
    \<open>Opcodes\<close>: all opcode macros of that header as tables, and which of its events and status
    reports the dispatcher passes on, and which of the messages \<open>info.txt\<close> lists.
  \<^item> \<open>Msg_Queue\<close>: \<open>Drivers/Msg_Def.c\<close> over a model of the System V calls, and the locale
    \<open>fifo_channel\<close> of what a client of a queue may rely on, interpreted on those wrappers.
  \<^item> \<open>Globals\<close>, \<open>Commands\<close>, \<open>Conn_Table\<close>: the shared variables, each routine that
    builds a command packet, the connection table; \<open>Command_Frames\<close>: what all the routines that
    send a command write, the three that do not always write a command included.
  \<^item> \<open>Rx_Parser\<close>, \<open>Rx_Dispatch\<close>: the byte-level receiver with its 8-bit index (locale
    \<open>frame_receiver\<close>, interpreted on \<open>rx_byte\<close>) and the tests on a complete packet.
  \<^item> \<open>Central\<close>: response routines, start-up and the states of \<open>CentralModeThread.c\<close>.
  \<^item> \<open>Uart_Driver\<close>: the serial port of \<open>Drivers/UARTDriver.c\<close> as the system calls made and
    what they leave the port in, \<open>main\<close>, the error table of \<open>generic/errorcommands.c\<close>, and
    how the receive thread waits for a byte, where a failed \<open>read\<close> repeats the last one.
  \<^item> \<open>Gateway\<close>: the two threads interleaved; the scanner's invariants are interpretations of
    \<open>step_invariant\<close> there.  Its states record the bytes the receive thread has read
    (\<open>rx_log\<close>, which no step looks at), so a statement about a run can say which they were.  \<open>Scanner_Runs\<close>: whole runs of it, from start-up to scanning and to
    the link request, and the states in which the receive thread is stuck.  \<open>Scan_Spec\<close>: an
    abstract machine of phases and messages that the two threads refine.  \<open>Wire\<close>: the order of
    the packets the process has written to the controller.
  \<^item> \<open>Forward\<close>: \<open>pipe_0000_Thread\<close>, \<open>Forward_MSG_Queue_Thread\<close> and the two routines
    they send with; \<open>Ble_Params\<close>: \<open>SetParamValue\<close> of \<open>BLEParameters.c\<close>; \<open>Gpio\<close>: the
    reset pin (\<open>Drivers/GPIOAccess.c\<close>) and the file helpers of \<open>CentralModeThread.c\<close>.
    \<open>main\<close> starts none of these.  \<open>Relay\<close> puts the dispatcher and the two threads together,
    \<open>Forward_Retry\<close> follows the three retry loops as whole loops: the answers after which they end, and
    those that keep them going.

  \<^bold>\<open>The LED programs\<close> (\<open>LED_Manager/\<close>): \<open>Led\<close> models the manager, which formats a
  command into a FIFO, and the controller, which prints it, parses it and switches pins (the line
  it prints is modelled, because the buffer is not terminated; \<open>Led_Controller\<close> is what comes after
  it); \<open>Led_Threads\<close>
  interleaves the two threads of the controller at the grain of one condition or store, and
  \<open>Led_Commands\<close> follows a command from the manager to the call of a pin routine or to its loss.

  \<^bold>\<open>The MQTT clients\<close> (\<open>mosquitto_client/\<close>).  \<open>Mosq_Socks\<close>, \<open>Mosq_Config\<close> and
  \<open>Mosq_Client\<close> model \<open>client_shared.c\<close>: proxy URL, options and configuration file, calls made
  to libmosquitto and the client id.  \<open>Mosq_Pub\<close> is \<open>pub_client.c\<close>: where the message comes from,
  the line reader, and the loop of \<open>main\<close> interleaved with the library's callbacks
  (\<open>Pub_Loop\<close>: which inputs can crash this loop; \<open>Mosq_Lines\<close>: how a run with \<open>-l\<close> ends, for
  iterations and acknowledgements in any order).  \<open>Mosq_Sub\<close>
  is \<open>sub_client.c\<close>: the callbacks and the queue they put payloads into; \<open>Client_Queue\<close> is
  their copy of the queue wrappers, over the same kernel as the scanner's threads.  \<open>Mosq_Main\<close>
  puts the parts together: both \<open>main\<close> functions from the environment and the command line to
  the loop, and their ends; \<open>Mosq_Delivery\<close> joins the two programs, from what is published to
  what the subscriber puts into its queue; \<open>Mosq_Usage\<close> has the usage texts and compares the options they
  describe with those the parser takes.  \<open>C_Strings\<close> has the C string functions they and the LED
  programs use.

  \<^bold>\<open>State and errors.\<close>  C arrays are lists of a fixed length and every access is checked: a
  store or load outside, a read of something never written or a \<open>free\<close> of a literal is a
  \<open>fault\<close>, the one value for undefined behaviour, so a theorem that a call \<open>Returns\<close> also says
  that it stays inside its arrays.  A receive from an empty queue \<open>Blocks\<close>.  8-bit and 16-bit
  variables are words and wrap; a C \<open>int\<close> is an \<open>int\<close>, with its range where a value comes from
  text.  Values of uninitialised variables come from a stream of arbitrary ones in the state.

  \<^bold>\<open>Parameters.\<close>  The kernel's queues are modelled from their documentation in \<open>Msg_Queue\<close>.
  libmosquitto is not in the repository: its topic checks are a record of two predicates, the
  results of its calls a function, its callbacks inputs of the step relations.  The broker is not
  there either: \<open>Mosq_Delivery\<close> assumes that a message arrives as it was published, and of the
  object its payload is in only what libmosquitto documents, the bytes of the payload.

  \<^bold>\<open>Lemma groups.\<close>  Per component: what each operation does on every branch, the
  well-formedness it keeps (\<open>keeps_wf\<close>), exactly which inputs reach undefined behaviour, round trips
  between the two ends of each protocol.  Across components: this theory, where bytes on the UART
  become actions of the central thread, and \<open>Gateway\<close>, \<open>Led_Threads\<close> and \<open>Mosq_Pub\<close>, where the
  invariants of all interleavings are, interpretations of \<open>step_invariant\<close>.  Liveness claims
  quantify over every continuation of a run (\<open>Scanner_Runs\<close>: what stays stuck) or bound the
  steps to an effect (\<open>Led_Commands\<close>, \<open>Mosq_Lines\<close>, and \<open>Forward_Retry\<close> for the answers that end
  its loops).  Refinements relate the two
  scanner threads to an abstract machine (\<open>Scan_Spec\<close>), the step-wise LED thread to one sweep of its
  table, and \<open>client_opts_set\<close> to the calls a separate predicate says it is asked for.  No recursion needs fuel: loops are structural or have a measure; what may run forever is a
  step relation, or, for the reading loop of \<open>load_file\<close>, a partial function to an option whose
  \<open>None\<close> is not returning.

  \<^bold>\<open>Not modelled.\<close>  Printing for the user, other than the usage texts and the two prints of a C string
  that may have no end (the controller's buffer, the subscriber's payload), sleeping, what a compiled
  program does after undefined behaviour, the results of
  \<open>pthread_join\<close>, allocation failures of \<open>malloc\<close> and \<open>realloc\<close>, the signal handler, globals and
  constants no code uses (\<open>config.h\<close>), and code under \<open>#if 0\<close>.  The threads of the scanner step at the grain of one
  packet or one state.  The receive thread of \<open>Gateway\<close> takes an arbitrary byte in each step, so
  its invariants cover failed reads too; which bytes those repeat is in \<open>Uart_Driver\<close>.
\<close>

subsection \<open>Concrete processes\<close>

definition demo_process :: process where
  "demo_process =
     \<lparr>rx_ready = None, receiver = demo_rx, rx_log = [], pending = [], central_at = Start,
      shared = initial_globals empty_kernel (\<lambda>i n. int n) (\<lambda>i. 0)\<rparr>"

lemma demo_process_init: "process_init demo_process"
  unfolding process_init_def demo_process_def
  by (simp add: demo_rx_def rx_init_def initial_globals_ok empty_kernel_ok zero_dev_def list_all_iff)

text \<open>The process after its start-up, scanning, with its queues set up and empty.\<close>

definition scanning_process :: process where
  "scanning_process =
     \<lparr>rx_ready = Some demo_queues, receiver = demo_rx, rx_log = [], pending = [],
      central_at = Top STATE_CENTRAL_DEVICE_SCAN_DATA, shared = demo_globals\<rparr>"

lemma scanning_process_inv: "process_inv scanning_process"
  unfolding process_inv_def scanning_process_def
  by (simp add: demo_globals_ok none_connected_def rx_idle_ok demo_rx_idle central_points_def)
    (simp add: demo_globals_def zero_dev_def list_all_iff)


text \<open>Reachable states in which the receive thread listens and the central thread scans.\<close>

lemma demo_listening:
  "\<exists>w qs. gateway_reaches (Running w) \<and> listening w qs \<and> central_at w = Start \<and>
     mq_key (kern (shared w)) COMMANDRESP_THREAD_QUEUE_KEY = Some (CommandRespQId qs) \<and>
     mq_key (kern (shared w)) CONN_PIPE_0_KEY = Some (Pipe_0_Id qs)"
proof -
  obtain qs k where i: "rx_thread_init 0 0 0 (kern (shared demo_process)) = (qs, k)" by force
  let ?w = "demo_process\<lparr>rx_ready := Some qs, shared := (shared demo_process)\<lparr>kern := k\<rparr>\<rparr>"
  have "gateway_step (Running demo_process) (Running ?w)"
    by (rule gateway_step.rx_start [OF _ i]) (simp add: demo_process_def)
  then have r: "gateway_reaches (Running ?w)"
    using demo_process_init by (intro reaches.next_state [OF reaches.start]) simp_all
  have "qs = \<lparr>CommandRespQId = 4, PING_PKT_RSP_ID = 6, RX_WRITE_RSP_ID = 7, Pipe_0_Id = 8, Pipe_1_Id = 0,
      Pipe_2_Id = 0, Pipe_3_Id = 0\<rparr>" and "mq_key k 1995 = Some 4" "mq_key k 2000 = Some 8"
    "contents k 4 = Some []" "mq_qbytes k = 16384"
    using i by (auto simp: demo_process_def rx_thread_init_def rx_keys_def sys_mq_init_def msgget_def empty_kernel_def
        COMMANDRESP_THREAD_QUEUE_KEY_def PING_PKT_KEY_def WRITE_RSP_KEY_def CONN_PIPE_0_KEY_def contents_def)
  moreover have "process_inv ?w" using gateway.reaches_inv [OF r] by simp
  ultimately show ?thesis using r
    by (intro exI [of _ ?w] exI [of _ qs])
      (simp add: listening_def calm_def demo_process_def demo_rx_idle COMMANDRESP_THREAD_QUEUE_KEY_def CONN_PIPE_0_KEY_def
        MQBUFSIZE_def MTEXT_SIZE_def)
qed

lemma reaches_steps: "reaches init step s \<Longrightarrow> step\<^sup>*\<^sup>* s t \<Longrightarrow> reaches init step t"
  by (rotate_tac 1, induction rule: rtranclp_induct) (auto intro: reaches.next_state)

lemma advert_msg_frame:
  "matching_advert advert_msg" "event_frame advert_msg" "8 \<le> length advert_msg" "length advert_msg \<le> MTEXT_SIZE"
  "vendor_event advert_msg" "\<not> shadowed advert_msg" "event_code advert_msg \<in> set command_events"
  by (simp_all add: matching_advert_def advert_msg_def event_frame_def packet_simps uuid_match_def command_events_def
      VS_GAP_DEVICE_INFORMATION_def MTEXT_SIZE_def)

definition scan_end_frame :: "u8 list" where
  "scan_end_frame = [4, 0xFF, 5, 0x01, 0x06, 0x30, 0, 0]"

lemma scan_end_frame: "scan_end scan_end_frame"
  by (simp add: scan_end_def scan_end_frame_def scan_done_def vendor_msg_def event_frame_def packet_simps MTEXT_SIZE_def
      VS_GAP_DEVICE_DISCOVERY_def)

lemma demo_scanning:
  "\<exists>w qs. gateway_reaches (Running w) \<and> listening w qs \<and> central_at w = Top STATE_CENTRAL_DEVICE_SCAN_DATA \<and>
     tCommandRespQId (shared w) = CommandRespQId qs \<and> CommandRespQId qs \<noteq> -1"
proof -
  obtain w qs where w: "gateway_reaches (Running w)" "listening w qs" "central_at w = Start"
    "mq_key (kern (shared w)) COMMANDRESP_THREAD_QUEUE_KEY = Some (CommandRespQId qs)"
    using demo_listening by blast
  obtain u where u: "gateway_step (Running w) (Running u)" "listening u qs" "central_at u = Top STATE_CENTRAL_INIT"
    "tCommandRespQId (shared u) = CommandRespQId qs"
    using central_starts [OF w(2-4)] by blast
  obtain v where v: "gateway_step\<^sup>*\<^sup>* (Running u) (Running v)" "listening v qs" "central_at v = In_Scan_Rsp"
    "tCommandRespQId (shared v) = CommandRespQId qs"
    using central_asks [OF u(2,3)] u(4) by auto
  obtain x where x: "gateway_step\<^sup>*\<^sup>* (Running v) (Running x)" "listening x qs"
    "central_at x = Top STATE_CENTRAL_DEVICE_SCAN_DATA" "tCommandRespQId (shared x) = CommandRespQId qs"
    using central_scans [OF v(2-4) advert_msg_frame(2-)] by blast
  have "gateway_step\<^sup>*\<^sup>* (Running w) (Running x)" using u(1) v(1) x(1) by (meson converse_rtranclp_into_rtranclp rtranclp_trans)
  moreover have "kernel_ok MTEXT_SIZE (kern (shared w))" using w(2) by (simp add: listening_def process_inv_def globals_ok_def)
  from kernel_ok_keyD [OF this w(4)] have "CommandRespQId qs \<noteq> -1" by auto
  ultimately show ?thesis using reaches_steps [OF w(1)] x(2-4) by blast
qed

text \<open>From there the bytes of an advertisement and of the end of the scan lead to the link request.\<close>

lemma demo_requesting:
  "\<exists>w. gateway_reaches (Running w) \<and> central_at w = Top STATE_CENTRAL_DEVICE_ESTABLISH_LINK_REQ \<and> orderly (shared w)"
proof -
  obtain w qs where w: "gateway_reaches (Running w)" "listening w qs"
    "central_at w = Top STATE_CENTRAL_DEVICE_SCAN_DATA" "tCommandRespQId (shared w) = CommandRespQId qs" "CommandRespQId qs \<noteq> -1"
    using demo_scanning by blast
  from w(2) have l: "process_inv w" "rx_ready w = Some qs" "pending w = []" "rx_idle (receiver w)"
    "contents (kern (shared w)) (tCommandRespQId (shared w)) = Some []"
    "MQBUFSIZE MTEXT_SIZE \<le> mq_qbytes (kern (shared w))" "\<And>i n. env_write (shared w) i n = int n"
    "\<And>i. env_junk (shared w) i = 0"
    by (simp_all add: listening_def calm_def w(4))
  from advert_then_request [OF l(1-4) w(3) advert_msg_frame(1) scan_end_frame w(4) [symmetric] l(5-7)]
  obtain u where u: "gateway_step\<^sup>*\<^sup>* (Running w) (Running u)" "central_at u = Top STATE_CENTRAL_DEVICE_ESTABLISH_LINK_REQ"
    "tCommandRespQId (shared u) = tCommandRespQId (shared w)" by blast
  have "orderly (shared u)"
    using gateway_steps_running [OF u(1) refl] l(8) u(3) w(4,5)
    by (simp add: orderly_def junk_harmless_def surroundings_of_def as_status_def)
  with reaches_steps [OF w(1) u(1)] u(2) show ?thesis by blast
qed


subsection \<open>Properties of the whole scanner\<close>

text \<open>C1: From the UART to the state machine: when an idle receiver reads exactly the bytes of a
  matching advertisement while the central thread is scanning and the shared queue is empty, the
  process can run, with no byte read besides, to a state where the central thread goes on to
  cancel the scan, holds the advertiser's address most significant byte first, and the queues are
  as before.\<close>

theorem advert_reaches_central:
  assumes "process_inv w" and "rx_ready w = Some qs" and "pending w = []" and "rx_idle (receiver w)"
    and "central_at w = Top STATE_CENTRAL_DEVICE_SCAN_DATA" and "matching_advert fr"
    and "CommandRespQId qs = tCommandRespQId (shared w)"
    and "contents (kern (shared w)) (tCommandRespQId (shared w)) = Some []"
    and "room MTEXT_SIZE (kern (shared w)) (tCommandRespQId (shared w)) 1"
  shows "\<exists>v. gateway_step\<^sup>*\<^sup>* (Running w) (Running v) \<and> rx_log v = rx_log w @ fr \<and>
     central_at v = Top STATE_CENTRAL_DEVICE_SCAN_CANCEL \<and>
     take 6 (Scanned_MAC_Buff (shared v)) = rev (take 6 (drop 8 fr)) \<and>
     contents (kern (shared v)) = contents (kern (shared w))"
  using gateway_advert [OF assms] by blast

theorem advert_reaches_central_witness:
  "\<exists>v. gateway_step\<^sup>*\<^sup>* (Running scanning_process) (Running v) \<and> rx_log v = rx_log scanning_process @ advert_msg \<and>
     central_at v = Top STATE_CENTRAL_DEVICE_SCAN_CANCEL \<and>
     take 6 (Scanned_MAC_Buff (shared v)) = rev (take 6 (drop 8 advert_msg)) \<and>
     contents (kern (shared v)) = contents (kern (shared scanning_process))"
  by (rule advert_reaches_central [OF scanning_process_inv, of demo_queues])
    (simp_all add: scanning_process_def demo_rx_idle demo_queues_def demo_globals_def
      matching_advert_def advert_msg_def event_frame_def packet_simps uuid_match_def
      VS_GAP_DEVICE_INFORMATION_def MTEXT_SIZE_def one_queue_eq contents_def room_def queued_bytes_def
      MQBUFSIZE_def)

text \<open>C2: Safety of every reachable state: all arrays keep their sizes, the receiver stays inside its
  packet array, every action still to run carries the whole array, the central thread is at one
  of eight program points; and a crash can only be one of three overruns: 13 bytes into the
  link request's 10, a message of 101 to 255 bytes into the 100 of the message structure, or a
  connection handle of 6 to 65535 used on the six slots of the table.\<close>

theorem reachable_safe: "gateway_reaches s \<Longrightarrow> gateway_inv s"
  by (rule gateway.reaches_inv)

theorem reachable_safe_witness: "gateway_inv (Running demo_process)"
  by (rule reachable_safe [OF reaches.start]) (simp add: demo_process_init)

text \<open>C5: No link is established while the process stays in the defined part of C: in every reachable
  state no slot of the connection table is marked connected, both counters are 0, and the
  central thread is neither past the link request nor in the final loop of the bonding routine;
  and at the link request every way on is the overrun of its array, before anything is sent.
  What a compiled program does after this overrun is not modelled.\<close>

theorem never_connected:
  assumes "gateway_reaches (Running w)"
  shows "list_all (\<lambda>d. cd_status d = 0) (Conn_Device_List (shared w)) \<and>
     Slave_Count (shared w) = 0 \<and> Device_conn_count (shared w) = 0 \<and>
     central_at w \<noteq> Top STATE_CENTRAL_DEVICE_ESTABLISH_LINK_RSP \<and> central_at w \<noteq> Spinning \<and>
     (central_at w = Top STATE_CENTRAL_DEVICE_ESTABLISH_LINK_REQ \<longrightarrow>
        central_step (central_at w) (shared w) = Fault (Overflow 10 13))"
proof -
  have inv: "process_inv w" using gateway.reaches_inv [OF assms] by simp
  then have "Device_conn_count (shared w) = 0"
    unfolding Device_conn_count_def
    by (intro count_none) (simp_all add: process_inv_def none_connected_def globals_ok_def)
  with inv show ?thesis
    by (auto simp: process_inv_def none_connected_def central_points_def central_state_step_def Establish_Link_Req_faults)
qed

theorem never_connected_witness:
  "\<exists>w. gateway_reaches (Running w) \<and> central_at w = Top STATE_CENTRAL_DEVICE_ESTABLISH_LINK_REQ \<and>
     list_all (\<lambda>d. cd_status d = 0) (Conn_Device_List (shared w)) \<and>
     Slave_Count (shared w) = 0 \<and> Device_conn_count (shared w) = 0 \<and>
     central_step (central_at w) (shared w) = Fault (Overflow 10 13)"
proof -
  obtain w where w: "gateway_reaches (Running w)" "central_at w = Top STATE_CENTRAL_DEVICE_ESTABLISH_LINK_REQ"
    using demo_requesting by blast
  from never_connected [OF w(1)] w show ?thesis by blast
qed

text \<open>C10: Both threads talk through the same queue: once both have set up their identifiers, in
  either order and with any steps in between, the queue the receive thread sends the events to
  is the one the central thread waits on, unless the kernel refused to create it.\<close>

theorem threads_share_queue:
  assumes "gateway_reaches (Running w)" and "rx_ready w = Some qs" and "central_at w \<noteq> Start"
  shows "CommandRespQId qs = tCommandRespQId (shared w) \<or>
     CommandRespQId qs = -1 \<or> tCommandRespQId (shared w) = -1"
  using gateway_queues.reaches_inv [OF assms(1)] assms(2,3)
  by (auto simp: process_linked_def dest: known_same)

text \<open>A process in which both threads have run their start-up code.\<close>

lemma demo_both_started:
  "\<exists>w qs. gateway_reaches (Running w) \<and> rx_ready w = Some qs \<and> central_at w = Top STATE_CENTRAL_INIT"
proof -
  obtain qs k where "rx_thread_init 0 0 0 (kern (shared demo_process)) = (qs, k)" by force
  then have 1: "gateway_step (Running demo_process)
      (Running (demo_process\<lparr>rx_ready := Some qs, shared := (shared demo_process)\<lparr>kern := k\<rparr>\<rparr>))"
      (is "gateway_step _ (Running ?u)")
    by (intro gateway_step.rx_start) (simp add: demo_process_def)
  obtain g where "central_startup (shared ?u) = Returns g"
    using central_startup_log by blast
  then have 2: "gateway_step (Running ?u) (Running (?u\<lparr>central_at := Top STATE_CENTRAL_INIT, shared := g\<rparr>))"
    (is "gateway_step _ (Running ?v)")
    by (intro gateway_step.central) (simp add: demo_process_def)
  have "gateway_reaches (Running demo_process)"
    by (rule reaches.start) (simp add: demo_process_init)
  from reaches.next_state [OF reaches.next_state [OF this 1] 2] have "gateway_reaches (Running ?v)" .
  then show ?thesis
    by (intro exI [of _ ?v] exI [of _ qs]) simp
qed

theorem threads_share_queue_witness:
  "\<exists>w qs. gateway_reaches (Running w) \<and> rx_ready w = Some qs \<and> central_at w = Top STATE_CENTRAL_INIT \<and>
     (CommandRespQId qs = tCommandRespQId (shared w) \<or>
      CommandRespQId qs = -1 \<or> tCommandRespQId (shared w) = -1)"
proof -
  obtain w qs where w: "gateway_reaches (Running w)" "rx_ready w = Some qs" "central_at w = Top STATE_CENTRAL_INIT"
    using demo_both_started by blast
  moreover have "CommandRespQId qs = tCommandRespQId (shared w) \<or>
      CommandRespQId qs = -1 \<or> tCommandRespQId (shared w) = -1"
    using threads_share_queue [OF w(1,2)] w(3) by simp
  ultimately show ?thesis by blast
qed

text \<open>C11: A disconnection event from the controller for a connection handle of 6 or more crashes the
  process: from any state with an idle receiver that reads exactly its bytes, the process can
  reach a state whose next step is the access outside the connection table, at the handle of
  bytes 6 and 7, low byte first.\<close>

theorem bad_handle_crashes:
  assumes "process_inv w" and "rx_ready w = Some qs" and "pending w = []" and "rx_idle (receiver w)"
    and "event_frame fr" and "9 \<le> length fr" and "vendor_event fr" and "\<not> shadowed fr"
    and "event_code fr = VS_GAP_LINK_TERMINATED" and "6 \<le> 256 * unat (fr ! 7) + unat (fr ! 6)"
  shows "\<exists>v. gateway_step\<^sup>*\<^sup>* (Running w) (Running v) \<and> rx_log v = rx_log w @ fr \<and>
     gateway_step (Running v) (Crashed (Index_Range 6 (int (256 * unat (fr ! 7) + unat (fr ! 6)))))"
  by (rule gateway_bad_handle [OF assms])

definition terminated_frame :: "u8 list" where
  "terminated_frame = [4, 0xFF, 6, 0x06, 0x06, 0, 6, 0, 0x13]"

theorem bad_handle_crashes_witness:
  "\<exists>v. gateway_step\<^sup>*\<^sup>* (Running scanning_process) (Running v) \<and> rx_log v = rx_log scanning_process @ terminated_frame \<and>
     gateway_step (Running v) (Crashed (Index_Range 6 (int (256 * unat (terminated_frame ! 7) + unat (terminated_frame ! 6)))))"
  by (rule bad_handle_crashes [OF scanning_process_inv, of demo_queues])
    (simp_all add: scanning_process_def demo_rx_idle terminated_frame_def event_frame_def packet_simps
      VS_GAP_LINK_TERMINATED_def)


subsection \<open>Whole runs\<close>

text \<open>C6: The receive thread can always be stopped for good: \<open>main\<close> starts no thread that reads the
  queue of pipe 0, so from any reachable state with an idle receiver some number of notifications
  for connection 0, and no other byte, fills it: all but the last are in the queue, and the thread
  is in the send of the last one.  From then on, whatever the central thread does, in every
  continuation the receive thread stays in this send with the same packet and reads no byte any
  more, unless the process crashes in the link request.\<close>

theorem receiver_stalls:
  assumes "gateway_reaches (Running w)" and "rx_ready w = Some qs" and "pending w = []"
    and "rx_idle (receiver w)" and "mq_key (kern (shared w)) CONN_PIPE_0_KEY = Some (Pipe_0_Id qs)"
    and "contents (kern (shared w)) (Pipe_0_Id qs) = Some ms"
  shows "\<exists>k v. gateway_step\<^sup>*\<^sup>* (Running w) (Running v) \<and>
     rx_log v = rx_log w @ concat (replicate (Suc k) notification_frame) \<and>
     contents (kern (shared v)) (Pipe_0_Id qs) = Some (ms @ replicate k notification_frame) \<and>
     (\<exists>p n. pending v = [Mq_Send (Pipe_0_Id qs) p n] \<and> take (unat n) p = notification_frame) \<and>
     (\<forall>s. gateway_step\<^sup>*\<^sup>* (Running v) s \<longrightarrow>
        s = Crashed (Overflow 10 13) \<or>
        (\<exists>u. s = Running u \<and> receiver u = receiver v \<and> pending u = pending v \<and> rx_log u = rx_log v))"
proof -
  have "process_linked w" using gateway_queues.reaches_inv [OF assms(1)] by simp
  moreover obtain j where "\<not> room MTEXT_SIZE (kern (shared w)) (Pipe_0_Id qs) (Suc j)"
    using room_exhausted by blast
  ultimately obtain k v where v: "gateway_step\<^sup>*\<^sup>* (Running w) (Running v)" "process_linked v" "receiver_stuck v"
    "filled_by k w qs ms v"
    using notifications_fill [OF _ assms(2-6)] by blast
  with stuck_steps [OF _ v(2,3)] show ?thesis
    unfolding filled_by_def by (intro exI [of _ k] exI [of _ v]) blast
qed

theorem receiver_stalls_witness:
  "\<exists>w qs k v. gateway_reaches (Running w) \<and> rx_ready w = Some qs \<and> gateway_step\<^sup>*\<^sup>* (Running w) (Running v) \<and>
     rx_log v = rx_log w @ concat (replicate (Suc k) notification_frame) \<and>
     (\<exists>p n. pending v = [Mq_Send (Pipe_0_Id qs) p n] \<and> take (unat n) p = notification_frame) \<and>
     (\<forall>s. gateway_step\<^sup>*\<^sup>* (Running v) s \<longrightarrow>
        s = Crashed (Overflow 10 13) \<or>
        (\<exists>u. s = Running u \<and> receiver u = receiver v \<and> pending u = pending v \<and> rx_log u = rx_log v))"
proof -
  obtain w qs where w: "gateway_reaches (Running w)" "listening w qs"
    "mq_key (kern (shared w)) CONN_PIPE_0_KEY = Some (Pipe_0_Id qs)"
    using demo_listening by blast
  from w(2) have l: "rx_ready w = Some qs" "pending w = []" "rx_idle (receiver w)"
    and k: "kernel_ok MTEXT_SIZE (kern (shared w))"
    by (simp_all add: listening_def process_inv_def globals_ok_def)
  from kernel_ok_keyD [OF k w(3)] obtain ms where "contents (kern (shared w)) (Pipe_0_Id qs) = Some ms"
    by (auto simp: contents_def)
  from receiver_stalls [OF w(1) l w(3) this] obtain k v where v: "gateway_step\<^sup>*\<^sup>* (Running w) (Running v)"
    "rx_log v = rx_log w @ concat (replicate (Suc k) notification_frame)"
    "\<exists>p n. pending v = [Mq_Send (Pipe_0_Id qs) p n] \<and> take (unat n) p = notification_frame"
    "\<forall>s. gateway_step\<^sup>*\<^sup>* (Running v) s \<longrightarrow> s = Crashed (Overflow 10 13) \<or>
      (\<exists>u. s = Running u \<and> receiver u = receiver v \<and> pending u = pending v \<and> rx_log u = rx_log v)"
    by (elim exE conjE) (rule that, assumption, assumption, intro exI conjI, assumption+)
  show ?thesis
    by (rule exI [of _ w], rule exI [of _ qs], rule exI [of _ k], rule exI [of _ v]) (intro conjI w(1) l(1) v)
qed

text \<open>C9: Before a link is asked for: in every reachable state at the link request the buffer holds the
  controller's confirmation that the scan has ended (status 0x30), and the address in
  \<open>Scanned_MAC_Buff\<close> was stored earlier on the run, in a step in which the central thread was
  waiting for scan data, took the first message of its queue, found the expected flags and service
  in the buffer it had been copied into, and stored the six address bytes of that buffer in
  reverse; provided the queue could be created and no left-over register value is read as
  the code 2.\<close>

theorem link_request_justified:
  assumes "gateway_reaches (Running w)" and "central_at w = Top STATE_CENTRAL_DEVICE_ESTABLISH_LINK_REQ"
  shows "scan_done (buffer (shared w)) \<and>
     (orderly (shared w) \<longrightarrow>
       (\<exists>u u'. gateway_reaches (Running u) \<and> gateway_step (Running u) (Running u') \<and> took_advert u u' \<and>
          gateway_step\<^sup>*\<^sup>* (Running u') (Running w) \<and>
          Scanned_MAC_Buff (shared w) = Scanned_MAC_Buff (shared u')))"
  using gateway_requests.reaches_inv [OF assms(1)] assms(2)
  by (simp add: justified_def cancelling_def from_advert_def)

theorem link_request_justified_witness:
  "\<exists>w u u'. gateway_reaches (Running w) \<and> central_at w = Top STATE_CENTRAL_DEVICE_ESTABLISH_LINK_REQ \<and>
     scan_done (buffer (shared w)) \<and>
     gateway_reaches (Running u) \<and> gateway_step (Running u) (Running u') \<and> took_advert u u' \<and>
     gateway_step\<^sup>*\<^sup>* (Running u') (Running w) \<and> Scanned_MAC_Buff (shared w) = Scanned_MAC_Buff (shared u')"
proof -
  obtain w where w: "gateway_reaches (Running w)" "central_at w = Top STATE_CENTRAL_DEVICE_ESTABLISH_LINK_REQ"
    "orderly (shared w)"
    using demo_requesting by blast
  from link_request_justified [OF w(1,2)] w show ?thesis by blast
qed

text \<open>C7: The normal course of a scan crashes the process: from any state in which the receiver is
  idle, the central thread scans and the shared queue is empty, with a UART that accepts every
  write, reading exactly the bytes of a matching advertisement and then those of the controller's
  end-of-scan event can lead to the link request for the advertiser's address, whose next step
  is the write of 13 bytes into its array of 10.\<close>

theorem accepted_advert_crashes:
  assumes "process_inv w" and "rx_ready w = Some qs" and "pending w = []" and "rx_idle (receiver w)"
    and "central_at w = Top STATE_CENTRAL_DEVICE_SCAN_DATA" and "matching_advert fr" and "scan_end fr'"
    and "CommandRespQId qs = tCommandRespQId (shared w)"
    and "contents (kern (shared w)) (tCommandRespQId (shared w)) = Some []"
    and "MQBUFSIZE MTEXT_SIZE \<le> mq_qbytes (kern (shared w))"
    and "\<And>i n. env_write (shared w) i n = int n"
  shows "\<exists>v. gateway_step\<^sup>*\<^sup>* (Running w) (Running v) \<and> rx_log v = rx_log w @ fr @ fr' \<and>
     central_at v = Top STATE_CENTRAL_DEVICE_ESTABLISH_LINK_REQ \<and>
     take 6 (Scanned_MAC_Buff (shared v)) = rev (take 6 (drop 8 fr)) \<and>
     gateway_step (Running v) (Crashed (Overflow 10 13))"
  using advert_then_request [OF assms] link_request_crashes by blast

theorem accepted_advert_crashes_witness:
  "\<exists>w v. gateway_reaches (Running w) \<and> gateway_step\<^sup>*\<^sup>* (Running w) (Running v) \<and>
     rx_log v = rx_log w @ advert_msg @ scan_end_frame \<and>
     take 6 (Scanned_MAC_Buff (shared v)) = [0x11, 0x22, 0x33, 0x44, 0x55, 0x66] \<and>
     gateway_step (Running v) (Crashed (Overflow 10 13))"
proof -
  obtain w qs where w: "gateway_reaches (Running w)" "listening w qs"
    "central_at w = Top STATE_CENTRAL_DEVICE_SCAN_DATA" "tCommandRespQId (shared w) = CommandRespQId qs"
    using demo_scanning by blast
  from w(2) have l: "process_inv w" "rx_ready w = Some qs" "pending w = []" "rx_idle (receiver w)"
    "contents (kern (shared w)) (tCommandRespQId (shared w)) = Some []"
    "MQBUFSIZE MTEXT_SIZE \<le> mq_qbytes (kern (shared w))" "\<And>i n. env_write (shared w) i n = int n"
    by (simp_all add: listening_def calm_def w(4))
  have "rev (take 6 (drop 8 advert_msg)) = [0x11, 0x22, 0x33, 0x44, 0x55, 0x66]" by (simp add: advert_msg_def)
  with accepted_advert_crashes [OF l(1-4) w(3) advert_msg_frame(1) scan_end_frame w(4) [symmetric] l(5-7)] w(1)
  show ?thesis by metis
qed

text \<open>C8: The process refines the specification of the scanner in theory Scan_Spec: every step of
  either thread from a reachable state leaves the phase, the waiting messages, the last message
  and the stored address alone or is one of the specification's steps (a message arrives, the
  thread asks for a scan, takes a message and accepts it with its address or not, cancels, sees
  the scan end); and the central thread waits in the kernel exactly in the three phases that
  take a message, and then only when there is none.\<close>

theorem gateway_refines_spec:
  assumes "gateway_reaches (Running w)"
  shows "(\<forall>v. gateway_step (Running w) (Running v) \<longrightarrow> view v = view w \<or> spec_step (view w) (view v)) \<and>
     (central_step (central_at w) (shared w) = Blocks \<longleftrightarrow> spec_waits (view w))"
proof -
  have w: "process_linked w" using gateway_queues.reaches_inv [OF assms] by simp
  then have "process_inv w" by (simp add: process_linked_def)
  then have "central_step (central_at w) (shared w) = Blocks \<longleftrightarrow> spec_waits (view w)"
    unfolding view_def process_inv_def by (intro central_waits) simp_all
  with process_refines [OF w] show ?thesis by blast
qed

theorem gateway_refines_spec_witness:
  "\<exists>w. gateway_reaches (Running w) \<and> sv_phase (view w) = Scanning \<and>
     (\<forall>v. gateway_step (Running w) (Running v) \<longrightarrow> view v = view w \<or> spec_step (view w) (view v)) \<and>
     (central_step (central_at w) (shared w) = Blocks \<longleftrightarrow> spec_waits (view w))"
proof -
  obtain w where w: "gateway_reaches (Running w)" "central_at w = Top STATE_CENTRAL_DEVICE_SCAN_DATA"
    using demo_scanning by blast
  have "sv_phase (view w) = Scanning" by (simp add: view_def view_of_def w(2))
  with gateway_refines_spec [OF w(1)] w(1) show ?thesis by blast
qed

text \<open>C14: What the gateway says to the controller, in every interleaving of its threads from a start
  with a silent UART: every packet ever written is a well-formed HCI command frame, and, the
  acknowledgements of the receive thread left out, the packets are at each program point of the
  central thread exactly the fourteen of the start-up sequence, then scan requests, then cancel
  requests; at least one scan request comes before scan data are taken, and at least one cancel
  request before its response is awaited or a link is asked for.\<close>

theorem wire_protocol:
  assumes "process_init u" and "tx_log (shared u) = []" and "gateway_step\<^sup>*\<^sup>* (Running u) (Running w)"
  shows "list_all framed (sent (shared w)) \<and>
     (if central_at w = Start then by_central (shared w) = []
      else \<exists>n k. by_central (shared w) = central_trace n k \<and> sent_at (central_at w) n k)"
proof -
  have "gateway_wire (Running u)" using gateway_wires.init_inv [of "Running u"] assms(1,2) by simp
  from gateway_wires.steps_inv [OF assms(3) this] show ?thesis by (simp add: follows_protocol_def)
qed

theorem wire_protocol_witness:
  "\<exists>w. gateway_step\<^sup>*\<^sup>* (Running demo_process) (Running w) \<and> central_at w = Top STATE_CENTRAL_INIT \<and>
     list_all framed (sent (shared w)) \<and> (\<exists>n k. by_central (shared w) = central_trace n k \<and> sent_at (central_at w) n k)"
proof -
  obtain g where c: "central_step Start (shared demo_process) = Returns (Top STATE_CENTRAL_INIT, g)"
    using central_startup_log [of "shared demo_process"] by auto
  let ?w = "demo_process\<lparr>central_at := Top STATE_CENTRAL_INIT, shared := g\<rparr>"
  have "gateway_step (Running demo_process) (Running ?w)"
    by (rule gateway_step.central) (use c in \<open>simp add: demo_process_def\<close>)
  then have st: "gateway_step\<^sup>*\<^sup>* (Running demo_process) (Running ?w)" by blast
  have "tx_log (shared demo_process) = []" by (simp add: demo_process_def initial_globals_def)
  from wire_protocol [OF demo_process_init this st] st show ?thesis by (intro exI [of _ ?w]) simp
qed

end
